(* ===== verification/Prelude.thy ===== *)
theory Prelude
  imports
    Main
    "HOL-Library.Multiset"
    "HOL-Library.Char_ord"
    "HOL-Library.List_Lexorder"
begin

text \<open>
  The shared prelude of the development: what the Go sources use of the language and of its
  standard library, and the lemmas every component relies on.

  \<^item> errors: a Go function that returns an \<open>error\<close> is a program with outcome \<open>Ret\<close> (no error),
    \<open>Err\<close> (a non-nil error) or \<open>Crash\<close> (a panic, a nil dereference or \<open>klog.Fatalf\<close>);
  \<^item> effects: a program is a function from a state to an outcome and a new state, with \<open>ret\<close>,
    \<open>bind\<close>, \<open>attempt\<close> (the \<open>if err != nil\<close> idiom that goes on) and loops over slices; \<open>wp\<close> is the
    weakest precondition and the collection \<open>wp_simps\<close> computes it;
  \<^item> maps: a Go map is an association list with distinct keys, and \<open>range\<close> over it visits
    the entries in the order given by an arbitrary code, \<open>go_range\<close>;
  \<^item> strings (package strings) and time (package time, nanoseconds since the zero time).
\<close>

named_theorems wp_simps \<open>equations that compute weakest preconditions\<close>
named_theorems go_defs \<open>definitions of the small helper operations of the components\<close>

section \<open>Errors and effectful programs\<close>

datatype goerr = Errorf string | Wrapf string goerr

datatype 'a outcome = Ret 'a | Err goerr | Crash string

type_synonym ('s, 'a) prog = "'s \<Rightarrow> 'a outcome \<times> 's"

definition ret :: "'a \<Rightarrow> ('s, 'a) prog" where
  "ret x = (\<lambda>s. (Ret x, s))"

definition fail :: "goerr \<Rightarrow> ('s, 'a) prog" where
  "fail e = (\<lambda>s. (Err e, s))"

definition crash :: "string \<Rightarrow> ('s, 'a) prog" where
  "crash m = (\<lambda>s. (Crash m, s))"

definition bind :: "('s, 'a) prog \<Rightarrow> ('a \<Rightarrow> ('s, 'b) prog) \<Rightarrow> ('s, 'b) prog" where
  "bind p f = (\<lambda>s. case p s of
     (Ret x, s') \<Rightarrow> f x s'
   | (Err e, s') \<Rightarrow> (Err e, s')
   | (Crash m, s') \<Rightarrow> (Crash m, s'))"

definition seq :: "('s, unit) prog \<Rightarrow> ('s, 'b) prog \<Rightarrow> ('s, 'b) prog" where
  "seq p q = bind p (\<lambda>_. q)"

definition gets :: "('s \<Rightarrow> 'a) \<Rightarrow> ('s, 'a) prog" where
  "gets f = (\<lambda>s. (Ret (f s), s))"

definition modify :: "('s \<Rightarrow> 's) \<Rightarrow> ('s, unit) prog" where
  "modify f = (\<lambda>s. (Ret (), f s))"

text \<open>
  \<open>attempt p\<close> runs \<open>p\<close> and hands its error to the caller as a value; a crash still
  ends the program. \<open>rewrap f p\<close> is the idiom \<open>return fmt.Errorf("...: %v", err)\<close>.
\<close>

definition attempt :: "('s, 'a) prog \<Rightarrow> ('s, goerr + 'a) prog" where
  "attempt p = (\<lambda>s. case p s of
     (Ret x, s') \<Rightarrow> (Ret (Inr x), s')
   | (Err e, s') \<Rightarrow> (Ret (Inl e), s')
   | (Crash m, s') \<Rightarrow> (Crash m, s'))"

definition rewrap :: "(goerr \<Rightarrow> goerr) \<Rightarrow> ('s, 'a) prog \<Rightarrow> ('s, 'a) prog" where
  "rewrap f p = (\<lambda>s. case p s of
     (Ret x, s') \<Rightarrow> (Ret x, s')
   | (Err e, s') \<Rightarrow> (Err (f e), s')
   | (Crash m, s') \<Rightarrow> (Crash m, s'))"

text \<open>\<open>for _, x := range xs { body }\<close>: the first error or crash ends the loop.\<close>

fun forM :: "'x list \<Rightarrow> ('x \<Rightarrow> ('s, unit) prog) \<Rightarrow> ('s, unit) prog" where
  "forM [] f = ret ()"
| "forM (x # xs) f = seq (f x) (forM xs f)"

text \<open>A loop whose body may return (or break with) a value: it stops at the first \<open>Some\<close>.\<close>

fun forReturn :: "'x list \<Rightarrow> ('x \<Rightarrow> ('s, 'r option) prog) \<Rightarrow> ('s, 'r option) prog" where
  "forReturn [] f = ret None"
| "forReturn (x # xs) f = bind (f x) (\<lambda>r. case r of Some v \<Rightarrow> ret (Some v) | None \<Rightarrow> forReturn xs f)"

subsection \<open>Weakest preconditions\<close>

definition wp :: "('s, 'a) prog \<Rightarrow> ('a outcome \<Rightarrow> 's \<Rightarrow> bool) \<Rightarrow> 's \<Rightarrow> bool" where
  "wp p Q s = (case p s of (r, s') \<Rightarrow> Q r s')"

lemma wpD: "wp p Q s \<Longrightarrow> p s = (r, s') \<Longrightarrow> Q r s'"
  by (simp add: wp_def)

lemma wpI: "(\<And>r s'. p s = (r, s') \<Longrightarrow> Q r s') \<Longrightarrow> wp p Q s"
  by (cases "p s") (simp add: wp_def)

lemma wp_mono: "wp p Q s \<Longrightarrow> (\<And>r s'. Q r s' \<Longrightarrow> R r s') \<Longrightarrow> wp p R s"
  by (simp add: wp_def split: prod.splits)

lemma wp_conj: "wp p Q s \<Longrightarrow> wp p R s \<Longrightarrow> wp p (\<lambda>r s'. Q r s' \<and> R r s') s"
  by (simp add: wp_def split: prod.splits)

lemma wp_ret [wp_simps]: "wp (ret x) Q s = Q (Ret x) s"
  by (simp add: wp_def ret_def)

lemma wp_fail [wp_simps]: "wp (fail e) Q s = Q (Err e) s"
  by (simp add: wp_def fail_def)

lemma wp_crash [wp_simps]: "wp (crash m) Q s = Q (Crash m) s"
  by (simp add: wp_def crash_def)

lemma wp_gets [wp_simps]: "wp (gets f) Q s = Q (Ret (f s)) s"
  by (simp add: wp_def gets_def)

lemma wp_modify [wp_simps]: "wp (modify f) Q s = Q (Ret ()) (f s)"
  by (simp add: wp_def modify_def)

lemma wp_bind [wp_simps]:
  "wp (bind p f) Q s = wp p (\<lambda>r s'. case r of
     Ret x \<Rightarrow> wp (f x) Q s' | Err e \<Rightarrow> Q (Err e) s' | Crash m \<Rightarrow> Q (Crash m) s') s"
  by (simp add: wp_def bind_def split: prod.splits outcome.splits)

lemma wp_seq [wp_simps]:
  "wp (seq p q) Q s = wp p (\<lambda>r s'. case r of
     Ret x \<Rightarrow> wp q Q s' | Err e \<Rightarrow> Q (Err e) s' | Crash m \<Rightarrow> Q (Crash m) s') s"
  by (simp add: seq_def wp_bind)

lemma wp_attempt [wp_simps]:
  "wp (attempt p) Q s = wp p (\<lambda>r s'. case r of
     Ret x \<Rightarrow> Q (Ret (Inr x)) s' | Err e \<Rightarrow> Q (Ret (Inl e)) s' | Crash m \<Rightarrow> Q (Crash m) s') s"
  by (simp add: wp_def attempt_def split: prod.splits outcome.splits)

lemma wp_rewrap [wp_simps]:
  "wp (rewrap g p) Q s = wp p (\<lambda>r s'. case r of
     Ret x \<Rightarrow> Q (Ret x) s' | Err e \<Rightarrow> Q (Err (g e)) s' | Crash m \<Rightarrow> Q (Crash m) s') s"
  by (simp add: wp_def rewrap_def split: prod.splits outcome.splits)

lemma wp_if [wp_simps]: "wp (if b then p else q) Q s = (if b then wp p Q s else wp q Q s)"
  by simp

text \<open>
  The loop rules: an invariant indexed by what is left of the slice. On an error or a
  crash the loop stops, so the postcondition has to hold there at once.
\<close>

lemma wp_forM:
  assumes step: "\<And>x ys s. \<lbrakk> \<exists>pre. xs = pre @ x # ys; I (x # ys) s \<rbrakk> \<Longrightarrow>
      wp (f x) (\<lambda>r s'. case r of Ret _ \<Rightarrow> I ys s' | Err e \<Rightarrow> Q (Err e) s' | Crash m \<Rightarrow> Q (Crash m) s') s"
    and finish: "\<And>s. I [] s \<Longrightarrow> Q (Ret ()) s"
    and start: "I xs s"
  shows "wp (forM xs f) Q s"
proof -
  have "\<lbrakk> \<exists>pre. xs = pre @ ys; I ys s \<rbrakk> \<Longrightarrow> wp (forM ys f) Q s" for ys s
  proof (induction ys arbitrary: s)
    case Nil
    then show ?case by (simp add: wp_ret finish)
  next
    case (Cons y ys)
    have suffix: "\<exists>pre. xs = pre @ ys"
      using Cons.prems(1) by (metis append.assoc append_Cons append_Nil)
    have "wp (f y) (\<lambda>r s'. case r of Ret _ \<Rightarrow> I ys s' | Err e \<Rightarrow> Q (Err e) s' | Crash m \<Rightarrow> Q (Crash m) s') s"
      by (rule step) (use Cons.prems in auto)
    then show ?case
      unfolding forM.simps wp_seq
      by (rule wp_mono) (auto split: outcome.splits intro: Cons.IH suffix)
  qed
  then show ?thesis using start by blast
qed

lemma wp_forReturn:
  assumes step: "\<And>x ys s. \<lbrakk> \<exists>pre. xs = pre @ x # ys; I (x # ys) s \<rbrakk> \<Longrightarrow>
      wp (f x) (\<lambda>r s'. case r of Ret None \<Rightarrow> I ys s' | Ret (Some v) \<Rightarrow> Q (Ret (Some v)) s'
        | Err e \<Rightarrow> Q (Err e) s' | Crash m \<Rightarrow> Q (Crash m) s') s"
    and finish: "\<And>s. I [] s \<Longrightarrow> Q (Ret None) s"
    and start: "I xs s"
  shows "wp (forReturn xs f) Q s"
proof -
  have "\<lbrakk> \<exists>pre. xs = pre @ ys; I ys s \<rbrakk> \<Longrightarrow> wp (forReturn ys f) Q s" for ys s
  proof (induction ys arbitrary: s)
    case Nil
    then show ?case by (simp add: wp_ret finish)
  next
    case (Cons y ys)
    have suffix: "\<exists>pre. xs = pre @ ys"
      using Cons.prems(1) by (metis append.assoc append_Cons append_Nil)
    have "wp (f y) (\<lambda>r s'. case r of Ret None \<Rightarrow> I ys s' | Ret (Some v) \<Rightarrow> Q (Ret (Some v)) s'
        | Err e \<Rightarrow> Q (Err e) s' | Crash m \<Rightarrow> Q (Crash m) s') s"
      by (rule step) (use Cons.prems in auto)
    then show ?case
      unfolding forReturn.simps wp_bind
      by (rule wp_mono) (auto split: outcome.splits option.splits simp: wp_ret intro: Cons.IH suffix)
  qed
  then show ?thesis using start by blast
qed

text \<open>\<open>returns p P\<close>: every value that \<open>p\<close> returns satisfies \<open>P\<close>, from any state.\<close>

definition returns :: "('s, 'a) prog \<Rightarrow> ('a \<Rightarrow> bool) \<Rightarrow> bool" where
  "returns p P \<longleftrightarrow> (\<forall>s. wp p (\<lambda>r _. case r of Ret x \<Rightarrow> P x | _ \<Rightarrow> True) s)"

lemma returnsI: "(\<And>s x s'. p s = (Ret x, s') \<Longrightarrow> P x) \<Longrightarrow> returns p P"
  by (auto simp: returns_def intro!: wpI split: outcome.split)

lemma returnsD: "returns p P \<Longrightarrow> p s = (Ret x, s') \<Longrightarrow> P x"
  unfolding returns_def by (drule spec [of _ s], drule wpD, assumption) simp

lemma returns_pure: "P x \<Longrightarrow> returns (ret x) P" "returns (fail e) P" "returns (crash m) P"
  by (simp_all add: returns_def wp_simps)

lemma returns_bind: "(\<And>x. returns (f x) P) \<Longrightarrow> returns (bind p f) P"
  by (rule returnsI) (auto simp: bind_def split: prod.splits outcome.splits dest: returnsD)

lemma returns_seq: "returns q P \<Longrightarrow> returns (seq p q) P"
  unfolding seq_def by (rule returns_bind)

subsection \<open>What a program never undoes\<close>

text \<open>
  \<open>keeps R p\<close>: whatever the outcome, the state that \<open>p\<close> leaves is related to the one it started in.
  For a preorder the property composes, so it is proved for a handler by its shape.
\<close>

named_theorems keeps_intros \<open>rules that split a program into its parts\<close>

definition keeps :: "('s \<Rightarrow> 's \<Rightarrow> bool) \<Rightarrow> ('s, 'a) prog \<Rightarrow> bool" where
  "keeps R p \<longleftrightarrow> (\<forall>s. wp p (\<lambda>_ s'. R s s') s)"

lemma keepsD: "keeps R p \<Longrightarrow> p s = (r, s') \<Longrightarrow> R s s'"
  by (auto simp: keeps_def dest: wpD)

lemma keepsI: "(\<And>s r s'. p s = (r, s') \<Longrightarrow> R s s') \<Longrightarrow> keeps R p"
  by (auto simp: keeps_def intro: wpI)

locale state_preorder =
  fixes R :: "'s \<Rightarrow> 's \<Rightarrow> bool"
  assumes kept_refl: "R s s"
    and kept_trans: "R s t \<Longrightarrow> R t u \<Longrightarrow> R s u"
begin

lemma keeps_pure [keeps_intros]: "keeps R (ret x)" "keeps R (fail e)" "keeps R (crash m)" "keeps R (gets f)"
  by (simp_all add: keeps_def wp_simps kept_refl)

lemma keeps_bind [keeps_intros]:
  assumes p: "keeps R p" and f: "\<And>x. keeps R (f x)"
  shows "keeps R (bind p f)"
  unfolding keeps_def
proof
  fix s
  have "R s s' \<Longrightarrow> wp (f x) (\<lambda>_. R s) s'" for x s'
    using f [of x] by (auto simp: keeps_def intro: wp_mono kept_trans)
  moreover have "wp p (\<lambda>_. R s) s" using p by (simp add: keeps_def)
  ultimately show "wp (bind p f) (\<lambda>_. R s) s"
    unfolding wp_bind by (auto elim!: wp_mono split: outcome.split)
qed

lemma keeps_seq [keeps_intros]: "keeps R p \<Longrightarrow> keeps R q \<Longrightarrow> keeps R (seq p q)"
  unfolding seq_def by (rule keeps_bind)

lemma keeps_attempt [keeps_intros]: "keeps R p \<Longrightarrow> keeps R (attempt p)"
  unfolding keeps_def wp_simps by (intro allI, erule allE, erule wp_mono) (simp split: outcome.split)

lemma keeps_rewrap [keeps_intros]: "keeps R p \<Longrightarrow> keeps R (rewrap g p)"
  unfolding keeps_def wp_simps by (intro allI, erule allE, erule wp_mono) (simp split: outcome.split)

lemma keeps_forM [keeps_intros]: "(\<And>x. x \<in> set xs \<Longrightarrow> keeps R (f x)) \<Longrightarrow> keeps R (forM xs f)"
  by (induction xs) (simp_all add: keeps_pure keeps_seq)

lemma keeps_forReturn [keeps_intros]: "(\<And>x. x \<in> set xs \<Longrightarrow> keeps R (f x)) \<Longrightarrow> keeps R (forReturn xs f)"
  by (induction xs) (auto simp: keeps_pure intro!: keeps_bind split: option.split)

lemma keeps_modify: "(\<And>s. R s (f s)) \<Longrightarrow> keeps R (modify f)"
  by (simp add: keeps_def wp_modify)

end

section \<open>Iteration over maps\<close>

text \<open>
  Go does not fix the order in which \<open>range\<close> visits a map. A code, a list of naturals,
  selects one of the entries that are left at each step, so every code gives a permutation of
  the entries and every permutation has a code; statements hold for all codes.
\<close>

fun go_range :: "nat list \<Rightarrow> 'a list \<Rightarrow> 'a list" where
  "go_range c [] = []"
| "go_range [] (x # xs) = x # xs"
| "go_range (c # cs) (x # xs) =
     (let ys = x # xs; i = c mod length ys in ys ! i # go_range cs (take i ys @ drop (Suc i) ys))"

lemma mset_remove_nth: "i < length ys \<Longrightarrow> add_mset (ys ! i) (mset (take i ys @ drop (Suc i) ys)) = mset ys"
proof -
  assume i: "i < length ys"
  have "ys = take i ys @ ys ! i # drop (Suc i) ys"
    using i by (rule id_take_nth_drop)
  then have "mset ys = mset (take i ys @ ys ! i # drop (Suc i) ys)"
    by (rule arg_cong)
  then show ?thesis by simp
qed

lemma mset_go_range [simp]: "mset (go_range c xs) = mset xs"
proof (induction c xs rule: go_range.induct)
  case (3 c cs x xs)
  let ?ys = "x # xs"
  let ?i = "c mod length ?ys"
  have i: "?i < length ?ys" by simp
  have IH: "mset (go_range cs (take ?i ?ys @ drop (Suc ?i) ?ys)) = mset (take ?i ?ys @ drop (Suc ?i) ?ys)"
    by (rule 3) simp_all
  have "mset (go_range (c # cs) ?ys) = add_mset (?ys ! ?i) (mset (take ?i ?ys @ drop (Suc ?i) ?ys))"
    by (simp only: go_range.simps Let_def mset.simps IH)
  also have "\<dots> = mset ?ys" by (rule mset_remove_nth [OF i])
  finally show ?case .
qed simp_all

lemma set_go_range [simp]: "set (go_range c xs) = set xs"
  by (metis mset_go_range set_mset_mset)

lemma length_go_range [simp]: "length (go_range c xs) = length xs"
  by (metis mset_go_range size_mset)

lemma go_range_Nil_iff [simp]: "go_range c xs = [] \<longleftrightarrow> xs = []"
  by (metis length_0_conv length_go_range)

lemma distinct_map_go_range [simp]: "distinct (map f (go_range c xs)) \<longleftrightarrow> distinct (map f xs)"
proof -
  have "mset (map f (go_range c xs)) = mset (map f xs)" by (simp del: map_map)
  then show ?thesis by (metis distinct_count_atmost_1 set_mset_mset)
qed

text \<open>The codes reach every order: a list can be visited in the order of any permutation of it.\<close>

lemma go_range_complete: "mset ys = mset xs \<Longrightarrow> \<exists>c. go_range c xs = ys"
proof (induction ys arbitrary: xs)
  case Nil
  then show ?case by (intro exI [of _ "[]"]) simp
next
  case (Cons y ys)
  have "y \<in> set xs" using Cons.prems by (metis list.set_intros(1) mset_eq_setD)
  then obtain i where i: "i < length xs" "xs ! i = y" by (auto simp: in_set_conv_nth)
  have "mset ys = mset (take i xs @ drop (Suc i) xs)"
    using mset_remove_nth [OF i(1)] Cons.prems i(2) by (metis add_mset_add_mset_same_iff mset.simps(2))
  from Cons.IH [OF this] obtain c where c: "go_range c (take i xs @ drop (Suc i) xs) = ys" ..
  from i(1) obtain x xs' where xs: "xs = x # xs'" by (cases xs) auto
  have "go_range (i # c) xs = y # ys"
    using i c by (simp add: xs Let_def)
  then show ?case ..
qed

section \<open>Association lists as maps\<close>

definition put :: "'k \<Rightarrow> 'v \<Rightarrow> ('k \<times> 'v) list \<Rightarrow> ('k \<times> 'v) list" where
  "put k v m = (if k \<in> fst ` set m then map (\<lambda>(k', v'). if k' = k then (k, v) else (k', v')) m
                else m @ [(k, v)])"

lemma map_of_overwrite:
  "map_of (map (\<lambda>(k', v'). if k' = k then (k, v) else (k', v')) m) x =
     (if x = k \<and> k \<in> fst ` set m then Some v else map_of m x)"
proof (induction m)
  case (Cons a m)
  obtain k' v' where a: "a = (k', v')" by (cases a)
  show ?case using Cons.IH by (cases "k' = k"; cases "x = k"; cases "x = k'") (simp_all add: a)
qed simp

lemma map_of_put [simp]: "map_of (put k v m) = (map_of m)(k \<mapsto> v)"
proof (rule ext)
  fix x
  show "map_of (put k v m) x = ((map_of m)(k \<mapsto> v)) x"
  proof (cases "k \<in> fst ` set m")
    case True
    then show ?thesis by (simp only: put_def if_True map_of_overwrite) simp
  next
    case False
    then have "map_of m k = None" by (simp add: map_of_eq_None_iff)
    with False show ?thesis by (simp add: put_def map_add_def split: option.splits)
  qed
qed

lemma keys_put [simp]: "fst ` set (put k v m) = insert k (fst ` set m)"
  by (force simp: put_def)

lemma distinct_put [simp]: "distinct (map fst m) \<Longrightarrow> distinct (map fst (put k v m))"
proof (cases "k \<in> fst ` set m")
  case True
  have "map fst (map (\<lambda>(k', v'). if k' = k then (k, v) else (k', v')) m) = map fst m"
    by (induction m) auto
  with True show "distinct (map fst m) \<Longrightarrow> ?thesis" by (simp add: put_def del: map_map)
next
  case False
  then show "distinct (map fst m) \<Longrightarrow> ?thesis" by (simp add: put_def)
qed

lemma put_other: "i \<noteq> k \<Longrightarrow> (i, p) \<in> set (put k v m) \<longleftrightarrow> (i, p) \<in> set m"
  by (force simp: put_def)

definition adjust :: "'k \<Rightarrow> ('v \<Rightarrow> 'v) \<Rightarrow> ('k \<times> 'v) list \<Rightarrow> ('k \<times> 'v) list" where
  "adjust k f m = map (\<lambda>(k', v). if k' = k then (k', f v) else (k', v)) m"

lemma map_of_adjust [simp]: "map_of (adjust k f m) = (map_of m)(k := map_option f (map_of m k))"
  unfolding adjust_def by (induction m) (auto simp: fun_eq_iff)

lemma keys_adjust [simp]: "map fst (adjust k f m) = map fst m"
  by (auto simp: adjust_def)

end
