(* ===== verification/GoStrings.thy ===== *)
theory GoStrings
  imports Prelude
begin

text \<open>
  What the sources use of the packages strings, sort and strconv, on byte strings
  (\<open>string\<close>, a list of characters with the byte order of \<open>Char_ord\<close>): prefixes and suffixes,
  \<open>Split\<close> and \<open>Join\<close> at one separator character, \<open>TrimSpace\<close> (ASCII white space), \<open>Index\<close>,
  \<open>sort.Strings\<close> and decimal numbers. The lemmas are the round trips and the
  idempotence facts the components use.
\<close>

section \<open>Prefixes and suffixes\<close>

definition HasPrefix :: "string \<Rightarrow> string \<Rightarrow> bool" where
  "HasPrefix s p \<longleftrightarrow> take (length p) s = p"

definition HasSuffix :: "string \<Rightarrow> string \<Rightarrow> bool" where
  "HasSuffix s p \<longleftrightarrow> length p \<le> length s \<and> drop (length s - length p) s = p"

definition TrimPrefix :: "string \<Rightarrow> string \<Rightarrow> string" where
  "TrimPrefix s p = (if HasPrefix s p then drop (length p) s else s)"

definition TrimSuffix :: "string \<Rightarrow> string \<Rightarrow> string" where
  "TrimSuffix s p = (if HasSuffix s p then take (length s - length p) s else s)"

lemma HasPrefix_iff: "HasPrefix s p \<longleftrightarrow> (\<exists>t. s = p @ t)"
  unfolding HasPrefix_def by (metis append_eq_conv_conj append_take_drop_id)

lemma HasPrefix_append [simp]: "HasPrefix (p @ t) p"
  by (simp add: HasPrefix_def)

lemma HasPrefix_Nil [simp]: "HasPrefix s []"
  by (simp add: HasPrefix_def)

lemma TrimPrefix_append [simp]: "TrimPrefix (p @ t) p = t"
  by (simp add: TrimPrefix_def)

lemma HasPrefix_TrimPrefix: "HasPrefix s p \<Longrightarrow> p @ TrimPrefix s p = s"
  by (auto simp: HasPrefix_iff TrimPrefix_def)

lemma HasSuffix_iff: "HasSuffix s p \<longleftrightarrow> (\<exists>t. s = t @ p)"
proof
  assume "HasSuffix s p"
  then have "s = take (length s - length p) s @ p"
    by (metis HasSuffix_def append_take_drop_id)
  then show "\<exists>t. s = t @ p" ..
qed (auto simp: HasSuffix_def)

lemma HasSuffix_append [simp]: "HasSuffix (t @ p) p"
  by (auto simp: HasSuffix_iff)

lemma TrimSuffix_append [simp]: "TrimSuffix (t @ p) p = t"
  by (simp add: TrimSuffix_def)

section \<open>Splitting and joining at a character\<close>

fun Split :: "char \<Rightarrow> string \<Rightarrow> string list" where
  "Split c [] = [[]]"
| "Split c (x # xs) =
     (if x = c then [] # Split c xs
      else (case Split c xs of [] \<Rightarrow> [[x]] | w # ws \<Rightarrow> (x # w) # ws))"

fun Join :: "string \<Rightarrow> string list \<Rightarrow> string" where
  "Join sep [] = []"
| "Join sep [w] = w"
| "Join sep (w # v # ws) = w @ sep @ Join sep (v # ws)"

lemma Split_not_Nil [simp]: "Split c s \<noteq> []"
  by (cases s) (auto split: list.splits)

lemma Join_Cons: "ws \<noteq> [] \<Longrightarrow> Join sep (w # ws) = w @ sep @ Join sep ws"
  by (cases ws) auto

lemma Join_Split [simp]: "Join [c] (Split c s) = s"
proof (induction s)
  case (Cons x s)
  show ?case
  proof (cases "x = c")
    case True
    then show ?thesis using Cons by (simp add: Join_Cons)
  next
    case False
    obtain w ws where sp: "Split c s = w # ws"
      by (cases "Split c s") auto
    have "Join [c] ((x # w) # ws) = x # Join [c] (w # ws)"
      by (cases ws) auto
    with False Cons sp show ?thesis by simp
  qed
qed simp

lemma Split_no_sep: "c \<notin> set w \<Longrightarrow> Split c w = [w]"
  by (induction w) auto

lemma Split_append_sep: "c \<notin> set w \<Longrightarrow> Split c (w @ c # s) = w # Split c s"
  by (induction w) auto

lemma Split_Join: "ws \<noteq> [] \<Longrightarrow> \<forall>w \<in> set ws. c \<notin> set w \<Longrightarrow> Split c (Join [c] ws) = ws"
  by (induction ws rule: induct_list012) (auto simp: Split_no_sep Split_append_sep)

lemma Split_parts: "w \<in> set (Split c s) \<Longrightarrow> c \<notin> set w"
  by (induction s arbitrary: w) (auto split: if_splits list.splits)

lemma Join_append:
  "xs \<noteq> [] \<Longrightarrow> ys \<noteq> [] \<Longrightarrow> Join sep (xs @ ys) = Join sep xs @ sep @ Join sep ys"
  by (induction xs rule: induct_list012) (auto simp: Join_Cons)

text \<open>\<open>strings.SplitN(s, c, 2)\<close>: cut at the first separator only.\<close>

fun Cut :: "char \<Rightarrow> string \<Rightarrow> string \<times> string option" where
  "Cut c [] = ([], None)"
| "Cut c (x # xs) =
     (if x = c then ([], Some xs) else (case Cut c xs of (k, v) \<Rightarrow> (x # k, v)))"

lemma Cut_append: "c \<notin> set k \<Longrightarrow> Cut c (k @ c # v) = (k, Some v)"
  by (induction k) auto

lemma Cut_no_sep: "c \<notin> set k \<Longrightarrow> Cut c k = (k, None)"
  by (induction k) auto

section \<open>White space, search, replacement\<close>

definition isSpace :: "char \<Rightarrow> bool" where
  "isSpace c \<longleftrightarrow> c \<in> {CHR 0x09, CHR 0x0A, CHR 0x0B, CHR 0x0C, CHR 0x0D, CHR 0x20}"

definition TrimSpace :: "string \<Rightarrow> string" where
  "TrimSpace s = rev (dropWhile isSpace (rev (dropWhile isSpace s)))"

lemma dropWhile_id: "(case xs of [] \<Rightarrow> True | x # _ \<Rightarrow> \<not> P x) \<Longrightarrow> dropWhile P xs = xs"
  by (cases xs) auto

lemma TrimSpace_id:
  assumes "s = [] \<or> \<not> isSpace (hd s) \<and> \<not> isSpace (last s)"
  shows "TrimSpace s = s"
proof (cases "s = []")
  case False
  with assms have h: "\<not> isSpace (hd s)" and l: "\<not> isSpace (hd (rev s))"
    by (simp_all add: hd_rev)
  from False h have "dropWhile isSpace s = s"
    by (cases s) auto
  moreover from False l have "dropWhile isSpace (rev s) = rev s"
    by (cases "rev s") auto
  ultimately show ?thesis by (simp add: TrimSpace_def)
qed (simp add: TrimSpace_def)

lemma TrimSpace_idem [simp]: "TrimSpace (TrimSpace s) = TrimSpace s"
proof (rule TrimSpace_id)
  let ?t = "dropWhile isSpace s"
  have h: "?t \<noteq> [] \<Longrightarrow> \<not> isSpace (hd ?t)" by (rule hd_dropWhile)
  show "TrimSpace s = [] \<or> \<not> isSpace (hd (TrimSpace s)) \<and> \<not> isSpace (last (TrimSpace s))"
  proof (cases "TrimSpace s = []")
    case False
    then have ne: "dropWhile isSpace (rev ?t) \<noteq> []" by (simp add: TrimSpace_def)
    then have "\<not> isSpace (hd (dropWhile isSpace (rev ?t)))" by (rule hd_dropWhile)
    then have l: "\<not> isSpace (last (TrimSpace s))" by (simp add: TrimSpace_def last_rev)
    have tne: "?t \<noteq> []" using ne by (metis dropWhile.simps(1) rev.simps(1))
    have "rev (dropWhile isSpace (rev ?t)) @ rev (takeWhile isSpace (rev ?t)) = ?t"
      by (metis rev_append rev_rev_ident takeWhile_dropWhile_id)
    then have "hd (TrimSpace s) = hd ?t"
      using False by (metis TrimSpace_def hd_append2)
    with h tne l show ?thesis by simp
  qed simp
qed

text \<open>\<open>strings.Index\<close>: the first position of a substring, \<open>None\<close> for -1.\<close>

fun Index :: "string \<Rightarrow> string \<Rightarrow> nat option" where
  "Index [] p = (if p = [] then Some 0 else None)"
| "Index (x # xs) p = (if HasPrefix (x # xs) p then Some 0 else map_option Suc (Index xs p))"

lemma Index_SomeD: "Index s p = Some i \<Longrightarrow> i + length p \<le> length s \<and> take (length p) (drop i s) = p"
proof (induction s arbitrary: i)
  case (Cons x xs)
  show ?case
  proof (cases "HasPrefix (x # xs) p")
    case True
    then obtain t where "x # xs = p @ t" by (auto simp: HasPrefix_iff)
    then have "length p \<le> length (x # xs)" by (metis length_append le_add1)
    with True Cons.prems show ?thesis by (simp add: HasPrefix_def)
  next
    case False
    with Cons show ?thesis by auto
  qed
qed (auto split: if_splits)

section \<open>sort.Strings\<close>

text \<open>The order on strings is the byte-wise lexicographic one of Go.\<close>

definition sortStrings :: "string list \<Rightarrow> string list" where
  "sortStrings xs = sort xs"

lemma sorted_sortStrings [simp]: "sorted (sortStrings xs)"
  by (simp add: sortStrings_def)

lemma mset_sortStrings [simp]: "mset (sortStrings xs) = mset xs"
  by (simp add: sortStrings_def)

lemma set_sortStrings [simp]: "set (sortStrings xs) = set xs"
  by (simp add: sortStrings_def)

lemma sortStrings_eq_iff: "sortStrings xs = sortStrings ys \<longleftrightarrow> mset xs = mset ys"
  by (metis mset_sortStrings properties_for_sort sorted_sortStrings sortStrings_def)

section \<open>Decimal numbers\<close>

definition isDigit :: "char \<Rightarrow> bool" where
  "isDigit c \<longleftrightarrow> 48 \<le> (of_char c :: nat) \<and> (of_char c :: nat) \<le> 57"

definition digitVal :: "char \<Rightarrow> nat" where
  "digitVal c = of_char c - 48"

fun decimalAcc :: "nat \<Rightarrow> string \<Rightarrow> nat" where
  "decimalAcc n [] = n"
| "decimalAcc n (c # cs) = decimalAcc (10 * n + digitVal c) cs"

text \<open>\<open>strconv.ParseUint(s, 10, 64)\<close>: one or more digits, at most \<open>2^64 - 1\<close>.\<close>

definition ParseUint :: "string \<Rightarrow> nat option" where
  "ParseUint s = (if s \<noteq> [] \<and> list_all isDigit s \<and> int (decimalAcc 0 s) < 2 ^ 64
                  then Some (decimalAcc 0 s) else None)"

text \<open>\<open>strconv.Atoi\<close>: an optional sign and digits, in the range of \<open>int64\<close>.\<close>

definition Atoi :: "string \<Rightarrow> int option" where
  "Atoi s =
     (let (neg, ds) = (case s of [] \<Rightarrow> (False, [])
        | c # cs \<Rightarrow> if c = CHR ''-'' then (True, cs) else if c = CHR ''+'' then (False, cs) else (False, s));
          v = int (decimalAcc 0 ds)
      in if ds = [] \<or> \<not> list_all isDigit ds then None
         else if neg then (if v \<le> 2 ^ 63 then Some (- v) else None)
         else (if v < 2 ^ 63 then Some v else None))"

text \<open>\<open>strconv.FormatUint\<close> and the verb \<open>%d\<close> on a non-negative number.\<close>

definition digitChar :: "nat \<Rightarrow> char" where
  "digitChar d = char_of (48 + d)"

fun FormatUint :: "nat \<Rightarrow> string" where
  "FormatUint n = (if n < 10 then [digitChar n] else FormatUint (n div 10) @ [digitChar (n mod 10)])"

declare FormatUint.simps [simp del]

lemma digitVal_digitChar: "d < 10 \<Longrightarrow> digitVal (digitChar d) = d"
  by (simp add: digitVal_def digitChar_def)

lemma isDigit_digitChar: "d < 10 \<Longrightarrow> isDigit (digitChar d)"
  by (simp add: isDigit_def digitChar_def)

lemma decimalAcc_append: "decimalAcc n (xs @ ys) = decimalAcc (decimalAcc n xs) ys"
  by (induction xs arbitrary: n) auto

lemma decimalAcc_FormatUint [simp]: "decimalAcc 0 (FormatUint n) = n"
proof (induction n rule: FormatUint.induct)
  case (1 n)
  show ?case
  proof (cases "n < 10")
    case True
    then show ?thesis by (subst FormatUint.simps) (simp add: digitVal_digitChar)
  next
    case False
    then have "decimalAcc 0 (FormatUint (n div 10)) = n div 10" by (rule 1)
    with False show ?thesis
      by (subst FormatUint.simps) (simp add: decimalAcc_append digitVal_digitChar)
  qed
qed

lemma FormatUint_inject [simp]: "FormatUint m = FormatUint n \<longleftrightarrow> m = n"
  by (metis decimalAcc_FormatUint)

lemma FormatUint_digits: "list_all isDigit (FormatUint n)"
proof (induction n rule: FormatUint.induct)
  case (1 n)
  then show ?case
    by (cases "n < 10"; subst FormatUint.simps) (simp_all add: isDigit_digitChar)
qed

lemma FormatUint_not_Nil [simp]: "FormatUint n \<noteq> []"
  by (subst FormatUint.simps) simp

lemma FormatUint_no_char: "\<not> isDigit c \<Longrightarrow> c \<notin> set (FormatUint n)"
  using FormatUint_digits by (auto simp: list_all_iff)

lemma ParseUint_FormatUint: "n < 2 ^ 64 \<Longrightarrow> ParseUint (FormatUint n) = Some n"
  by (simp add: ParseUint_def FormatUint_digits)

lemma ParseUint_bound: "ParseUint s = Some n \<Longrightarrow> n < 2 ^ 64"
  by (auto simp: ParseUint_def split: if_splits)

lemma Atoi_bounds: "Atoi s = Some n \<Longrightarrow> - (2 ^ 63) \<le> n \<and> n < 2 ^ 63"
  by (auto simp: Atoi_def Let_def split: if_splits list.splits prod.splits)

definition Itoa :: "int \<Rightarrow> string" where
  "Itoa n = (if n < 0 then CHR ''-'' # FormatUint (nat (- n)) else FormatUint (nat n))"

definition JoinHostPort :: "string \<Rightarrow> string \<Rightarrow> string" where
  "JoinHostPort host port =
     (if CHR '':'' \<in> set host then ''['' @ host @ '']'' else host) @ '':'' @ port"

text \<open>\<open>net.SplitHostPort\<close>: the host and the port around the last colon, brackets around an IPv6 host.\<close>

fun LastIndexByte :: "char \<Rightarrow> string \<Rightarrow> nat option" where
  "LastIndexByte c [] = None"
| "LastIndexByte c (x # xs) =
     (case LastIndexByte c xs of Some i \<Rightarrow> Some (Suc i) | None \<Rightarrow> if x = c then Some 0 else None)"

definition SplitHostPort :: "string \<Rightarrow> (string \<times> string) option" where
  "SplitHostPort hostport =
     (case LastIndexByte (CHR '':'') hostport of
        None \<Rightarrow> None
      | Some i \<Rightarrow>
          if HasPrefix hostport ''['' then
            (case Index hostport '']'' of
               None \<Rightarrow> None
             | Some e \<Rightarrow>
                 if e + 1 \<noteq> i then None
                 else if CHR ''['' \<in> set (drop 1 hostport) \<or> CHR '']'' \<in> set (drop (e + 1) hostport) then None
                 else Some (take (e - 1) (drop 1 hostport), drop (i + 1) hostport))
          else
            (let host = take i hostport in
             if CHR '':'' \<in> set host \<or> CHR ''['' \<in> set hostport \<or> CHR '']'' \<in> set hostport then None
             else Some (host, drop (i + 1) hostport)))"

lemma LastIndexByte_append: "c \<notin> set s \<Longrightarrow> LastIndexByte c (t @ c # s) = Some (length t)"
proof -
  assume c: "c \<notin> set s"
  then have "LastIndexByte c s = None" by (induction s) auto
  then show ?thesis by (induction t) auto
qed

lemma SplitHostPort_Join:
  assumes "set port \<inter> {CHR '':'', CHR ''['', CHR '']''} = {}" and "set host \<inter> {CHR ''['', CHR '']''} = {}"
  shows "SplitHostPort (JoinHostPort host port) = Some (host, port)"
proof -
  have idx: "Index (h @ CHR '']'' # s) '']'' = Some (length h)" if "CHR '']'' \<notin> set h" for h s
    using that by (induction h) (auto simp: HasPrefix_def)
  show ?thesis
  proof (cases "CHR '':'' \<in> set host")
    case True
    then have "JoinHostPort host port = (CHR ''['' # host @ '']'') @ CHR '':'' # port" by (simp add: JoinHostPort_def)
    moreover have "Index ((CHR ''['' # host @ '']'') @ CHR '':'' # port) '']'' = Some (Suc (length host))"
      using idx [of "CHR ''['' # host"] assms(2) by simp
    ultimately show ?thesis
      using assms LastIndexByte_append [of "CHR '':''" port "CHR ''['' # host @ '']''"]
      by (auto simp: SplitHostPort_def HasPrefix_def)
  next
    case False
    then have "JoinHostPort host port = host @ CHR '':'' # port" by (simp add: JoinHostPort_def)
    moreover have "\<not> HasPrefix (host @ CHR '':'' # port) ''[''" using assms(2) by (cases host) (auto simp: HasPrefix_def)
    ultimately show ?thesis
      using assms False LastIndexByte_append [of "CHR '':''" port host] by (auto simp: SplitHostPort_def)
  qed
qed

end
