(* ===== verification/GoTime.thy ===== *)
theory GoTime
  imports Prelude
begin

text \<open>
  What the sources use of package time. An instant is an integer number of nanoseconds
  since the zero time (January 1 of year 1), so the zero value of \<open>time.Time\<close> is 0; a
  duration is an \<open>int64\<close> number of nanoseconds. \<open>Sub\<close> saturates at the range of \<open>int64\<close>, as
  Go documents, and a product of durations wraps around.
\<close>

type_synonym time = int
type_synonym duration = int

definition maxDuration :: duration where
  "maxDuration = 2 ^ 63 - 1"

definition minDuration :: duration where
  "minDuration = - (2 ^ 63)"

definition wrap64 :: "int \<Rightarrow> int" where
  "wrap64 x = (x + 2 ^ 63) mod 2 ^ 64 - 2 ^ 63"

definition Second :: duration where "Second = 1000000000"
definition Minute :: duration where "Minute = 60 * 1000000000"
definition Hour :: duration where "Hour = 3600 * 1000000000"

lemmas duration_defs = Second_def Minute_def Hour_def maxDuration_def minDuration_def

text \<open>\<open>t.Sub(u)\<close>, \<open>t.Add(d)\<close>, \<open>t.After(u)\<close>, \<open>t.Before(u)\<close>, \<open>t.IsZero()\<close>, \<open>t.Truncate(d)\<close>.\<close>

definition timeSub :: "time \<Rightarrow> time \<Rightarrow> duration" where
  "timeSub t u = max minDuration (min maxDuration (t - u))"

definition timeAdd :: "time \<Rightarrow> duration \<Rightarrow> time" where
  "timeAdd t d = t + d"

definition timeAfter :: "time \<Rightarrow> time \<Rightarrow> bool" where
  "timeAfter t u \<longleftrightarrow> u < t"

definition timeBefore :: "time \<Rightarrow> time \<Rightarrow> bool" where
  "timeBefore t u \<longleftrightarrow> t < u"

definition timeIsZero :: "time \<Rightarrow> bool" where
  "timeIsZero t \<longleftrightarrow> t = 0"

definition timeTruncate :: "time \<Rightarrow> duration \<Rightarrow> time" where
  "timeTruncate t d = (if d \<le> 0 then t else t - t mod d)"

lemmas time_defs = timeAdd_def timeAfter_def timeBefore_def timeIsZero_def

lemma wrap64_id: "- (2 ^ 63) \<le> x \<Longrightarrow> x < 2 ^ 63 \<Longrightarrow> wrap64 x = x"
  by (simp add: wrap64_def)

lemma wrap64_range: "- (2 ^ 63) \<le> wrap64 x \<and> wrap64 x < 2 ^ 63"
proof -
  have "0 \<le> (x + 2 ^ 63) mod 2 ^ 64" "(x + 2 ^ 63) mod 2 ^ 64 < (2 ^ 64 :: int)"
    by simp_all
  then show ?thesis by (simp add: wrap64_def)
qed

lemma timeSub_range: "minDuration \<le> timeSub t u \<and> timeSub t u \<le> maxDuration"
  by (simp add: timeSub_def minDuration_def maxDuration_def)

lemma timeSub_less_iff: "minDuration < d \<Longrightarrow> d \<le> maxDuration \<Longrightarrow> timeSub t u < d \<longleftrightarrow> t - u < d"
  unfolding timeSub_def by linarith

lemma timeSub_gr_iff: "minDuration \<le> d \<Longrightarrow> d < maxDuration \<Longrightarrow> d < timeSub t u \<longleftrightarrow> d < t - u"
  unfolding timeSub_def by linarith

lemma timeSub_mono: "u \<le> u' \<Longrightarrow> timeSub t u' \<le> timeSub t u"
  unfolding timeSub_def by linarith

lemma timeTruncate_le: "timeTruncate t d \<le> t"
proof (cases "d \<le> 0")
  case False
  then have "0 \<le> t mod d" by simp
  with False show ?thesis by (simp add: timeTruncate_def)
qed (simp add: timeTruncate_def)

lemma timeTruncate_gt: "0 < d \<Longrightarrow> t < timeTruncate t d + d"
proof -
  assume d: "0 < d"
  then have "t mod d < d" by simp
  with d show ?thesis by (simp add: timeTruncate_def)
qed

lemma timeTruncate_same_bucket:
  assumes "0 < d" and "timeTruncate t d = timeTruncate u d"
  shows "\<bar>t - u\<bar> < d"
  using timeTruncate_le [of t d] timeTruncate_le [of u d]
    timeTruncate_gt [OF assms(1), of t] timeTruncate_gt [OF assms(1), of u] assms(2)
  by linarith

end
