(* ===== verification/Versions.thy ===== *)
theory Versions
  imports GoStrings "HOL-Library.Word"
begin

text \<open>
  The version rules of etcd-manager (package etcdversions): which upgrades may be done in
  place, and which etcd version adopts or restores the data of another one. Versions are
  parsed by the vendored \<open>semver.ParseTolerant\<close>, modelled here; its numbers are 64-bit
  unsigned, so they are kept as words and the difference of two minor numbers can wrap.
\<close>

section \<open>Semantic versions\<close>

record semver =
  Major :: "64 word"
  Minor :: "64 word"
  Patch :: "64 word"

definition SplitN3 :: "char \<Rightarrow> string \<Rightarrow> string list" where
  "SplitN3 c s = (case Cut c s of
     (a, None) \<Rightarrow> [a]
   | (a, Some r) \<Rightarrow> (case Cut c r of (b, None) \<Rightarrow> [a, b] | (b, Some p) \<Rightarrow> [a, b, p]))"

definition alphanum :: "char \<Rightarrow> bool" where
  "alphanum c \<longleftrightarrow> isDigit c \<or> c = CHR ''-'' \<or>
     65 \<le> (of_char c :: nat) \<and> (of_char c :: nat) \<le> 90 \<or> 97 \<le> (of_char c :: nat) \<and> (of_char c :: nat) \<le> 122"

definition hasLeadingZeroes :: "string \<Rightarrow> bool" where
  "hasLeadingZeroes s \<longleftrightarrow> length s > 1 \<and> hd s = CHR ''0''"

text \<open>A numeric part: only digits, no leading zero, accepted by \<open>strconv.ParseUint\<close>.\<close>

definition parseNumber :: "string \<Rightarrow> 64 word option" where
  "parseNumber s =
     (if \<not> list_all isDigit s then None
      else if hasLeadingZeroes s then None
      else map_option of_nat (ParseUint s))"

definition NewPRVersion :: "string \<Rightarrow> bool" where
  "NewPRVersion s \<longleftrightarrow> s \<noteq> [] \<and>
     (if list_all isDigit s then \<not> hasLeadingZeroes s \<and> ParseUint s \<noteq> None else list_all alphanum s)"

definition semverParse :: "string \<Rightarrow> semver option" where
  "semverParse s =
     (if s = [] then None
      else (case SplitN3 CHR ''.'' s of
        [majorStr, minorStr, rest] \<Rightarrow>
          (case (parseNumber majorStr, parseNumber minorStr) of
             (Some major, Some minor) \<Rightarrow>
               (let (patchStr, build) = (case Cut CHR ''+'' rest of
                        (p, None) \<Rightarrow> (p, []) | (p, Some b) \<Rightarrow> (p, Split CHR ''.'' b));
                    (patchStr, prerelease) = (case Cut CHR ''-'' patchStr of
                        (p, None) \<Rightarrow> (p, []) | (p, Some b) \<Rightarrow> (p, Split CHR ''.'' b))
                in (case parseNumber patchStr of
                      None \<Rightarrow> None
                    | Some patch \<Rightarrow>
                        if \<not> list_all NewPRVersion prerelease then None
                        else if \<not> list_all (\<lambda>b. b \<noteq> [] \<and> list_all alphanum b) build then None
                        else Some \<lparr>Major = major, Minor = minor, Patch = patch\<rparr>))
           | _ \<Rightarrow> None)
      | _ \<Rightarrow> None))"

definition trimLeadingZeroes :: "string \<Rightarrow> string" where
  "trimLeadingZeroes p =
     (if length p > 1 then
        (let q = dropWhile (\<lambda>c. c = CHR ''0'') p
         in if q = [] \<or> \<not> isDigit (hd q) then CHR ''0'' # q else q)
      else p)"

definition ParseTolerant :: "string \<Rightarrow> semver option" where
  "ParseTolerant s =
     (let parts = map trimLeadingZeroes (SplitN3 CHR ''.'' (TrimPrefix (TrimSpace s) ''v''))
      in if length parts < 3 \<and> (CHR ''+'' \<in> set (last parts) \<or> CHR ''-'' \<in> set (last parts)) then None
         else semverParse (Join ''.'' (parts @ replicate (3 - length parts) ''0'')))"

section \<open>The mappings of etcd versions\<close>

definition AllEtcdVersions :: "string list" where
  "AllEtcdVersions =
     [''3.1.12'', ''3.2.18'', ''3.2.24'', ''3.3.10'', ''3.3.13'', ''3.3.17'', ''3.4.3'', ''3.4.13'',
      ''3.5.0'', ''3.5.1'', ''3.5.3'', ''3.5.4'', ''3.5.6'']"

definition LatestEtcdVersions :: "string list" where
  "LatestEtcdVersions = [''3.1.12'', ''3.2.24'', ''3.3.17'', ''3.4.13'', ''3.5.7'']"

definition UpgradeInPlaceSupported :: "string \<Rightarrow> string \<Rightarrow> bool" where
  "UpgradeInPlaceSupported fromVersion toVersion =
     (case ParseTolerant fromVersion of
        None \<Rightarrow> False
      | Some fromSemver \<Rightarrow>
          (case ParseTolerant toVersion of
             None \<Rightarrow> False
           | Some toSemver \<Rightarrow>
               if Major fromSemver = 3 \<and> Major toSemver = 3 then
                 Minor toSemver - Minor fromSemver \<le> 1 \<and> Minor toSemver \<ge> Minor fromSemver
               else False))"

definition family :: "semver \<Rightarrow> string" where
  "family v = FormatUint (unat (Major v)) @ ''.'' @ FormatUint (unat (Minor v))"

definition EtcdVersionForAdoption :: "string \<Rightarrow> string" where
  "EtcdVersionForAdoption fromVersion =
     (case ParseTolerant fromVersion of
        None \<Rightarrow> ''''
      | Some fromSemver \<Rightarrow>
          (let f = family fromSemver in
           if f = ''3.0'' then ''3.1.12''
           else if f = ''3.1'' then ''3.1.12''
           else if f = ''3.2'' then (if Patch fromSemver \<le> 18 then ''3.2.18'' else ''3.2.24'')
           else if f = ''3.3'' then (if Patch fromSemver \<le> 10 then ''3.3.10''
                                    else if Patch fromSemver \<le> 13 then ''3.3.13'' else ''3.3.17'')
           else if f = ''3.4'' then (if Patch fromSemver \<le> 3 then ''3.4.3'' else ''3.4.13'')
           else if f = ''3.5'' then ''3.5.7''
           else ''''))"

definition EtcdVersionForRestore :: "string \<Rightarrow> string" where
  "EtcdVersionForRestore fromVersion =
     (case ParseTolerant fromVersion of
        None \<Rightarrow> ''''
      | Some fromSemver \<Rightarrow>
          (let f = family fromSemver in
           if f = ''3.0'' then ''3.1.12''
           else if f = ''3.1'' then ''3.1.12''
           else if f = ''3.2'' then (if Patch fromSemver \<le> 18 then ''3.2.18'' else ''3.2.24'')
           else if f = ''3.3'' then (if Patch fromSemver \<le> 10 then ''3.3.10''
                                    else if Patch fromSemver \<le> 13 then ''3.3.13'' else ''3.3.17'')
           else if f = ''3.4'' then (if Patch fromSemver \<le> 3 then ''3.4.3'' else ''3.4.13'')
           else if f = ''3.5'' then ''3.5.7''
           else ''''))"

section \<open>Properties\<close>

lemma family_eq: "family v = FormatUint a @ ''.'' @ FormatUint b \<longleftrightarrow> unat (Major v) = a \<and> unat (Minor v) = b"
proof
  assume eq: "family v = FormatUint a @ ''.'' @ FormatUint b"
  have nd: "CHR ''.'' \<notin> set (FormatUint n)" for n
    by (rule FormatUint_no_char) (simp add: isDigit_def)
  have "Cut CHR ''.'' (family v) = Cut CHR ''.'' (FormatUint a @ CHR ''.'' # FormatUint b)"
    using eq by simp
  then show "unat (Major v) = a \<and> unat (Minor v) = b"
    by (simp add: family_def Cut_append [OF nd])
qed (simp add: family_def)

lemma FormatUint_small: "d < 10 \<Longrightarrow> FormatUint d = [digitChar d]"
  by (subst FormatUint.simps) simp

lemma digitChar_literals:
  "digitChar 0 = CHR ''0''" "digitChar (Suc 0) = CHR ''1''" "digitChar 2 = CHR ''2''"
  "digitChar 3 = CHR ''3''" "digitChar 4 = CHR ''4''" "digitChar 5 = CHR ''5''"
  by code_simp+

lemma family_literals:
  "family v = ''3.0'' \<longleftrightarrow> unat (Major v) = 3 \<and> unat (Minor v) = 0"
  "family v = ''3.1'' \<longleftrightarrow> unat (Major v) = 3 \<and> unat (Minor v) = 1"
  "family v = ''3.2'' \<longleftrightarrow> unat (Major v) = 3 \<and> unat (Minor v) = 2"
  "family v = ''3.3'' \<longleftrightarrow> unat (Major v) = 3 \<and> unat (Minor v) = 3"
  "family v = ''3.4'' \<longleftrightarrow> unat (Major v) = 3 \<and> unat (Minor v) = 4"
  "family v = ''3.5'' \<longleftrightarrow> unat (Major v) = 3 \<and> unat (Minor v) = 5"
  using family_eq [of v 3 0] family_eq [of v 3 1] family_eq [of v 3 2]
    family_eq [of v 3 3] family_eq [of v 3 4] family_eq [of v 3 5]
  by (simp_all add: FormatUint_small digitChar_literals)

text \<open>Kernel evaluation of the parser on the version constants.\<close>

lemma parse_constants [simp]:
  "ParseTolerant ''3.1.12'' = Some \<lparr>Major = 3, Minor = 1, Patch = 12\<rparr>"
  "ParseTolerant ''3.2.18'' = Some \<lparr>Major = 3, Minor = 2, Patch = 18\<rparr>"
  "ParseTolerant ''3.2.24'' = Some \<lparr>Major = 3, Minor = 2, Patch = 24\<rparr>"
  "ParseTolerant ''3.3.10'' = Some \<lparr>Major = 3, Minor = 3, Patch = 10\<rparr>"
  "ParseTolerant ''3.3.13'' = Some \<lparr>Major = 3, Minor = 3, Patch = 13\<rparr>"
  "ParseTolerant ''3.3.17'' = Some \<lparr>Major = 3, Minor = 3, Patch = 17\<rparr>"
  "ParseTolerant ''3.4.3'' = Some \<lparr>Major = 3, Minor = 4, Patch = 3\<rparr>"
  "ParseTolerant ''3.4.13'' = Some \<lparr>Major = 3, Minor = 4, Patch = 13\<rparr>"
  "ParseTolerant ''3.5.7'' = Some \<lparr>Major = 3, Minor = 5, Patch = 7\<rparr>"
  "ParseTolerant '''' = None"
  by code_simp+

lemma minor_step_iff:
  fixes a b :: "64 word"
  shows "b - a \<le> 1 \<and> a \<le> b \<longleftrightarrow> unat b = unat a \<or> unat b = Suc (unat a)"
proof (cases "a \<le> b")
  case True
  then have "unat (b - a) = unat b - unat a" by (rule unat_sub)
  with True show ?thesis by (auto simp: word_le_nat_alt)
next
  case False
  then show ?thesis by (simp add: word_le_nat_alt)
qed

lemma restore_eq_adoption: "EtcdVersionForRestore v = EtcdVersionForAdoption v"
  by (simp add: EtcdVersionForRestore_def EtcdVersionForAdoption_def)

text \<open>
  A version is mapped only when its major number is 3 and its minor number at most 5, and
  the result keeps the minor number, except that the data of 3.0 goes to 3.1.
\<close>

lemma restore_known:
  assumes "EtcdVersionForRestore v \<noteq> ''''"
  obtains a where "ParseTolerant v = Some a" and "Major a = 3"
    and "unat (Minor a) \<in> {0, 1, 2, 3, 4, 5}"
proof -
  from assms obtain a where a: "ParseTolerant v = Some a"
    by (auto simp: EtcdVersionForRestore_def split: option.splits)
  with assms have m: "unat (Major a) = 3" and n: "unat (Minor a) \<in> {0, 1, 2, 3, 4, 5}"
    by (auto simp: EtcdVersionForRestore_def Let_def family_literals split: if_splits)
  from m have "Major a = 3" by (simp add: word_unat_eq_iff)
  with a n that show thesis by blast
qed

lemma restore_minor:
  assumes "ParseTolerant v = Some a" and "Major a = 3" and "unat (Minor a) \<in> {0, 1, 2, 3, 4, 5}"
  shows "\<exists>b. ParseTolerant (EtcdVersionForRestore v) = Some b \<and> Major b = 3 \<and>
    unat (Minor b) = (if unat (Minor a) = 0 then 1 else unat (Minor a))"
  using assms by (auto simp: EtcdVersionForRestore_def Let_def family_literals)

text \<open>
  C12. \<open>UpgradeInPlaceSupported\<close> accepts exactly the pairs of parseable versions of major
  number 3 whose minor number stays the same or grows by one; in particular the unsigned
  subtraction in the source never lets a downgrade through.
\<close>

theorem upgrade_in_place_iff:
  "UpgradeInPlaceSupported f t \<longleftrightarrow>
     (\<exists>a b. ParseTolerant f = Some a \<and> ParseTolerant t = Some b \<and> Major a = 3 \<and> Major b = 3 \<and>
        (unat (Minor b) = unat (Minor a) \<or> unat (Minor b) = Suc (unat (Minor a))))"
  unfolding UpgradeInPlaceSupported_def
  by (auto simp: minor_step_iff split: option.splits)

text \<open>
  C13. The etcd version chosen to restore (or adopt) a backup is either unset or a version to
  which the backup's version can be upgraded in place: never an older minor version.
\<close>

theorem restore_version_upgradable:
  "EtcdVersionForRestore v = '''' \<or> UpgradeInPlaceSupported v (EtcdVersionForRestore v)"
proof (cases "EtcdVersionForRestore v = ''''")
  case False
  from restore_known [OF this] obtain a where
    a: "ParseTolerant v = Some a" "Major a = 3" "unat (Minor a) \<in> {0, 1, 2, 3, 4, 5}" .
  from restore_minor [OF this] obtain b where
    b: "ParseTolerant (EtcdVersionForRestore v) = Some b" "Major b = 3"
      "unat (Minor b) = (if unat (Minor a) = 0 then 1 else unat (Minor a))" by blast
  have "Minor b - Minor a \<le> 1 \<and> Minor a \<le> Minor b"
    unfolding minor_step_iff using b(3) by auto
  with a b show ?thesis by (simp add: UpgradeInPlaceSupported_def)
qed simp

text \<open>C14. Choosing a restore version is idempotent: the chosen version restores with itself.\<close>

theorem restore_version_idem:
  "EtcdVersionForRestore (EtcdVersionForRestore v) = EtcdVersionForRestore v"
proof -
  have "EtcdVersionForRestore v \<in> {'''', ''3.1.12'', ''3.2.18'', ''3.2.24'', ''3.3.10'', ''3.3.13'', ''3.3.17'',
     ''3.4.3'', ''3.4.13'', ''3.5.7''}"
    by (simp add: EtcdVersionForRestore_def Let_def split: option.split)
  moreover have "EtcdVersionForRestore r = r"
    if "r \<in> {'''', ''3.1.12'', ''3.2.18'', ''3.2.24'', ''3.3.10'', ''3.3.13'', ''3.3.17'',
     ''3.4.3'', ''3.4.13'', ''3.5.7''}" for r
    using that by (auto simp: EtcdVersionForRestore_def Let_def family_literals)
  ultimately show ?thesis by blast
qed

text \<open>The list of all versions leaves out the newest one, to which every 3.5 backup is restored.\<close>

lemma newest_version_not_listed:
  "EtcdVersionForRestore ''3.5.6'' \<in> set LatestEtcdVersions - set AllEtcdVersions"
  by code_simp

end
