(* ===== verification/PrivateApi.thy ===== *)
theory PrivateApi
  imports GoStrings GoTime
begin

text \<open>
  The gossip layer of etcd-manager (package privateapi): the peers a server knows, their
  health, and the leader election. A server keeps a map of peers keyed by id; a peer is
  healthy while its last ping is younger than the healthy timeout. A node that wants to lead
  sends its view of the healthy peers to each of them, and each may refuse.

  \<open>time.Now()\<close> is read once for each peer visited, so a loop over the peers takes a clock
  \<open>PeerId \<Rightarrow> time\<close>; the map order is a code for \<open>go_range\<close>. The goroutines started for new peers
  (\<open>peer.Run\<close>) are not part of the model: what they do to the server, \<open>updatePeerInfo\<close> with
  the answer to a ping, is the operation \<open>pingAnswer\<close> below.
\<close>

type_synonym PeerId = string

section \<open>Data\<close>

record PeerInfo =
  InfoId :: string
  Endpoints :: "string list"

record endpoint =
  EndpointIP :: string
  EndpointPort :: int

record discoveryNode =
  NodeID :: string
  NodeEndpoints :: "endpoint list"

text \<open>\<open>conn\<close> is the endpoint of the open gRPC connection to the peer, if there is one.\<close>

record peer =
  peerId :: PeerId
  discovered :: discoveryNode
  peerDefaultPort :: int
  lastInfo :: "PeerInfo option"
  lastPingTime :: time
  conn :: "string option"

record View =
  Leader :: "PeerInfo option"
  LeadershipToken :: string
  Healthy :: "PeerInfo list"

text \<open>
  The accepted notification and when it was accepted. A request is a pointer to a
  message with a pointer to a view, so \<open>notification\<close> has two levels of nil.
\<close>

record leadership =
  notification :: "View option option"
  timestamp :: time

record Server =
  myInfo :: PeerInfo
  serverDefaultPort :: int
  peers :: "(PeerId \<times> peer) list"
  serverLeadership :: "leadership option"
  HealthyTimeout :: duration
  serverDnsSuffix :: string

record LeaderNotificationResponse =
  Accepted :: bool
  RespView :: "View option"

definition defaultHealthyTimeout :: duration where
  "defaultHealthyTimeout = Minute"

definition NewServer :: "PeerInfo \<Rightarrow> int \<Rightarrow> string \<Rightarrow> Server" where
  "NewServer info port dnsSuffix =
     \<lparr>myInfo = info, serverDefaultPort = port, peers = [], serverLeadership = None,
      HealthyTimeout = defaultHealthyTimeout, serverDnsSuffix = dnsSuffix\<rparr>"

definition MyPeerId :: "Server \<Rightarrow> PeerId" where
  "MyPeerId s = InfoId (myInfo s)"

section \<open>Peers\<close>

definition updatePeerInfo :: "time \<Rightarrow> PeerInfo \<Rightarrow> peer \<Rightarrow> peer" where
  "updatePeerInfo now info p =
     (if InfoId info \<noteq> peerId p then p
      else
        (let p1 = (case lastInfo p of
                     None \<Rightarrow> p
                   | Some old \<Rightarrow>
                       if set (Endpoints old) \<noteq> set (Endpoints info) then p\<lparr>conn := None\<rparr> else p)
         in p1\<lparr>lastInfo := Some info, lastPingTime := now\<rparr>))"

definition updateDiscovered :: "discoveryNode \<Rightarrow> peer \<Rightarrow> peer" where
  "updateDiscovered node p = p\<lparr>discovered := node\<rparr>"

text \<open>\<open>status\<close>: the last info and whether the peer is healthy.\<close>

definition status :: "duration \<Rightarrow> time \<Rightarrow> peer \<Rightarrow> PeerInfo option" where
  "status healthyTimeout now p =
     (case lastInfo p of
        None \<Rightarrow> None
      | Some info \<Rightarrow> if timeSub now (lastPingTime p) > healthyTimeout then None else Some info)"

definition newPeer :: "PeerId \<Rightarrow> peer" where
  "newPeer i = \<lparr>peerId = i, discovered = \<lparr>NodeID = '''', NodeEndpoints = []\<rparr>, peerDefaultPort = 0,
     lastInfo = None, lastPingTime = 0, conn = None\<rparr>"

definition updateFromPingRequest :: "time \<Rightarrow> PeerInfo option \<Rightarrow> Server \<Rightarrow> Server" where
  "updateFromPingRequest now req s =
     (case req of
        None \<Rightarrow> s
      | Some info \<Rightarrow>
          if InfoId info = '''' then s
          else
            (let i = InfoId info;
                 existing = (case map_of (peers s) i of None \<Rightarrow> newPeer i | Some p \<Rightarrow> p)
             in s\<lparr>peers := put i (updatePeerInfo now info existing) (peers s)\<rparr>))"

text \<open>\<open>Ping\<close>: record the caller, answer with our own info.\<close>

definition Ping :: "time \<Rightarrow> PeerInfo option \<Rightarrow> Server \<Rightarrow> PeerInfo \<times> Server" where
  "Ping now req s =
     (case req of
        None \<Rightarrow> (myInfo s, s)
      | Some info \<Rightarrow>
          if InfoId info = '''' then (myInfo s, s)
          else (myInfo s, updateFromPingRequest now req s))"

text \<open>The answer to a ping we sent to the peer \<open>i\<close> (\<open>sendPings\<close>, \<open>connect\<close>).\<close>

definition pingAnswer :: "time \<Rightarrow> PeerId \<Rightarrow> PeerInfo \<Rightarrow> Server \<Rightarrow> Server" where
  "pingAnswer now i info s =
     (case map_of (peers s) i of
        None \<Rightarrow> s
      | Some p \<Rightarrow> s\<lparr>peers := put i (updatePeerInfo now info p) (peers s)\<rparr>)"

definition updateFromDiscovery :: "discoveryNode \<Rightarrow> Server \<Rightarrow> Server" where
  "updateFromDiscovery node s =
     (let i = NodeID node;
          existing = (case map_of (peers s) i of
             None \<Rightarrow> (newPeer i)\<lparr>peerDefaultPort := serverDefaultPort s\<rparr> | Some p \<Rightarrow> p)
      in s\<lparr>peers := put i (updateDiscovered node existing) (peers s)\<rparr>)"

text \<open>
  One poll of the discovery service. The nodes come in the order of the two ranges over the
  polled map, \<open>c\<close> and \<open>c'\<close>; \<open>ParseIP\<close> is \<open>net.ParseIP\<close>, whose result is the address as
  \<open>IP.String\<close> prints it. The middle result is the argument of the call of \<open>AddFallbacks\<close>,
  if there is one; an error of that call is only logged.
\<close>

definition withDot :: "string \<Rightarrow> string" where
  "withDot dnsSuffix = (if HasPrefix dnsSuffix ''.'' then dnsSuffix else ''.'' @ dnsSuffix)"

definition runDiscoveryOnce ::
    "(string \<Rightarrow> string option) \<Rightarrow> nat list \<Rightarrow> nat list \<Rightarrow> goerr + (string \<times> discoveryNode) list \<Rightarrow>
     Server \<Rightarrow> goerr option \<times> (string \<times> string list) list option \<times> Server" where
  "runDiscoveryOnce ParseIP c c' polled s =
     (case polled of
        Inl e \<Rightarrow> (Some (Wrapf ''error during peer discovery'' e), None, s)
      | Inr nodes \<Rightarrow>
          (let s1 = fold updateFromDiscovery (map snd (go_range c nodes)) s in
           if serverDnsSuffix s1 \<noteq> '''' then
             (let fallback = (\<lambda>node m. put (NodeID node @ withDot (serverDnsSuffix s1))
                    (List.map_filter (\<lambda>e. ParseIP (EndpointIP e)) (NodeEndpoints node)) m)
              in (None, Some (fold fallback (map snd (go_range c' nodes)) []), s1))
           else (None, None, s1)))"

text \<open>The endpoints \<open>connect\<close> dials: those of discovery (default port for port 0) and the last info's.\<close>

definition connectEndpoints :: "peer \<Rightarrow> string list" where
  "connectEndpoints p = remdups
     (map (\<lambda>e. JoinHostPort (EndpointIP e) (Itoa (if EndpointPort e = 0 then peerDefaultPort p else EndpointPort e)))
          (NodeEndpoints (discovered p))
      @ (case lastInfo p of None \<Rightarrow> [] | Some info \<Rightarrow> Endpoints info))"

section \<open>Healthy peers\<close>

definition healthyPeers :: "(PeerId \<Rightarrow> time) \<Rightarrow> Server \<Rightarrow> (PeerId \<times> PeerInfo) list" where
  "healthyPeers now s =
     List.map_filter (\<lambda>(i, p). map_option (Pair i) (status (HealthyTimeout s) (now i) p)) (peers s)"

text \<open>\<open>Peers()\<close> in the order of a map range.\<close>

definition Peers :: "nat list \<Rightarrow> (PeerId \<Rightarrow> time) \<Rightarrow> Server \<Rightarrow> PeerInfo list" where
  "Peers c now s = map snd (go_range c (healthyPeers now s))"

definition snapshotHealthy :: "(PeerId \<Rightarrow> time) \<Rightarrow> Server \<Rightarrow> (PeerId \<times> PeerInfo) list" where
  "snapshotHealthy now s = healthyPeers now s"

section \<open>Leadership\<close>

definition addPeerFromView :: "time \<Rightarrow> PeerInfo \<Rightarrow> Server \<Rightarrow> Server" where
  "addPeerFromView now info s =
     (let i = InfoId info in
      case map_of (peers s) i of
        None \<Rightarrow> s\<lparr>peers := put i (updatePeerInfo now info (newPeer i)) (peers s)\<rparr>
      | Some _ \<Rightarrow> s)"

definition addPeersFromView :: "(PeerId \<Rightarrow> time) \<Rightarrow> View \<Rightarrow> Server \<Rightarrow> Server" where
  "addPeersFromView now view s = fold (\<lambda>info. addPeerFromView (now (InfoId info)) info) (Healthy view) s"

text \<open>
  \<open>LeaderNotification\<close>. \<open>added\<close> gives the times the unknown peers of the view are recorded at, \<open>now\<close>
  and \<open>now'\<close> the clocks of the two loops over the peers, \<open>at\<close> the time of the acceptance and
  \<open>c\<close> the order of the second loop.
\<close>

definition LeaderNotification ::
    "(PeerId \<Rightarrow> time) \<Rightarrow> (PeerId \<Rightarrow> time) \<Rightarrow> (PeerId \<Rightarrow> time) \<Rightarrow> time \<Rightarrow> nat list \<Rightarrow>
     View option \<Rightarrow> Server \<Rightarrow> (goerr + LeaderNotificationResponse) \<times> Server" where
  "LeaderNotification added now now' at c request s =
     (case request of
        None \<Rightarrow> (Inl (Errorf ''View is required''), s)
      | Some view \<Rightarrow>
          if Healthy view = [] then (Inl (Errorf ''View.Healthy is required''), s)
          else
            (let s1 = addPeersFromView added view s;
                 viewMap = map InfoId (Healthy view);
                 reject = list_ex (\<lambda>(i, p). i \<notin> set viewMap \<and>
                            status (HealthyTimeout s1) (now i) p \<noteq> None) (peers s1)
             in if reject then
                  (Inr \<lparr>Accepted = False, RespView = Some \<lparr>Leader = None, LeadershipToken = '''',
                          Healthy = map snd (go_range c (healthyPeers now' s1))\<rparr>\<rparr>, s1)
                else
                  (Inr \<lparr>Accepted = True, RespView = None\<rparr>,
                   s1\<lparr>serverLeadership := Some \<lparr>notification = Some (Some view), timestamp = at\<rparr>\<rparr>)))"

definition IsLeader :: "Server \<Rightarrow> string \<Rightarrow> bool" where
  "IsLeader s leadershipToken =
     (case serverLeadership s of
        None \<Rightarrow> False
      | Some l \<Rightarrow>
          (case notification l of
             None \<Rightarrow> False
           | Some None \<Rightarrow> False
           | Some (Some view) \<Rightarrow>
               if LeadershipToken view \<noteq> leadershipToken then False else True))"

section \<open>The election\<close>

text \<open>
  The servers of all nodes, and what the network does: the fate of the n-th call, the server
  that answers on an endpoint when peer \<open>i\<close> is dialled there, whether an open connection still
  works, the clocks and the map orders of the n-th step.
\<close>

record gossip =
  servers :: "(PeerId \<times> Server) list"
  gtick :: nat

datatype fate = RequestLost | ReplyLost | Delivered

record network =
  fateOf :: "nat \<Rightarrow> fate"
  dial :: "nat \<Rightarrow> PeerId \<Rightarrow> string \<Rightarrow> PeerId option"
  connAlive :: "nat \<Rightarrow> string \<Rightarrow> bool"
  clock :: "nat \<Rightarrow> PeerId \<Rightarrow> time"
  order :: "nat \<Rightarrow> nat list"

definition step :: "(gossip, nat) prog" where
  "step = (\<lambda>g. (Ret (gtick g), g\<lparr>gtick := Suc (gtick g)\<rparr>))"

definition getServer :: "PeerId \<Rightarrow> (gossip, Server) prog" where
  "getServer i = bind (gets (\<lambda>g. map_of (servers g) i)) (\<lambda>so.
     case so of None \<Rightarrow> fail (Errorf ''connection refused'') | Some s \<Rightarrow> ret s)"

definition updServer :: "PeerId \<Rightarrow> (Server \<Rightarrow> Server) \<Rightarrow> (gossip, unit) prog" where
  "updServer i f = modify (\<lambda>g. g\<lparr>servers := adjust i f (servers g)\<rparr>)"

definition setConn :: "PeerId \<Rightarrow> string option \<Rightarrow> Server \<Rightarrow> Server" where
  "setConn i c s = (case map_of (peers s) i of
     None \<Rightarrow> s | Some p \<Rightarrow> s\<lparr>peers := put i (p\<lparr>conn := c\<rparr>) (peers s)\<rparr>)"

text \<open>A remote call over a connection to endpoint \<open>ep\<close>, dialled as peer \<open>i\<close>.\<close>

definition rpc :: "network \<Rightarrow> PeerId \<Rightarrow> string \<Rightarrow>
    (nat \<Rightarrow> PeerId \<Rightarrow> Server \<Rightarrow> (goerr + 'r) \<times> Server) \<Rightarrow> (gossip, 'r) prog" where
  "rpc N i ep handler =
     bind step (\<lambda>n. case dial N n i ep of
       None \<Rightarrow> fail (Errorf ''connection refused'')
     | Some j \<Rightarrow>
         if fateOf N n = RequestLost then fail (Errorf ''rpc error'')
         else bind (getServer j) (\<lambda>r.
           seq (updServer j (\<lambda>r. snd (handler n j r)))
            (if fateOf N n = ReplyLost then fail (Errorf ''rpc error'')
             else (case fst (handler n j r) of Inl e \<Rightarrow> fail e | Inr v \<Rightarrow> ret v))))"

definition rpcPing :: "network \<Rightarrow> PeerId \<Rightarrow> string \<Rightarrow> PeerInfo \<Rightarrow> (gossip, PeerInfo) prog" where
  "rpcPing N i ep info =
     rpc N i ep (\<lambda>n j r. case Ping (clock N n j) (Some info) r of (answer, r') \<Rightarrow> (Inr answer, r'))"

text \<open>
  \<open>connect\<close>: reuse an open connection that still works; otherwise dial the endpoints in the order
  of the map range until a server answers a ping, record its answer and keep the connection.
\<close>

definition dialEndpoint :: "network \<Rightarrow> PeerId \<Rightarrow> PeerId \<Rightarrow> string \<Rightarrow> (gossip, string option) prog" where
  "dialEndpoint N me i ep =
     bind (getServer me) (\<lambda>s. bind (attempt (rpcPing N i ep (myInfo s))) (\<lambda>r.
       case r of
         Inl _ \<Rightarrow> ret None
       | Inr info \<Rightarrow> bind step (\<lambda>n.
           seq (updServer me (\<lambda>s. setConn i (Some ep) (pingAnswer (clock N n i) i info s))) (ret (Some ep)))))"

definition connect :: "network \<Rightarrow> PeerId \<Rightarrow> PeerId \<Rightarrow> (gossip, string option) prog" where
  "connect N me i =
     bind step (\<lambda>n. bind (getServer me) (\<lambda>s.
       case map_of (peers s) i of
         None \<Rightarrow> ret None
       | Some p \<Rightarrow>
           (case conn p of
              Some ep \<Rightarrow>
                if connAlive N n ep then ret (Some ep)
                else seq (updServer me (setConn i None))
                      (forReturn (go_range (order N n) (connectEndpoints p)) (dialEndpoint N me i))
            | None \<Rightarrow> forReturn (go_range (order N n) (connectEndpoints p)) (dialEndpoint N me i))))"

text \<open>\<open>sendPings\<close>: connect, then ping until an error or the end of the context after \<open>k\<close> pings.\<close>

fun pingLoop :: "network \<Rightarrow> PeerId \<Rightarrow> PeerId \<Rightarrow> string \<Rightarrow> nat \<Rightarrow> (gossip, unit) prog" where
  "pingLoop N me i ep 0 = fail (Errorf ''context canceled'')"
| "pingLoop N me i ep (Suc k) =
     bind (getServer me) (\<lambda>s.
     bind (rewrap (Wrapf ''error pinging'') (rpcPing N i ep (myInfo s))) (\<lambda>info.
     bind step (\<lambda>n.
       seq (updServer me (pingAnswer (clock N n i) i info)) (pingLoop N me i ep k))))"

definition sendPings :: "network \<Rightarrow> PeerId \<Rightarrow> PeerId \<Rightarrow> nat \<Rightarrow> (gossip, unit) prog" where
  "sendPings N me i k = bind (connect N me i) (\<lambda>c. case c of
     None \<Rightarrow> fail (Errorf ''unable to connect to peer'')
   | Some ep \<Rightarrow> pingLoop N me i ep k)"

definition GetPeerClient :: "network \<Rightarrow> PeerId \<Rightarrow> PeerId \<Rightarrow> (gossip, string) prog" where
  "GetPeerClient N me i =
     bind step (\<lambda>n. bind (getServer me) (\<lambda>s.
       case map_of (peers s) i of
         None \<Rightarrow> fail (Errorf ''peer not known'')
       | Some p \<Rightarrow>
           if status (HealthyTimeout s) (clock N n i) p = None then fail (Errorf ''peer is not healthy'')
           else bind (connect N me i) (\<lambda>c. case c of
             None \<Rightarrow> fail (Errorf ''unable to connect to peer'')
           | Some ep \<Rightarrow> ret ep)))"

definition rpcLeaderNotification ::
    "network \<Rightarrow> PeerId \<Rightarrow> string \<Rightarrow> View \<Rightarrow> (gossip, LeaderNotificationResponse) prog" where
  "rpcLeaderNotification N i ep view =
     rpc N i ep (\<lambda>n j r. LeaderNotification (clock N n) (clock N n) (clock N (Suc n)) (clock N n j)
                            (order N n) (Some view) r)"

text \<open>
  The loop of \<open>BecomeLeader\<close> and \<open>AssertLeadership\<close>: notify each healthy peer in turn, stop at
  the first that cannot be reached or that refuses, learn the peers of its view.
\<close>

definition notifyPeer :: "network \<Rightarrow> PeerId \<Rightarrow> View \<Rightarrow> string \<Rightarrow> string \<Rightarrow> PeerId \<Rightarrow> (gossip, unit) prog" where
  "notifyPeer N me view sending refused i =
     bind (rewrap (Wrapf ''error getting peer client'') (GetPeerClient N me i)) (\<lambda>ep.
      bind (rewrap (Wrapf sending) (rpcLeaderNotification N i ep view)) (\<lambda>resp.
        seq (case RespView resp of
               None \<Rightarrow> ret ()
             | Some v \<Rightarrow> bind step (\<lambda>n. updServer me (addPeersFromView (clock N n) v)))
         (if \<not> Accepted resp then fail (Errorf refused) else ret ())))"

definition leaderView :: "network \<Rightarrow> PeerId \<Rightarrow> string \<Rightarrow> (gossip, View \<times> PeerId list) prog" where
  "leaderView N me token =
     bind step (\<lambda>n. bind (getServer me) (\<lambda>s.
       let snapshot = snapshotHealthy (clock N n) s in
       ret (\<lparr>Leader = Some (myInfo s), LeadershipToken = token,
             Healthy = map snd (go_range (order N n) snapshot)\<rparr>,
            map fst (go_range (order N (Suc n)) snapshot))))"

definition BecomeLeader :: "network \<Rightarrow> PeerId \<Rightarrow> string \<Rightarrow> (gossip, PeerId list \<times> string) prog" where
  "BecomeLeader N me token =
     bind (leaderView N me token) (\<lambda>(view, targets).
       seq (forM targets (notifyPeer N me view ''error sending leader notification'' ''our leadership bid was not accepted by peer''))
        (ret (targets, token)))"

definition AssertLeadership :: "network \<Rightarrow> PeerId \<Rightarrow> string \<Rightarrow> (gossip, unit) prog" where
  "AssertLeadership N me leadershipToken =
     bind (leaderView N me leadershipToken) (\<lambda>(view, targets).
       forM targets (notifyPeer N me view ''error sending leader assertion'' ''our leadership assertion was not accepted by peer''))"

section \<open>What the operations keep\<close>

text \<open>The peers form a map, and each entry is filed under its own id.\<close>

definition peersOK :: "Server \<Rightarrow> bool" where
  "peersOK s \<longleftrightarrow> distinct (map fst (peers s)) \<and> (\<forall>(i, p) \<in> set (peers s). peerId p = i)"

lemma peersOK_lookup: "peersOK s \<Longrightarrow> map_of (peers s) i = Some p \<Longrightarrow> peerId p = i"
  by (auto simp: peersOK_def dest: map_of_SomeD)

lemma peerId_updatePeerInfo [simp]: "peerId (updatePeerInfo now info p) = peerId p"
  by (simp add: updatePeerInfo_def Let_def split: option.split)

lemma peerId_updateDiscovered [simp]: "peerId (updateDiscovered node p) = peerId p"
  by (simp add: updateDiscovered_def)

lemma peerId_newPeer [simp]: "peerId (newPeer i) = i"
  by (simp add: newPeer_def)

lemma peersOK_put: "peersOK s \<Longrightarrow> peerId p = i \<Longrightarrow> peersOK (s\<lparr>peers := put i p (peers s)\<rparr>)"
  unfolding peersOK_def by (simp add: distinct_put) (auto simp: put_def split: if_splits)

lemma peersOK_NewServer: "peersOK (NewServer info port suffix)"
  by (simp add: NewServer_def peersOK_def)

lemma peersOK_updateFromPingRequest: "peersOK s \<Longrightarrow> peersOK (updateFromPingRequest now req s)"
  by (auto simp: updateFromPingRequest_def Let_def intro!: peersOK_put dest: peersOK_lookup split: option.splits)

lemma peersOK_Ping: "peersOK s \<Longrightarrow> peersOK (snd (Ping now req s))"
  by (auto simp: Ping_def peersOK_updateFromPingRequest split: option.splits)

lemma peersOK_pingAnswer: "peersOK s \<Longrightarrow> peersOK (pingAnswer now i info s)"
  by (auto simp: pingAnswer_def intro!: peersOK_put dest: peersOK_lookup split: option.splits)

lemma peersOK_updateFromDiscovery: "peersOK s \<Longrightarrow> peersOK (updateFromDiscovery node s)"
  by (auto simp: updateFromDiscovery_def Let_def intro!: peersOK_put dest: peersOK_lookup split: option.splits)

lemma peersOK_addPeerFromView: "peersOK s \<Longrightarrow> peersOK (addPeerFromView now info s)"
  by (auto simp: addPeerFromView_def Let_def intro!: peersOK_put split: option.splits)

lemma peersOK_fold: "(\<And>x s. peersOK s \<Longrightarrow> peersOK (f x s)) \<Longrightarrow> peersOK s \<Longrightarrow> peersOK (fold f xs s)"
  by (induction xs arbitrary: s) auto

lemma peersOK_addPeersFromView: "peersOK s \<Longrightarrow> peersOK (addPeersFromView now view s)"
  unfolding addPeersFromView_def by (rule peersOK_fold) (rule peersOK_addPeerFromView)

lemma peersOK_leadership [simp]: "peersOK (s\<lparr>serverLeadership := l\<rparr>) = peersOK s"
  by (simp add: peersOK_def)

lemma peersOK_LeaderNotification: "peersOK s \<Longrightarrow> peersOK (snd (LeaderNotification a n n' t c req s))"
  by (simp add: LeaderNotification_def Let_def peersOK_addPeersFromView split: option.split)

text \<open>Only an accepted notification changes the leadership.\<close>

lemma leadership_pingOps [simp]:
  "serverLeadership (updateFromPingRequest now req s) = serverLeadership s"
  "serverLeadership (snd (Ping now req s)) = serverLeadership s"
  "serverLeadership (pingAnswer now i info s) = serverLeadership s"
  "serverLeadership (setConn i c s) = serverLeadership s"
  "serverLeadership (updateFromDiscovery node s) = serverLeadership s"
  "serverLeadership (addPeerFromView t info s) = serverLeadership s"
  by (simp_all add: updateFromPingRequest_def Ping_def pingAnswer_def setConn_def
      updateFromDiscovery_def addPeerFromView_def Let_def split: option.splits)

lemma leadership_fold [simp]:
  "(\<And>x s. serverLeadership (f x s) = serverLeadership s) \<Longrightarrow> serverLeadership (fold f xs s) = serverLeadership s"
  by (induction xs arbitrary: s) auto

lemma leadership_addPeersFromView [simp]: "serverLeadership (addPeersFromView now view s) = serverLeadership s"
  by (simp add: addPeersFromView_def)

text \<open>Learning peers from a view adds the unknown ones and leaves the known ones alone.\<close>

lemma addPeerFromView_lookup:
  "map_of (peers (addPeerFromView t info s)) i =
     (if i = InfoId info \<and> map_of (peers s) i = None then Some (updatePeerInfo t info (newPeer i))
      else map_of (peers s) i)"
  by (auto simp: addPeerFromView_def Let_def split: option.splits)

lemma addPeersFromView_known:
  "map_of (peers s) i = Some p \<Longrightarrow> map_of (peers (addPeersFromView now view s)) i = Some p"
proof -
  have "map_of (peers s) i = Some p \<Longrightarrow>
      map_of (peers (fold (\<lambda>info. addPeerFromView (now (InfoId info)) info) xs s)) i = Some p" for xs
    by (induction xs arbitrary: s) (auto simp: addPeerFromView_lookup)
  then show "map_of (peers s) i = Some p \<Longrightarrow> ?thesis" by (simp add: addPeersFromView_def)
qed

lemma addPeersFromView_keys:
  "fst ` set (peers (addPeersFromView now view s)) = fst ` set (peers s) \<union> InfoId ` set (Healthy view)"
proof -
  have one: "fst ` set (peers (addPeerFromView t info s)) = insert (InfoId info) (fst ` set (peers s))" for t info s
    by (auto simp: addPeerFromView_def Let_def map_of_eq_None_iff split: option.splits dest: map_of_SomeD)
       (metis fst_conv image_eqI map_of_SomeD)
  have "fst ` set (peers (fold (\<lambda>info. addPeerFromView (now (InfoId info)) info) xs s)) =
      fst ` set (peers s) \<union> InfoId ` set xs" for xs
    by (induction xs arbitrary: s) (auto simp: one)
  then show ?thesis by (simp add: addPeersFromView_def)
qed

section \<open>Who follows which token\<close>

text \<open>
  \<open>follows tok g i\<close>: node \<open>i\<close> answers \<open>IsLeader\<close> for the token. No step of an election with the
  token \<open>tok\<close> makes a node stop following \<open>tok\<close>.
\<close>

definition follows :: "string \<Rightarrow> gossip \<Rightarrow> PeerId \<Rightarrow> bool" where
  "follows tok g i = (case map_of (servers g) i of None \<Rightarrow> False | Some s \<Rightarrow> IsLeader s tok)"

definition followersKept :: "string \<Rightarrow> gossip \<Rightarrow> gossip \<Rightarrow> bool" where
  "followersKept tok g g' \<longleftrightarrow> (\<forall>i. follows tok g i \<longrightarrow> follows tok g' i)"

interpretation followers: state_preorder "followersKept tok"
  by unfold_locales (auto simp: followersKept_def)

lemma IsLeader_cong: "serverLeadership s = serverLeadership s' \<Longrightarrow> IsLeader s tok = IsLeader s' tok"
  by (simp add: IsLeader_def)

lemma LeaderNotification_keeps:
  "LeadershipToken view = tok \<Longrightarrow> IsLeader s tok \<Longrightarrow>
     IsLeader (snd (LeaderNotification a n n' t c (Some view) s)) tok"
  by (simp add: LeaderNotification_def Let_def IsLeader_def)

lemma LeaderNotification_accepted:
  "fst (LeaderNotification a n n' t c (Some view) s) = Inr resp \<Longrightarrow> Accepted resp \<Longrightarrow>
     IsLeader (snd (LeaderNotification a n n' t c (Some view) s)) (LeadershipToken view)"
  by (auto simp: LeaderNotification_def Let_def IsLeader_def split: if_splits)

lemma followers_updServer [keeps_intros]:
  "(\<And>s. IsLeader s tok \<Longrightarrow> IsLeader (f s) tok) \<Longrightarrow> keeps (followersKept tok) (updServer i f)"
  unfolding updServer_def by (rule followers.keeps_modify) (auto simp: followersKept_def follows_def split: option.splits)

lemma followers_step [keeps_intros]: "keeps (followersKept tok) step"
  by (rule keepsI) (auto simp: step_def followersKept_def follows_def)

lemma followers_getServer [keeps_intros]: "keeps (followersKept tok) (getServer i)"
  unfolding getServer_def by (intro keeps_intros) (auto split: option.split intro: keeps_intros)

lemma followers_rpc [keeps_intros]:
  "(\<And>n j s. IsLeader s tok \<Longrightarrow> IsLeader (snd (h n j s)) tok) \<Longrightarrow> keeps (followersKept tok) (rpc N i ep h)"
  unfolding rpc_def by (intro keeps_intros) (auto split: option.split sum.split intro!: keeps_intros)

lemma followers_rpcPing [keeps_intros]: "keeps (followersKept tok) (rpcPing N i ep info)"
  unfolding rpcPing_def by (rule keeps_intros) (simp add: IsLeader_def case_prod_beta)


lemma followers_dialEndpoint [keeps_intros]: "keeps (followersKept tok) (dialEndpoint N me i ep)"
  unfolding dialEndpoint_def
  by (intro keeps_intros) (auto split: sum.split intro!: keeps_intros simp: IsLeader_def)

lemma followers_connect [keeps_intros]: "keeps (followersKept tok) (connect N me i)"
  unfolding connect_def
  by (intro keeps_intros) (auto split: option.split intro!: keeps_intros simp: IsLeader_def)

lemma followers_GetPeerClient [keeps_intros]: "keeps (followersKept tok) (GetPeerClient N me i)"
  unfolding GetPeerClient_def by (intro keeps_intros) (auto split: option.split intro!: keeps_intros)

lemma followers_rpcLeaderNotification [keeps_intros]:
  "LeadershipToken view = tok \<Longrightarrow> keeps (followersKept tok) (rpcLeaderNotification N i ep view)"
  unfolding rpcLeaderNotification_def by (rule keeps_intros) (rule LeaderNotification_keeps)

lemma followers_notifyPeer [keeps_intros]:
  "LeadershipToken view = tok \<Longrightarrow> keeps (followersKept tok) (notifyPeer N me view sending refused i)"
  unfolding notifyPeer_def
  by (intro keeps_intros) (auto split: option.split intro!: keeps_intros simp: IsLeader_def)

text \<open>
  The connections are mutually authenticated: the server that answers a peer dialled with the
  server name of its id is that peer.
\<close>

definition authentic :: "network \<Rightarrow> bool" where
  "authentic N \<longleftrightarrow> (\<forall>n i ep j. dial N n i ep = Some j \<longrightarrow> j = i)"

lemma authenticD: "authentic N \<Longrightarrow> dial N n i ep = Some j \<Longrightarrow> j = i"
  by (auto simp: authentic_def)

lemma rpc_leader_accepted:
  assumes "authentic N" "rpcLeaderNotification N i ep view g = (Ret resp, g')" "Accepted resp"
  shows "follows (LeadershipToken view) g' i"
  using assms LeaderNotification_accepted
  by (auto simp: rpcLeaderNotification_def rpc_def follows_def bind_def seq_def step_def getServer_def
      updServer_def gets_def ret_def fail_def modify_def split: option.splits if_splits sum.splits prod.splits dest!: authenticD)

lemma notifyPeer_accepted:
  assumes N: "authentic N"
  shows "wp (notifyPeer N me view sending refused i)
     (\<lambda>r g'. case r of Ret _ \<Rightarrow> follows (LeadershipToken view) g' i | _ \<Rightarrow> True) g"
proof (rule wpI)
  fix r g'
  assume run: "notifyPeer N me view sending refused i g = (r, g')"
  show "case r of Ret _ \<Rightarrow> follows (LeadershipToken view) g' i | _ \<Rightarrow> True"
  proof (cases r)
    case (Ret u)
    then obtain ep g1 resp g2 where
      call: "rpcLeaderNotification N i ep view g1 = (Ret resp, g2)" and acc: "Accepted resp"
      and rest: "(case RespView resp of None \<Rightarrow> ret ()
             | Some v \<Rightarrow> bind step (\<lambda>n. updServer me (addPeersFromView (clock N n) v))) g2 = (Ret (), g')"
      using run
      by (auto simp: notifyPeer_def bind_def rewrap_def seq_def ret_def fail_def
          split: prod.splits outcome.splits if_splits)
    have "keeps (followersKept (LeadershipToken view)) (case RespView resp of None \<Rightarrow> ret ()
             | Some v \<Rightarrow> bind step (\<lambda>n. updServer me (addPeersFromView (clock N n) v)))"
      by (auto split: option.split intro!: keeps_intros simp: IsLeader_def)
    from keepsD [OF this rest] rpc_leader_accepted [OF N call acc] show ?thesis
      by (simp add: Ret followersKept_def)
  qed simp_all
qed

lemma notifyPeers_accepted:
  assumes N: "authentic N"
  shows "wp (forM xs (notifyPeer N me view sending refused))
     (\<lambda>r g'. case r of Ret _ \<Rightarrow> \<forall>i \<in> set xs. follows (LeadershipToken view) g' i | _ \<Rightarrow> True) g"
proof (rule wp_forM [where I = "\<lambda>ys g. \<forall>i. i \<in> set xs \<longrightarrow> i \<in> set ys \<or> follows (LeadershipToken view) g i"])
  fix x ys g
  assume inv: "\<forall>i. i \<in> set xs \<longrightarrow> i \<in> set (x # ys) \<or> follows (LeadershipToken view) g i"
  have kept: "wp (notifyPeer N me view sending refused x) (\<lambda>_. followersKept (LeadershipToken view) g) g"
    using followers_notifyPeer [OF refl] by (simp add: keeps_def)
  show "wp (notifyPeer N me view sending refused x)
      (\<lambda>r g'. case r of Ret _ \<Rightarrow> \<forall>i. i \<in> set xs \<longrightarrow> i \<in> set ys \<or> follows (LeadershipToken view) g' i
        | Err e \<Rightarrow> case Err e of Ret _ \<Rightarrow> \<forall>i \<in> set xs. follows (LeadershipToken view) g' i | _ \<Rightarrow> True
        | Crash m \<Rightarrow> case Crash m of Ret _ \<Rightarrow> \<forall>i \<in> set xs. follows (LeadershipToken view) g' i | _ \<Rightarrow> True) g"
    by (rule wp_mono [OF wp_conj [OF kept notifyPeer_accepted [OF N]]])
       (use inv in \<open>auto simp: followersKept_def split: outcome.splits\<close>)
qed auto

section \<open>Acceptance and acknowledgement\<close>

lemma HealthyTimeout_addPeersFromView [simp]: "HealthyTimeout (addPeersFromView now view s) = HealthyTimeout s"
proof -
  have "HealthyTimeout (fold (\<lambda>info. addPeerFromView (now (InfoId info)) info) xs s) = HealthyTimeout s" for xs
    by (induction xs arbitrary: s) (auto simp: addPeerFromView_def Let_def split: option.split)
  then show ?thesis by (simp add: addPeersFromView_def)
qed

lemma addPeersFromView_others:
  assumes "i \<notin> InfoId ` set (Healthy view)"
  shows "(i, p) \<in> set (peers (addPeersFromView now view s)) \<longleftrightarrow> (i, p) \<in> set (peers s)"
proof -
  have "i \<notin> InfoId ` set xs \<Longrightarrow>
      (i, p) \<in> set (peers (fold (\<lambda>info. addPeerFromView (now (InfoId info)) info) xs s)) \<longleftrightarrow> (i, p) \<in> set (peers s)" for xs
    by (induction xs arbitrary: s)
       (auto simp: addPeerFromView_def Let_def put_other split: option.splits)
  with assms show ?thesis by (simp add: addPeersFromView_def)
qed

definition missingFromView :: "(PeerId \<Rightarrow> time) \<Rightarrow> View \<Rightarrow> Server \<Rightarrow> PeerId set" where
  "missingFromView now view s =
     {i. i \<notin> InfoId ` set (Healthy view) \<and> (\<exists>p. (i, p) \<in> set (peers s) \<and> status (HealthyTimeout s) (now i) p \<noteq> None)}"

lemma reject_iff:
  "list_ex (\<lambda>(i, p). i \<notin> set (map InfoId (Healthy view)) \<and> status (HealthyTimeout s) (now i) p \<noteq> None)
     (peers (addPeersFromView added view s)) \<longleftrightarrow> missingFromView now view s \<noteq> {}"
proof -
  have "(i, p) \<in> set (peers (addPeersFromView added view s)) \<and> i \<notin> InfoId ` set (Healthy view) \<longleftrightarrow>
      (i, p) \<in> set (peers s) \<and> i \<notin> InfoId ` set (Healthy view)" for i p
    using addPeersFromView_others by blast
  then show ?thesis
    unfolding list_ex_iff missingFromView_def set_map by blast
qed

text \<open>
  C11. A leader notification is accepted exactly when it carries a view with at least one peer
  and that view lists every peer the receiver knows to be healthy. On acceptance the receiver
  follows the token of the view and no other; in every other case the leadership it had
  stays as it was.
\<close>

theorem leader_notification_accept_iff:
  "(case LeaderNotification added now now' at c request s of (r, s') \<Rightarrow>
     ((\<exists>resp. r = Inr resp \<and> Accepted resp) \<longleftrightarrow>
        (\<exists>view. request = Some view \<and> Healthy view \<noteq> [] \<and> missingFromView now view s = {})) \<and>
     (if \<exists>resp. r = Inr resp \<and> Accepted resp
      then \<forall>tok. IsLeader s' tok \<longleftrightarrow> tok = LeadershipToken (the request)
      else serverLeadership s' = serverLeadership s))"
proof (cases request)
  case (Some view)
  show ?thesis
    unfolding Some LeaderNotification_def option.case Let_def HealthyTimeout_addPeersFromView reject_iff
    by (cases "Healthy view = []"; cases "missingFromView now view s = {}") (simp_all add: IsLeader_def eq_commute)
qed (simp add: LeaderNotification_def)


lemma BecomeLeaderE:
  assumes run: "BecomeLeader N me token g = (Ret (acked, t), g')"
  obtains s view g1 where "map_of (servers g) me = Some s" and "LeadershipToken view = token"
    and "acked = map fst (go_range (order N (Suc (gtick g))) (healthyPeers (clock N (gtick g)) s))"
    and "t = token"
    and "forM acked (notifyPeer N me view ''error sending leader notification''
      ''our leadership bid was not accepted by peer'') g1 = (Ret (), g')"
proof (cases "map_of (servers g) me")
  case None
  with run show ?thesis
    by (simp add: BecomeLeader_def leaderView_def bind_def step_def getServer_def gets_def fail_def)
next
  case (Some s)
  let ?view = "\<lparr>Leader = Some (myInfo s), LeadershipToken = token,
       Healthy = map snd (go_range (order N (gtick g)) (healthyPeers (clock N (gtick g)) s))\<rparr>"
  let ?targets = "map fst (go_range (order N (Suc (gtick g))) (healthyPeers (clock N (gtick g)) s))"
  have "seq (forM ?targets (notifyPeer N me ?view ''error sending leader notification''
      ''our leadership bid was not accepted by peer'')) (ret (?targets, token)) (g\<lparr>gtick := Suc (gtick g)\<rparr>) =
      (Ret (acked, t), g')"
    using run Some
    by (simp add: BecomeLeader_def leaderView_def bind_def step_def getServer_def gets_def ret_def
        snapshotHealthy_def Let_def)
  then show ?thesis
    by (intro that [of s ?view "g\<lparr>gtick := Suc (gtick g)\<rparr>"])
       (auto simp: Some seq_def bind_def ret_def split: prod.splits outcome.splits)
qed


definition exampleNet :: network where
  "exampleNet = \<lparr>fateOf = \<lambda>_. Delivered, dial = \<lambda>_ i ep. if ep = ''10.0.0.'' @ i then Some i else None,
     connAlive = \<lambda>_ _. True, clock = \<lambda>n _. int n * Second, order = \<lambda>n. [n]\<rparr>"

definition exampleServer :: "PeerId \<Rightarrow> Server" where
  "exampleServer i =
     fold (\<lambda>j. updateFromPingRequest 0 (Some \<lparr>InfoId = j, Endpoints = [''10.0.0.'' @ j]\<rparr>)) [''1'', ''2'']
       (NewServer \<lparr>InfoId = i, Endpoints = [''10.0.0.'' @ i]\<rparr> 2381 '''')"

definition exampleGossip :: gossip where
  "exampleGossip = \<lparr>servers = [(''1'', exampleServer ''1''), (''2'', exampleServer ''2'')], gtick = 0\<rparr>"

lemma authentic_exampleNet: "authentic exampleNet"
  by (simp add: authentic_def exampleNet_def)

lemma exampleElection: "fst (BecomeLeader exampleNet ''1'' ''token'' exampleGossip) = Ret ([''2'', ''1''], ''token'')"
  by code_simp

end
