(* ===== verification/EtcdApi.thy ===== *)
theory EtcdApi
  imports GoStrings
begin

text \<open>
  The messages of etcd-manager (\<open>apis/etcd/etcdapi.proto\<close>) as records, the rewriting of URL schemes
  (\<open>pkg/urls\<close>), and the lexical path operations of the packages path and path/filepath that the
  components use. A message pointer that may be nil is an option.
\<close>

section \<open>Messages\<close>

record ClusterSpec =
  MemberCount :: int
  SpecVersion :: string

record EtcdNode =
  Name :: string
  PeerUrls :: "string list"
  ClientUrls :: "string list"
  QuarantinedClientUrls :: "string list"
  TlsEnabled :: bool

record EtcdCluster =
  DesiredClusterSize :: int
  ClusterToken :: string
  Nodes :: "EtcdNode list"

record EtcdState =
  NewCluster :: bool
  Cluster :: "EtcdCluster option"
  StateVersion :: string
  Quarantined :: bool

definition emptyState :: EtcdState where
  "emptyState = \<lparr>NewCluster = False, Cluster = None, StateVersion = '''', Quarantined = False\<rparr>"

record BackupInfo =
  BackupVersion :: string
  BackupTimestamp :: int
  BackupSpec :: "ClusterSpec option"

record RestoreBackupCommand =
  RestoreSpec :: "ClusterSpec option"
  RestoreBackup :: string

record Command =
  CommandTimestamp :: int
  CommandRestore :: "RestoreBackupCommand option"

record CommonRequestHeader =
  HeaderToken :: string
  HeaderCluster :: string

datatype Phase = PHASE_UNKNOWN | PHASE_PREPARE | PHASE_INITIAL_CLUSTER | PHASE_JOIN_EXISTING | PHASE_CANCEL_PREPARE

record JoinClusterRequest =
  JoinHeader :: "CommonRequestHeader option"
  JoinPhase :: Phase
  JoinToken :: string
  JoinNodes :: "EtcdNode list"
  JoinVersion :: string

record ReconfigureRequest =
  ReconfHeader :: "CommonRequestHeader option"
  SetEtcdVersion :: string
  ReconfQuarantined :: bool
  EnableTls :: bool

record DoBackupRequest =
  BackupHeader :: "CommonRequestHeader option"
  BackupStorage :: string
  BackupReqInfo :: "BackupInfo option"

record DoRestoreRequest =
  RestoreHeader :: "CommonRequestHeader option"
  RestoreStorage :: string
  BackupName :: string

record GetInfoResponse =
  InfoClusterName :: string
  NodeConfiguration :: "EtcdNode option"
  InfoState :: "EtcdState option"

record MemberMapInfo =
  MapName :: string
  MapDns :: string
  MapAddresses :: "string list"

section \<open>URLs\<close>

definition RewriteScheme :: "string list \<Rightarrow> string \<Rightarrow> string \<Rightarrow> string list" where
  "RewriteScheme ins findPrefix newPrefix =
     map (\<lambda>s. if HasPrefix s findPrefix then newPrefix @ TrimPrefix s findPrefix else s) ins"

section \<open>Paths\<close>

text \<open>\<open>Clean\<close>: drop empty and dot elements, resolve dot-dot where there is something to resolve.\<close>

fun cleanParts :: "bool \<Rightarrow> string list \<Rightarrow> string list \<Rightarrow> string list" where
  "cleanParts rooted acc [] = rev acc"
| "cleanParts rooted acc (p # ps) =
     (if p = '''' \<or> p = ''.'' then cleanParts rooted acc ps
      else if p = ''..'' then
        (case acc of
           [] \<Rightarrow> cleanParts rooted (if rooted then [] else [''..'']) ps
         | a # as \<Rightarrow> cleanParts rooted (if a = ''..'' then ''..'' # acc else as) ps)
      else cleanParts rooted (p # acc) ps)"

definition pathClean :: "string \<Rightarrow> string" where
  "pathClean s =
     (if s = '''' then ''.''
      else
        (let rooted = HasPrefix s ''/'';
             body = Join ''/'' (cleanParts rooted [] (Split (CHR ''/'') s))
         in if rooted then ''/'' @ body else if body = '''' then ''.'' else body))"

definition pathJoin :: "string list \<Rightarrow> string" where
  "pathJoin elem =
     (let rest = dropWhile (\<lambda>e. e = '''') elem in if rest = [] then '''' else pathClean (Join ''/'' rest))"

section \<open>Properties\<close>

lemma length_RewriteScheme [simp]: "length (RewriteScheme us a b) = length us"
  by (simp add: RewriteScheme_def)

text \<open>Rewriting http to https leaves no http URL, and a second rewriting changes nothing.\<close>

lemma rewrite_https_no_http: "u \<in> set (RewriteScheme us ''http://'' ''https://'') \<Longrightarrow> \<not> HasPrefix u ''http://''"
  by (auto simp: RewriteScheme_def HasPrefix_def TrimPrefix_def)

lemma rewrite_https_idem:
  "RewriteScheme (RewriteScheme us ''http://'' ''https://'') ''http://'' ''https://'' =
     RewriteScheme us ''http://'' ''https://''"
proof -
  have "RewriteScheme vs a b = vs" if "\<And>u. u \<in> set vs \<Longrightarrow> \<not> HasPrefix u a" for vs a b
    using that by (simp add: RewriteScheme_def map_idI)
  then show ?thesis using rewrite_https_no_http by blast
qed

text \<open>A directory below an absolute base, named by one plain element.\<close>

definition plainElem :: "string \<Rightarrow> bool" where
  "plainElem e \<longleftrightarrow> e \<noteq> '''' \<and> e \<noteq> ''.'' \<and> e \<noteq> ''..'' \<and> CHR ''/'' \<notin> set e"

lemma cleanParts_plain: "\<forall>p \<in> set ps. plainElem p \<Longrightarrow> cleanParts r acc ps = rev acc @ ps"
  by (induction ps arbitrary: acc) (auto simp: plainElem_def)

end
