(* ===== verification/EtcdProcess.thy ===== *)
theory EtcdProcess
  imports EtcdApi Versions
begin

text \<open>
  The etcd process that a node runs (\<open>pkg/etcd/etcdprocess.go\<close>, \<open>pkg/etcd/pki.go\<close>): where its binary
  is found, the environment and the arguments it is started with, the certificates that are
  issued for it, and the client URLs that reach it. The operating system, URL and IP parsing,
  the starting of commands and the issuing of keypairs are the parameter \<open>nodeos\<close>. An IP address is the
  string that \<open>IP.String\<close> prints.
\<close>

section \<open>The operating system\<close>

datatype fstat = StatOk | StatNotExist | StatError

record url =
  urlScheme :: string
  urlHostname :: string
  urlPort :: string
  urlWithHost :: "string \<Rightarrow> string"

datatype usage = ExtKeyUsageClientAuth | ExtKeyUsageServerAuth

record certConfig =
  CommonName :: string
  DNSNames :: "string list"
  IPs :: "string list"
  Usages :: "usage list"

record command =
  cmdPath :: string
  cmdArgs :: "string list"
  cmdDir :: string
  cmdEnv :: "string list"

record nodeos =
  baseDirs :: "string list"
  isTest :: bool
  GOOS :: string
  GOARCH :: string
  osStat :: "string \<Rightarrow> fstat"
  environ :: "string list"
  urlParse :: "string \<Rightarrow> url option"
  ParseIP :: "string \<Rightarrow> string option"
  startError :: "command \<Rightarrow> goerr option"
  waitError :: "command \<Rightarrow> goerr option"
  exitSuccess :: "command \<Rightarrow> bool"
  writeCABundle :: "string \<Rightarrow> goerr option"
  ensureKeypairError :: "string \<Rightarrow> string \<Rightarrow> certConfig \<Rightarrow> goerr option"
  clientError :: "string list \<Rightarrow> goerr option"
  envOrder :: "nat list"

section \<open>The process\<close>

record etcdProcess =
  BinDir :: string
  DataDir :: string
  CurrentDir :: string
  PKIPeersDir :: string
  PKIClientsDir :: string
  etcdClientTLSConfig :: bool
  EtcdVersion :: string
  CreateNewCluster :: bool
  ForceNewCluster :: bool
  ProcCluster :: EtcdCluster
  MyNodeName :: string
  ProcQuarantined :: bool
  DisableTLS :: bool
  cmd :: "command option"
  ListenAddress :: string
  ListenMetricsURLs :: "string list"
  IgnoreListenMetricsURLs :: bool

subsection \<open>The binary\<close>

definition underscored :: "string \<Rightarrow> string" where
  "underscored s = map (\<lambda>c. if c = CHR ''.'' then CHR ''_'' else c) s"

definition candidateBinDirs :: "nodeos \<Rightarrow> string \<Rightarrow> string \<Rightarrow> string list" where
  "candidateBinDirs os etcdVersion c =
     map (\<lambda>baseDir. pathJoin [baseDir, ''etcd-'' @ etcdVersion]) (baseDirs os) @
     (if isTest os then
        concat (map (\<lambda>baseDir.
          let source = ''etcd_'' @ underscored etcdVersion @ ''_source''; platform = ''linux_amd64_stripped'' in
          [pathJoin [baseDir, ''etcd-'' @ etcdVersion @ ''-'' @ GOOS os @ ''-'' @ GOARCH os],
           pathJoin [baseDir, ''external'', source, platform],
           pathJoin [baseDir, ''external'', source, c, platform],
           pathJoin [baseDir, ''external'', source, c @ ''_''],
           pathJoin [baseDir, ''external'', source, c, c @ ''_'']]) (baseDirs os))
      else [])"

fun firstBinDir :: "nodeos \<Rightarrow> string \<Rightarrow> string list \<Rightarrow> goerr + string" where
  "firstBinDir os c [] = Inl (Errorf ''unknown etcd version'')"
| "firstBinDir os c (binDir # rest) =
     (case osStat os (pathJoin [binDir, c]) of
        StatNotExist \<Rightarrow> firstBinDir os c rest
      | StatError \<Rightarrow> Inl (Errorf ''error checking for binary'')
      | StatOk \<Rightarrow> Inr binDir)"

definition BindirForEtcdVersion :: "nodeos \<Rightarrow> string \<Rightarrow> string \<Rightarrow> goerr + string" where
  "BindirForEtcdVersion os etcdVersion c =
     (let v = (if HasPrefix etcdVersion ''v'' then etcdVersion else ''v'' @ etcdVersion)
      in firstBinDir os c (candidateBinDirs os v c))"

subsection \<open>Certificates\<close>

fun addUrlNames :: "nodeos \<Rightarrow> string list \<Rightarrow> certConfig \<Rightarrow> goerr + certConfig" where
  "addUrlNames os [] cfg = Inr cfg"
| "addUrlNames os (urlString # rest) cfg =
     (case urlParse os urlString of
        None \<Rightarrow> Inl (Errorf ''cannot parse url'')
      | Some u \<Rightarrow>
          if urlScheme u = ''http'' \<or> urlScheme u = ''https'' then
            (case ParseIP os (urlHostname u) of
               None \<Rightarrow> addUrlNames os rest (cfg\<lparr>DNSNames := DNSNames cfg @ [urlHostname u]\<rparr>)
             | Some ip \<Rightarrow> addUrlNames os rest (cfg\<lparr>IPs := IPs cfg @ [ip]\<rparr>))
          else if urlScheme u = ''unix'' \<or> urlScheme u = ''unixs'' then
            addUrlNames os rest (cfg\<lparr>DNSNames := DNSNames cfg @ [urlHostname u]\<rparr>)
          else Inl (Errorf ''unknown URL''))"

definition addLocalhost :: "certConfig \<Rightarrow> certConfig" where
  "addLocalhost cfg =
     (if ''127.0.0.1'' \<in> set (IPs cfg) then cfg
      else
        (let ips = IPs cfg @ [''127.0.0.1''] in
         if ''::1'' \<in> set ips then cfg\<lparr>IPs := ips\<rparr> else cfg\<lparr>IPs := ips @ [''::1'']\<rparr>))"

definition addAltNames :: "nodeos \<Rightarrow> certConfig \<Rightarrow> string list \<Rightarrow> goerr + certConfig" where
  "addAltNames os cfg urls =
     (case addUrlNames os urls cfg of Inl e \<Rightarrow> Inl e | Inr cfg' \<Rightarrow> Inr (addLocalhost cfg'))"

fun removeDuplicateFrom :: "string list \<Rightarrow> string list \<Rightarrow> string list" where
  "removeDuplicateFrom m [] = []"
| "removeDuplicateFrom m (ip # ips) =
     (if ip \<in> set m then removeDuplicateFrom m ips else ip # removeDuplicateFrom (ip # m) ips)"

definition removeDuplicateIPs :: "string list \<Rightarrow> string list" where
  "removeDuplicateIPs ips = removeDuplicateFrom [] ips"

text \<open>
  \<open>createKeypairs\<close>: the process with its PKI directories set, and the certificate requests
  (directory, name, configuration) that were made, the requests even if it fails.
\<close>

type_synonym certRequest = "string \<times> string \<times> certConfig"

definition ensureKeypairIn :: "nodeos \<Rightarrow> string \<Rightarrow> string \<Rightarrow> certConfig \<Rightarrow> (certRequest list, unit) prog" where
  "ensureKeypairIn os dir name cfg =
     seq (modify (\<lambda>rs. rs @ [(dir, name, cfg)]))
      (case ensureKeypairError os dir name cfg of Some e \<Rightarrow> fail e | None \<Rightarrow> ret ())"

definition altNames :: "nodeos \<Rightarrow> certConfig \<Rightarrow> string list \<Rightarrow> (certRequest list, certConfig) prog" where
  "altNames os cfg urls = (case addAltNames os cfg urls of Inl e \<Rightarrow> fail e | Inr c \<Rightarrow> ret c)"

definition createPeerKeypair :: "nodeos \<Rightarrow> string \<Rightarrow> EtcdNode \<Rightarrow> string list \<Rightarrow> (certRequest list, unit) prog" where
  "createPeerKeypair os peersDir me peerClientIPs =
     seq (case writeCABundle os peersDir of Some e \<Rightarrow> fail e | None \<Rightarrow> ret ())
      (bind (altNames os \<lparr>CommonName = Name me, DNSNames = [Name me], IPs = peerClientIPs,
                          Usages = [ExtKeyUsageClientAuth, ExtKeyUsageServerAuth]\<rparr> (PeerUrls me)) (\<lambda>cfg.
        ensureKeypairIn os peersDir ''me'' (cfg\<lparr>IPs := removeDuplicateIPs (IPs cfg)\<rparr>)))"

definition createServerKeypair :: "nodeos \<Rightarrow> string \<Rightarrow> EtcdNode \<Rightarrow> (certRequest list, unit) prog" where
  "createServerKeypair os clientsDir me =
     seq (case writeCABundle os clientsDir of Some e \<Rightarrow> fail e | None \<Rightarrow> ret ())
      (bind (altNames os \<lparr>CommonName = Name me, DNSNames = [Name me], IPs = [],
                          Usages = [ExtKeyUsageServerAuth, ExtKeyUsageClientAuth]\<rparr> (ClientUrls me)) (\<lambda>cfg.
       bind (altNames os cfg (PeerUrls me)) (\<lambda>cfg'. ensureKeypairIn os clientsDir ''server'' cfg')))"

definition createKeypairs ::
    "nodeos \<Rightarrow> bool \<Rightarrow> bool \<Rightarrow> string \<Rightarrow> EtcdNode \<Rightarrow> string list \<Rightarrow> etcdProcess \<Rightarrow> (certRequest list, etcdProcess) prog" where
  "createKeypairs os peersCA clientsCA pkiDir me peerClientIPs p =
     (let peersDir = pathJoin [pkiDir, ''peers'']; clientsDir = pathJoin [pkiDir, ''clients''];
          p1 = (if peersCA then p\<lparr>PKIPeersDir := peersDir\<rparr> else p);
          p2 = (if clientsCA then p1\<lparr>PKIClientsDir := clientsDir\<rparr> else p1)
      in seq (if peersCA then createPeerKeypair os peersDir me peerClientIPs else ret ())
         (if clientsCA then
            seq (createServerKeypair os clientsDir me)
             (seq (ensureKeypairIn os '''' ''client''
                     \<lparr>CommonName = Name me, DNSNames = [], IPs = [], Usages = [ExtKeyUsageClientAuth]\<rparr>)
               (ret (p2\<lparr>etcdClientTLSConfig := True\<rparr>)))
          else ret p2))"

subsection \<open>Starting etcd\<close>

definition findMyNode :: "etcdProcess \<Rightarrow> EtcdNode option" where
  "findMyNode p = fold (\<lambda>node me. if Name node = MyNodeName p then Some node else me) (Nodes (ProcCluster p)) None"

definition activeClientUrls :: "etcdProcess \<Rightarrow> EtcdNode \<Rightarrow> string list" where
  "activeClientUrls p me = (if ProcQuarantined p then QuarantinedClientUrls me else ClientUrls me)"

definition changeHost :: "nodeos \<Rightarrow> string list \<Rightarrow> string \<Rightarrow> string list" where
  "changeHost os urls host =
     map (\<lambda>s. case urlParse os s of
        None \<Rightarrow> s
      | Some u \<Rightarrow> urlWithHost u (if urlPort u \<noteq> '''' then JoinHostPort host (urlPort u) else host)) urls"

definition initialCluster :: "EtcdNode list \<Rightarrow> string" where
  "initialCluster nodes = Join '','' (map (\<lambda>node. Name node @ ''='' @ Join '','' (PeerUrls node)) nodes)"

definition setIf :: "bool \<Rightarrow> string \<Rightarrow> string \<Rightarrow> (string \<times> string) list \<Rightarrow> (string \<times> string) list" where
  "setIf b k v env = (if b then put k v env else env)"

definition etcdEnvironment :: "nodeos \<Rightarrow> etcdProcess \<Rightarrow> EtcdNode \<Rightarrow> (string \<times> string) list" where
  "etcdEnvironment os p me =
     (let clientUrls = activeClientUrls p me; peers = PKIPeersDir p; clients = PKIClientsDir p;
          v35 = (case ParseTolerant (EtcdVersion p) of Some v \<Rightarrow> Major v = 3 \<and> Minor v = 5 | None \<Rightarrow> False)
      in ( setIf v35 ''ETCD_EXPERIMENTAL_INITIAL_CORRUPT_CHECK'' ''true''
         \<circ> setIf (clients \<noteq> '''') ''ETCD_KEY_FILE'' (pathJoin [clients, ''server.key''])
         \<circ> setIf (clients \<noteq> '''') ''ETCD_CERT_FILE'' (pathJoin [clients, ''server.crt''])
         \<circ> setIf (clients \<noteq> '''') ''ETCD_TRUSTED_CA_FILE'' (pathJoin [clients, ''ca.crt''])
         \<circ> setIf (clients \<noteq> '''') ''ETCD_CLIENT_CERT_AUTH'' ''true''
         \<circ> setIf (peers \<noteq> '''') ''ETCD_PEER_KEY_FILE'' (pathJoin [peers, ''me.key''])
         \<circ> setIf (peers \<noteq> '''') ''ETCD_PEER_CERT_FILE'' (pathJoin [peers, ''me.crt''])
         \<circ> setIf (peers \<noteq> '''') ''ETCD_PEER_TRUSTED_CA_FILE'' (pathJoin [peers, ''ca.crt''])
         \<circ> setIf (peers \<noteq> '''') ''ETCD_PEER_CLIENT_CERT_AUTH'' ''true''
         \<circ> put ''ETCD_STRICT_RECONFIG_CHECK'' ''true''
         \<circ> put ''ETCD_INITIAL_CLUSTER'' (initialCluster (Nodes (ProcCluster p)))
         \<circ> setIf (ClusterToken (ProcCluster p) \<noteq> '''') ''ETCD_INITIAL_CLUSTER_TOKEN'' (ClusterToken (ProcCluster p))
         \<circ> put ''ETCD_NAME'' (MyNodeName p)
         \<circ> put ''ETCD_ENABLE_V2'' ''false''
         \<circ> put ''ETCD_INITIAL_CLUSTER_STATE'' (if CreateNewCluster p then ''new'' else ''existing'')
         \<circ> setIf (ListenMetricsURLs p \<noteq> []) ''ETCD_LISTEN_METRICS_URLS'' (Join '','' (ListenMetricsURLs p))
         \<circ> put ''ETCD_INITIAL_ADVERTISE_PEER_URLS'' (Join '','' (PeerUrls me))
         \<circ> put ''ETCD_ADVERTISE_CLIENT_URLS'' (Join '','' clientUrls)
         \<circ> put ''ETCD_LISTEN_CLIENT_URLS'' (Join '','' (changeHost os clientUrls (ListenAddress p)))
         \<circ> put ''ETCD_LISTEN_PEER_URLS'' (Join '','' (changeHost os (PeerUrls me) (ListenAddress p)))
         \<circ> put ''ETCD_LOG_OUTPUTS'' ''stdout''
         \<circ> put ''ETCD_LOGGER'' ''zap''
         \<circ> put ''ETCD_DATA_DIR'' (DataDir p)) [])"

text \<open>
  The overrides from the manager's own environment: an entry without an equals sign would index
  past the end of the split pair.
\<close>

fun applyOverrides :: "string list \<Rightarrow> (string \<times> string) list \<Rightarrow> (string \<times> string) list outcome" where
  "applyOverrides [] env = Ret env"
| "applyOverrides (e # es) env =
     (if HasPrefix e ''ETCD_'' then
        (case Cut (CHR ''='') e of
           (k, None) \<Rightarrow> Crash ''index out of range''
         | (k, Some v) \<Rightarrow> applyOverrides es (put k v env))
      else applyOverrides es env)"

definition Start :: "nodeos \<Rightarrow> etcdProcess \<Rightarrow> etcdProcess outcome" where
  "Start os p =
     (case findMyNode p of
        None \<Rightarrow> Err (Errorf ''unable to find self node'')
      | Some me \<Rightarrow>
          (case applyOverrides (environ os) (etcdEnvironment os p me) of
             Err e \<Rightarrow> Err e
           | Crash m \<Rightarrow> Crash m
           | Ret env \<Rightarrow>
               (let env' = (if IgnoreListenMetricsURLs p
                            then filter (\<lambda>(k, v). k \<noteq> ''ETCD_LISTEN_METRICS_URLS'') env else env);
                    binary = pathJoin [BinDir p, ''etcd''];
                    c = \<lparr>cmdPath = binary,
                         cmdArgs = binary # (if ForceNewCluster p then [''--force-new-cluster''] else []),
                         cmdDir = CurrentDir p,
                         cmdEnv = map (\<lambda>(k, v). k @ ''='' @ v) (go_range (envOrder os) env')\<rparr>
                in case startError os c of
                     Some e \<Rightarrow> Err (Wrapf ''error starting etcd'' e)
                   | None \<Rightarrow> Ret (p\<lparr>cmd := Some c\<rparr>))))"

text \<open>
  \<open>Stop\<close>: \<open>killError\<close> is the result of the kill, \<open>hasExited\<close> whether the exit state is already
  recorded. After a successful kill the loop polls until the exit state appears, which the
  operating system guarantees for a killed process.
\<close>

definition Stop :: "goerr option \<Rightarrow> bool \<Rightarrow> etcdProcess \<Rightarrow> goerr option" where
  "Stop killError hasExited p =
     (if cmd p = None then None
      else (case killError of
              Some e \<Rightarrow> if hasExited then None else Some (Wrapf ''failed to kill process'' e)
            | None \<Rightarrow> None))"

subsection \<open>Clients of the process\<close>

definition socketScheme :: "string \<Rightarrow> string" where
  "socketScheme u = (if HasPrefix u ''unix://'' then ''unix'' else if HasPrefix u ''unixs://'' then ''unixs'' else '''')"

definition absoluteSocket :: "string \<Rightarrow> string \<Rightarrow> goerr + string" where
  "absoluteSocket currentDir clientURL =
     (let scheme = socketScheme clientURL in
      if scheme = '''' then Inr clientURL
      else if HasPrefix clientURL (scheme @ '':///'') then Inr clientURL
      else
        (let path = TrimPrefix clientURL (scheme @ ''://'') in
         if currentDir = '''' then Inl (Errorf ''clientURL was set to relative path'')
         else if \<not> HasPrefix currentDir ''/'' then Inl (Errorf ''process directory was not absolute'')
         else Inr (scheme @ ''://'' @ pathJoin [currentDir, path])))"

text \<open>The URLs are rewritten in place, so the ones before an error stay rewritten.\<close>

fun absoluteSockets :: "string \<Rightarrow> string list \<Rightarrow> goerr option \<times> string list" where
  "absoluteSockets dir [] = (None, [])"
| "absoluteSockets dir (u # us) =
     (case absoluteSocket dir u of
        Inl e \<Rightarrow> (Some e, u # us)
      | Inr v \<Rightarrow> (case absoluteSockets dir us of (r, vs) \<Rightarrow> (r, v # vs)))"

definition setActiveClientUrls :: "etcdProcess \<Rightarrow> string list \<Rightarrow> EtcdNode \<Rightarrow> EtcdNode" where
  "setActiveClientUrls p urls me =
     (if ProcQuarantined p then me\<lparr>QuarantinedClientUrls := urls\<rparr> else me\<lparr>ClientUrls := urls\<rparr>)"

fun updateLast :: "('a \<Rightarrow> bool) \<Rightarrow> ('a \<Rightarrow> 'a) \<Rightarrow> 'a list \<Rightarrow> 'a list" where
  "updateLast P f [] = []"
| "updateLast P f (x # xs) = (if P x \<and> \<not> list_ex P xs then f x # xs else x # updateLast P f xs)"

text \<open>\<open>etcdclient.NewClient\<close>: a client is the list of its endpoints.\<close>

definition clientFor :: "nodeos \<Rightarrow> string list \<Rightarrow> goerr + string list" where
  "clientFor os endpoints =
     (if endpoints = [] then Inl (Errorf ''no endpoints provided'')
      else (case clientError os endpoints of
              Some e \<Rightarrow> Inl (Wrapf ''error building etcd client'' e)
            | None \<Rightarrow> Inr endpoints))"

definition NewClient :: "nodeos \<Rightarrow> etcdProcess \<Rightarrow> (goerr + string list) \<times> etcdProcess" where
  "NewClient os p =
     (case findMyNode p of
        None \<Rightarrow> (Inl (Errorf ''unable to find self node''), p)
      | Some me \<Rightarrow>
          (case absoluteSockets (CurrentDir p) (activeClientUrls p me) of
             (r, urls) \<Rightarrow>
               (let nodes = updateLast (\<lambda>n. Name n = MyNodeName p) (setActiveClientUrls p urls) (Nodes (ProcCluster p));
                    p' = p\<lparr>ProcCluster := (ProcCluster p)\<lparr>Nodes := nodes\<rparr>\<rparr>
                in (case r of
                      Some e \<Rightarrow> Inl e
                    | None \<Rightarrow> clientFor os urls, p'))))"

definition RestoreV3Snapshot :: "nodeos \<Rightarrow> string \<Rightarrow> etcdProcess \<Rightarrow> goerr option" where
  "RestoreV3Snapshot os snapshotFile p =
     (case findMyNode p of
        None \<Rightarrow> Some (Errorf ''unable to find self node'')
      | Some me \<Rightarrow>
          (let binary = pathJoin [BinDir p, ''etcdctl''];
               c = \<lparr>cmdPath = binary,
                    cmdArgs = [binary, ''snapshot'', ''restore'', snapshotFile, ''--name'', Name me,
                      ''--initial-cluster'', initialCluster (Nodes (ProcCluster p)),
                      ''--initial-cluster-token'', ClusterToken (ProcCluster p),
                      ''--initial-advertise-peer-urls'', Join '','' (PeerUrls me),
                      ''--data-dir'', DataDir p],
                    cmdDir = '''', cmdEnv = [''ETCDCTL_API=3'']\<rparr>
           in case startError os c of
                Some e \<Rightarrow> Some (Wrapf ''error running etcdctl snapshot restore'' e)
              | None \<Rightarrow>
                  (case waitError os c of
                     Some e \<Rightarrow> Some (Wrapf ''etcdctl snapshot restore returned an error'' e)
                   | None \<Rightarrow>
                       if \<not> exitSuccess os c
                       then Some (Errorf ''etcdctl snapshot restore returned a non-zero exit code'')
                       else None)))"

section \<open>Certificates cover the URLs\<close>

lemma removeDuplicateFrom_spec:
  "distinct (removeDuplicateFrom m ips) \<and> set (removeDuplicateFrom m ips) = set ips - set m"
  by (induction m ips rule: removeDuplicateFrom.induct) auto

lemma removeDuplicateIPs_spec: "distinct (removeDuplicateIPs ips)" "set (removeDuplicateIPs ips) = set ips"
  by (simp_all add: removeDuplicateIPs_def removeDuplicateFrom_spec)

lemma removeDuplicateFrom_fresh: "distinct ips \<Longrightarrow> set ips \<inter> set m = {} \<Longrightarrow> removeDuplicateFrom m ips = ips"
  by (induction m ips rule: removeDuplicateFrom.induct) auto

lemma removeDuplicateIPs_idem: "removeDuplicateIPs (removeDuplicateIPs ips) = removeDuplicateIPs ips"
  using removeDuplicateFrom_fresh [of "removeDuplicateIPs ips" "[]"] removeDuplicateIPs_spec(1)
  by (simp add: removeDuplicateIPs_def)

text \<open>\<open>covers os cfg u\<close>: the certificate is valid for the host of the URL.\<close>

definition covers :: "nodeos \<Rightarrow> certConfig \<Rightarrow> string \<Rightarrow> bool" where
  "covers os cfg urlString =
     (case urlParse os urlString of
        None \<Rightarrow> False
      | Some u \<Rightarrow>
          (case ParseIP os (urlHostname u) of
             None \<Rightarrow> urlHostname u \<in> set (DNSNames cfg)
           | Some ip \<Rightarrow> if urlScheme u = ''unix'' \<or> urlScheme u = ''unixs'' then urlHostname u \<in> set (DNSNames cfg)
                        else ip \<in> set (IPs cfg)))"

definition extends :: "certConfig \<Rightarrow> certConfig \<Rightarrow> bool" where
  "extends cfg cfg' \<longleftrightarrow> CommonName cfg' = CommonName cfg \<and> Usages cfg' = Usages cfg \<and>
     set (DNSNames cfg) \<subseteq> set (DNSNames cfg') \<and> set (IPs cfg) \<subseteq> set (IPs cfg')"

lemma extends_refl [simp]: "extends c c" by (simp add: extends_def)
lemma extends_trans: "extends a b \<Longrightarrow> extends b c \<Longrightarrow> extends a c" by (auto simp: extends_def)

lemma covers_extends: "covers os c u \<Longrightarrow> extends c c' \<Longrightarrow> covers os c' u"
  by (auto simp: covers_def extends_def split: option.splits if_splits)

lemma addUrlNames_covers:
  "addUrlNames os urls cfg = Inr cfg' \<Longrightarrow> extends cfg cfg' \<and> (\<forall>u \<in> set urls. covers os cfg' u)"
proof (induction urls arbitrary: cfg)
  case (Cons u us)
  then obtain v where v: "urlParse os u = Some v" by (auto split: option.splits)
  let ?dns = "cfg\<lparr>DNSNames := DNSNames cfg @ [urlHostname v]\<rparr>"
  have dns: "extends cfg ?dns" by (auto simp: extends_def)
  have ip: "extends cfg (cfg\<lparr>IPs := IPs cfg @ [i]\<rparr>)" for i by (auto simp: extends_def)
  from Cons.prems v consider
      (dns) "addUrlNames os us ?dns = Inr cfg'" "covers os ?dns u"
    | (ip) i where "addUrlNames os us (cfg\<lparr>IPs := IPs cfg @ [i]\<rparr>) = Inr cfg'" "covers os (cfg\<lparr>IPs := IPs cfg @ [i]\<rparr>) u"
    by (force simp: covers_def split: if_splits option.splits)
  then show ?case
  proof cases
    case dns': dns
    from Cons.IH [OF dns'(1)] dns'(2) dns show ?thesis by (auto intro: covers_extends extends_trans)
  next
    case ip': ip
    from Cons.IH [OF ip'(1)] ip'(2) ip show ?thesis by (auto intro: covers_extends extends_trans)
  qed
qed simp

lemma addAltNames_covers:
  assumes "addAltNames os cfg urls = Inr cfg'"
  shows "extends cfg cfg' \<and> (\<forall>u \<in> set urls. covers os cfg' u) \<and> ''127.0.0.1'' \<in> set (IPs cfg')"
proof -
  from assms obtain c where c: "addUrlNames os urls cfg = Inr c" "cfg' = addLocalhost c"
    by (auto simp: addAltNames_def split: sum.splits)
  have "extends c cfg'" "''127.0.0.1'' \<in> set (IPs cfg')"
    by (auto simp: c(2) addLocalhost_def Let_def extends_def)
  with addUrlNames_covers [OF c(1)]
  show ?thesis
    by (auto intro: covers_extends extends_trans)
qed

lemma covers_removeDuplicates: "covers os (cfg\<lparr>IPs := removeDuplicateIPs (IPs cfg)\<rparr>) u = covers os cfg u"
  by (simp add: covers_def removeDuplicateIPs_spec split: option.split)

text \<open>
  When the keypairs of a process are created, the peer certificate is valid for every peer URL
  and the server certificate for every client and peer URL; both are valid for localhost.
\<close>

definition certFor :: "nodeos \<Rightarrow> certConfig \<Rightarrow> EtcdNode \<Rightarrow> string list \<Rightarrow> bool" where
  "certFor os cfg me urls \<longleftrightarrow> CommonName cfg = Name me \<and> (\<forall>u \<in> set urls. covers os cfg u) \<and>
     ''127.0.0.1'' \<in> set (IPs cfg) \<and> set (Usages cfg) = {ExtKeyUsageClientAuth, ExtKeyUsageServerAuth}"

lemma createPeerKeypair_cert:
  "wp (createPeerKeypair os dir me ips)
     (\<lambda>r rs'. case r of Ret _ \<Rightarrow> (\<exists>cfg. rs' = rs @ [(dir, ''me'', cfg)] \<and> certFor os cfg me (PeerUrls me) \<and>
        distinct (IPs cfg) \<and> set ips \<subseteq> set (IPs cfg)) | _ \<Rightarrow> True) rs"
  unfolding createPeerKeypair_def altNames_def ensureKeypairIn_def
  by (simp add: wp_simps split: option.split sum.split)
     (auto dest!: addAltNames_covers simp: certFor_def covers_removeDuplicates removeDuplicateIPs_spec extends_def)

lemma createServerKeypair_cert:
  "wp (createServerKeypair os dir me)
     (\<lambda>r rs'. case r of Ret _ \<Rightarrow> (\<exists>cfg. rs' = rs @ [(dir, ''server'', cfg)] \<and>
        certFor os cfg me (ClientUrls me @ PeerUrls me)) | _ \<Rightarrow> True) rs"
proof -
  have "certFor os c2 me (ClientUrls me @ PeerUrls me)"
    if "addAltNames os \<lparr>CommonName = Name me, DNSNames = [Name me], IPs = [],
          Usages = [ExtKeyUsageServerAuth, ExtKeyUsageClientAuth]\<rparr> (ClientUrls me) = Inr c1"
      and "addAltNames os c1 (PeerUrls me) = Inr c2" for c1 c2
    using addAltNames_covers [OF that(1)] addAltNames_covers [OF that(2)]
    by (auto simp: certFor_def extends_def intro: covers_extends)
  then show ?thesis
    by (simp add: createServerKeypair_def altNames_def ensureKeypairIn_def wp_simps split: option.split sum.split)
qed


definition exampleOs :: nodeos where
  "exampleOs = \<lparr>baseDirs = [''/opt''], isTest = False, GOOS = ''linux'', GOARCH = ''amd64'',
     osStat = (\<lambda>f. if f = ''/opt/etcd-v3.5.7/etcd'' then StatOk else StatNotExist),
     environ = [''HOME=/root'', ''ETCD_QUOTA_BACKEND_BYTES=8589934592''],
     urlParse = (\<lambda>s. if HasPrefix s ''https://'' then
        (case Cut (CHR '':'') (TrimPrefix s ''https://'') of
           (h, port) \<Rightarrow> Some \<lparr>urlScheme = ''https'', urlHostname = h,
              urlPort = (case port of None \<Rightarrow> '''' | Some q \<Rightarrow> q), urlWithHost = (\<lambda>hp. ''https://'' @ hp)\<rparr>) else None),
     ParseIP = (\<lambda>h. if h \<noteq> '''' \<and> list_all (\<lambda>c. isDigit c \<or> c = CHR ''.'') h then Some h else None),
     startError = (\<lambda>_. None), waitError = (\<lambda>_. None), exitSuccess = (\<lambda>_. True),
     writeCABundle = (\<lambda>_. None), ensureKeypairError = (\<lambda>_ _ _. None), clientError = (\<lambda>_. None), envOrder = []\<rparr>"

definition exampleNode :: EtcdNode where
  "exampleNode = \<lparr>Name = ''etcd-a'', PeerUrls = [''https://etcd-a.internal:2380''], ClientUrls = [''https://etcd-a.internal:4001''],
     QuarantinedClientUrls = [''https://etcd-a.internal:3994''], TlsEnabled = True\<rparr>"

definition exampleProcess :: etcdProcess where
  "exampleProcess = \<lparr>BinDir = ''/opt/etcd-v3.5.7'', DataDir = ''/data/token'', CurrentDir = '''', PKIPeersDir = '''',
     PKIClientsDir = '''', etcdClientTLSConfig = False, EtcdVersion = ''3.5.7'', CreateNewCluster = True,
     ForceNewCluster = False,
     ProcCluster = \<lparr>DesiredClusterSize = 0, ClusterToken = ''token'', Nodes = [exampleNode]\<rparr>,
     MyNodeName = ''etcd-a'', ProcQuarantined = True, DisableTLS = False, cmd = None, ListenAddress = ''0.0.0.0'',
     ListenMetricsURLs = [], IgnoreListenMetricsURLs = False\<rparr>"


section \<open>The environment of etcd\<close>

lemma map_of_setIf [simp]: "map_of (setIf b k v env) = (if b then (map_of env)(k \<mapsto> v) else map_of env)"
  by (simp add: setIf_def)

lemma distinct_setIf [simp]: "distinct (map fst env) \<Longrightarrow> distinct (map fst (setIf b k v env))"
  by (simp add: setIf_def)

lemma distinct_etcdEnvironment [simp]: "distinct (map fst (etcdEnvironment os p me))"
  unfolding etcdEnvironment_def Let_def comp_apply by (intro distinct_setIf distinct_put) simp

lemma applyOverrides_distinct: "applyOverrides es env = Ret env' \<Longrightarrow> distinct (map fst env) \<Longrightarrow> distinct (map fst env')"
  by (induction es env rule: applyOverrides.induct) (auto split: if_splits prod.splits option.splits)

text \<open>The key that an entry of the manager's environment overrides, if it does.\<close>

definition overridesKey :: "string \<Rightarrow> string \<Rightarrow> bool" where
  "overridesKey e k \<longleftrightarrow> HasPrefix e ''ETCD_'' \<and> fst (Cut (CHR ''='') e) = k"

lemma applyOverrides_other:
  "applyOverrides es env = Ret env' \<Longrightarrow> \<not> list_ex (\<lambda>e. overridesKey e k) es \<Longrightarrow> map_of env' k = map_of env k"
  by (induction es env rule: applyOverrides.induct) (auto simp: overridesKey_def split: if_splits prod.splits option.splits)

lemma map_of_filter_key: "k \<noteq> k' \<Longrightarrow> map_of (filter (\<lambda>(a, b). a \<noteq> k') m) k = map_of m k"
  by (induction m) auto

lemma StartE:
  assumes "Start os p = Ret p'"
  obtains me env c where "findMyNode p = Some me" "applyOverrides (environ os) (etcdEnvironment os p me) = Ret env"
    "p' = p\<lparr>cmd := Some c\<rparr>" "cmdPath c = pathJoin [BinDir p, ''etcd'']" "cmdDir c = CurrentDir p"
    "cmdEnv c = map (\<lambda>(k, v). k @ ''='' @ v) (go_range (envOrder os)
       (if IgnoreListenMetricsURLs p then filter (\<lambda>(k, v). k \<noteq> ''ETCD_LISTEN_METRICS_URLS'') env else env))"
  using assms by (auto simp: Start_def Let_def split: option.splits outcome.splits)

lemma start_env_entry:
  assumes start: "Start os p = Ret p'" and me: "findMyNode p = Some me"
    and k: "k \<noteq> ''ETCD_LISTEN_METRICS_URLS''" "\<not> list_ex (\<lambda>e. overridesKey e k) (environ os)"
    and v: "map_of (etcdEnvironment os p me) k = Some v"
  shows "\<exists>c. cmd p' = Some c \<and> k @ ''='' @ v \<in> set (cmdEnv c)"
proof -
  from start obtain me' env c where "findMyNode p = Some me'"
    and env: "applyOverrides (environ os) (etcdEnvironment os p me') = Ret env" and p': "p' = p\<lparr>cmd := Some c\<rparr>"
    and c: "cmdEnv c = map (\<lambda>(k, v). k @ ''='' @ v) (go_range (envOrder os)
       (if IgnoreListenMetricsURLs p then filter (\<lambda>(k, v). k \<noteq> ''ETCD_LISTEN_METRICS_URLS'') env else env))"
    by (rule StartE)
  with me have "map_of env k = Some v" using applyOverrides_other [OF env k(2)] v by simp
  then have "(k, v) \<in> set (if IgnoreListenMetricsURLs p then filter (\<lambda>(k, v). k \<noteq> ''ETCD_LISTEN_METRICS_URLS'') env else env)"
    using k(1) by (auto dest: map_of_SomeD)
  then have "k @ ''='' @ v \<in> set (cmdEnv c)" unfolding c set_map set_go_range by force
  then show ?thesis by (simp add: p')
qed

definition plainKey :: "string \<Rightarrow> bool" where
  "plainKey k \<longleftrightarrow> CHR ''='' \<notin> set k"

definition plainKeys :: "(string \<times> string) list \<Rightarrow> bool" where
  "plainKeys env \<longleftrightarrow> fst ` set env \<subseteq> Collect plainKey"

lemma plain_put [simp]: "plainKeys (put k v env) \<longleftrightarrow> plainKey k \<and> plainKeys env"
  by (simp add: plainKeys_def)

lemma plain_setIf: "plainKey k \<Longrightarrow> plainKeys env \<Longrightarrow> plainKeys (setIf b k v env)"
  by (simp add: setIf_def)

lemma plain_etcdEnvironment: "plainKeys (etcdEnvironment os p me)"
proof -
  have "plainKeys []" by (simp add: plainKeys_def)
  then show ?thesis
    unfolding etcdEnvironment_def Let_def comp_apply by (simp add: plainKey_def plain_setIf)
qed

lemma Cut_plain: "CHR ''='' \<notin> set (fst (Cut (CHR ''='') e))"
  by (induction e) (auto split: prod.splits)

lemma applyOverrides_plain: "applyOverrides es env = Ret env' \<Longrightarrow> plainKeys env \<Longrightarrow> plainKeys env'"
proof (induction es env rule: applyOverrides.induct)
  case (2 e es env)
  then show ?case using Cut_plain [of e]
    by (auto simp: plainKey_def split: if_splits prod.splits option.splits)
qed simp

lemma start_env_distinct:
  assumes start: "Start os p = Ret p'" and c: "cmd p' = Some c"
  shows "distinct (map (\<lambda>e. fst (Cut (CHR ''='') e)) (cmdEnv c))"
proof -
  from start obtain me env d where
    env: "applyOverrides (environ os) (etcdEnvironment os p me) = Ret env" and p': "p' = p\<lparr>cmd := Some d\<rparr>"
    and d: "cmdEnv d = map (\<lambda>(k, v). k @ ''='' @ v) (go_range (envOrder os)
       (if IgnoreListenMetricsURLs p then filter (\<lambda>(k, v). k \<noteq> ''ETCD_LISTEN_METRICS_URLS'') env else env))"
      (is "_ = map _ (go_range _ ?env)")
    by (rule StartE)
  have plain: "\<forall>x \<in> set ?env. plainKey (fst x)"
    using applyOverrides_plain [OF env plain_etcdEnvironment] by (auto simp: plainKeys_def)
  have "distinct (map fst env)" by (rule applyOverrides_distinct [OF env]) simp
  then have "distinct (map fst ?env)" by (simp add: distinct_map_filter)
  moreover have "map (\<lambda>e. fst (Cut (CHR ''='') e)) (cmdEnv d) = map fst (go_range (envOrder os) ?env)"
    unfolding d map_map using plain
    by (intro map_cong refl) (auto simp: Cut_append plainKey_def simp del: Cut.simps)
  ultimately show ?thesis using c by (simp add: p')
qed



end
