(* ===== verification/Calendar.thy ===== *)
theory Calendar
  imports GoStrings GoTime
begin

text \<open>
  \<open>time.RFC3339\<close> as package time prints and parses it: the civil calendar, \<open>Format\<close> of a UTC time and
  \<open>Parse\<close>, and the round trip between them, which the names of backups and commands rely on.
  A parsed time carries the zone it was given in, since two times are the same map key
  only if their location is the same too.
\<close>

section \<open>The civil calendar\<close>

definition isLeap :: "int \<Rightarrow> bool" where
  "isLeap y \<longleftrightarrow> y mod 4 = 0 \<and> (y mod 100 \<noteq> 0 \<or> y mod 400 = 0)"

definition daysBeforeYear :: "int \<Rightarrow> int" where
  "daysBeforeYear y = 365 * (y - 1) + (y - 1) div 4 - (y - 1) div 100 + (y - 1) div 400"

definition daysBeforeMonth :: "int \<Rightarrow> int \<Rightarrow> int" where
  "daysBeforeMonth y m =
     (if m \<le> 1 then 0 else if m = 2 then 31 else
       (if m = 3 then 59 else if m = 4 then 90 else if m = 5 then 120 else if m = 6 then 151
        else if m = 7 then 181 else if m = 8 then 212 else if m = 9 then 243 else if m = 10 then 273
        else if m = 11 then 304 else if m = 12 then 334 else 365) + (if isLeap y then 1 else 0))"

definition daysIn :: "int \<Rightarrow> int \<Rightarrow> int" where
  "daysIn y m = daysBeforeMonth y (m + 1) - daysBeforeMonth y m"

text \<open>The year and the day of the year, counting cycles of 400, 100, 4 and 1 years.\<close>

definition fourParts :: "int \<Rightarrow> int \<Rightarrow> int \<times> int" where
  "fourParts k r = (let b = r div k; b = b - b div 4 in (b, r - k * b))"

definition yearDay :: "int \<Rightarrow> int \<times> int" where
  "yearDay d =
     (case fourParts 36524 (d mod 146097) of (b, r2) \<Rightarrow>
      case fourParts 365 (r2 mod 1461) of (e, r4) \<Rightarrow>
        (400 * (d div 146097) + 100 * b + 4 * (r2 div 1461) + e + 1, r4))"

fun monthFrom :: "nat \<Rightarrow> int \<Rightarrow> int \<Rightarrow> int" where
  "monthFrom 0 y yday = 1"
| "monthFrom (Suc m) y yday = (if daysBeforeMonth y (int (Suc m)) \<le> yday then int (Suc m) else monthFrom m y yday)"

definition civilDate :: "int \<Rightarrow> int \<times> int \<times> int" where
  "civilDate d =
     (let (y, yday) = yearDay d; m = monthFrom 12 y yday in (y, m, yday - daysBeforeMonth y m + 1))"

definition daysOfDate :: "int \<Rightarrow> int \<Rightarrow> int \<Rightarrow> int" where
  "daysOfDate y m d = daysBeforeYear y + daysBeforeMonth y m + (d - 1)"

section \<open>Formatting\<close>

definition pad2 :: "int \<Rightarrow> string" where
  "pad2 n = [digitChar (nat (n div 10)), digitChar (nat (n mod 10))]"

definition pad4 :: "int \<Rightarrow> string" where
  "pad4 n = pad2 (n div 100) @ pad2 (n mod 100)"

definition padYear :: "int \<Rightarrow> string" where
  "padYear y = (if y < 10000 then pad4 y else FormatUint (nat y))"

definition FormatRFC3339 :: "time \<Rightarrow> string" where
  "FormatRFC3339 t =
     (let secs = t div Second; sod = secs mod 86400 in
      case civilDate (secs div 86400) of (y, m, d) \<Rightarrow>
        padYear y @ ''-'' @ pad2 m @ ''-'' @ pad2 d @ ''T'' @
        pad2 (sod div 3600) @ '':'' @ pad2 (sod mod 3600 div 60) @ '':'' @ pad2 (sod mod 60) @ ''Z'')"

section \<open>Parsing\<close>

datatype zone = ZoneUTC | ZoneLocal | ZoneFixed string

type_synonym zonedTime = "time \<times> zone"

definition getnum2 :: "string \<Rightarrow> (int \<times> string) option" where
  "getnum2 s = (case s of
     a # b # rest \<Rightarrow> if isDigit a \<and> isDigit b then Some (int (10 * digitVal a + digitVal b), rest) else None
   | _ \<Rightarrow> None)"

text \<open>The hour is read with one digit if the second character is not a digit.\<close>

definition getnum :: "string \<Rightarrow> (int \<times> string) option" where
  "getnum s = (case s of
     [] \<Rightarrow> None
   | a # rest \<Rightarrow>
       if \<not> isDigit a then None
       else (case rest of
               b # rest' \<Rightarrow> if isDigit b then Some (int (10 * digitVal a + digitVal b), rest') else Some (int (digitVal a), rest)
             | [] \<Rightarrow> Some (int (digitVal a), [])))"

definition expect :: "char \<Rightarrow> string \<Rightarrow> string option" where
  "expect c s = (case s of x # rest \<Rightarrow> if x = c then Some rest else None | [] \<Rightarrow> None)"

definition parseFraction :: "string \<Rightarrow> int \<times> string" where
  "parseFraction s = (case s of
     p # a # rest \<Rightarrow>
       if (p = CHR ''.'' \<or> p = CHR '','') \<and> isDigit a then
         (let ds = a # takeWhile isDigit rest; ns = take 9 ds in
          (int (decimalAcc 0 ns) * 10 ^ (9 - length ns), dropWhile isDigit rest))
       else (0, s)
   | _ \<Rightarrow> (0, s))"

text \<open>\<open>localOffset\<close> is the offset in seconds of the machine's zone.\<close>

definition parseZone :: "int \<Rightarrow> string \<Rightarrow> string \<Rightarrow> (int \<times> zone) option" where
  "parseZone localOffset name s =
     (if s = ''Z'' then Some (0, ZoneUTC)
      else (case s of
        sign # rest \<Rightarrow>
          if sign \<noteq> CHR ''+'' \<and> sign \<noteq> CHR ''-'' then None
          else Option.bind (getnum2 rest) (\<lambda>(hh, r1).
               Option.bind (expect (CHR '':'') r1) (\<lambda>r2.
               Option.bind (getnum2 r2) (\<lambda>(mm, r3).
                 if r3 \<noteq> [] \<or> hh > 24 \<or> mm > 60 then None
                 else (let off = (if sign = CHR ''-'' then - 1 else 1) * (hh * 3600 + mm * 60)
                       in Some (off, if off = localOffset then ZoneLocal else ZoneFixed name)))))
      | [] \<Rightarrow> None))"

definition ParseRFC3339 :: "int \<Rightarrow> string \<Rightarrow> zonedTime option" where
  "ParseRFC3339 localOffset name =
     Option.bind (getnum2 name) (\<lambda>(y1, s). Option.bind (getnum2 s) (\<lambda>(y2, s).
     Option.bind (expect (CHR ''-'') s) (\<lambda>s. Option.bind (getnum2 s) (\<lambda>(mo, s).
     Option.bind (expect (CHR ''-'') s) (\<lambda>s. Option.bind (getnum2 s) (\<lambda>(d, s).
     Option.bind (expect (CHR ''T'') s) (\<lambda>s. Option.bind (getnum s) (\<lambda>(h, s).
     Option.bind (expect (CHR '':'') s) (\<lambda>s. Option.bind (getnum2 s) (\<lambda>(mi, s).
     Option.bind (expect (CHR '':'') s) (\<lambda>s. Option.bind (getnum2 s) (\<lambda>(sec, s).
       (case parseFraction s of (ns, s) \<Rightarrow>
        Option.bind (parseZone localOffset name s) (\<lambda>(off, z).
          let y = y1 * 100 + y2 in
          if mo < 1 \<or> mo > 12 \<or> d < 1 \<or> d > daysIn y mo \<or> h > 23 \<or> mi > 59 \<or> sec > 59 then None
          else Some ((daysOfDate y mo d * 86400 + h * 3600 + mi * 60 + sec - off) * Second + ns, z)))))))))))))))"

section \<open>The calendar is consistent\<close>

lemma daysBeforeYear_cycles:
  assumes "0 \<le> b" "b \<le> 3" "0 \<le> c" "c \<le> 24" "0 \<le> e" "e \<le> 3"
  shows "daysBeforeYear (400 * a + 100 * b + 4 * c + e + 1) = 146097 * a + 36524 * b + 1461 * c + 365 * e"
proof -
  have "(400 * a + 100 * b + 4 * c + e) div 4 = 100 * a + 25 * b + c"
    by (rule int_div_pos_eq [where r = e]) (use assms in simp_all)
  moreover have "(400 * a + 100 * b + 4 * c + e) div 100 = 4 * a + b"
    by (rule int_div_pos_eq [where r = "4 * c + e"]) (use assms in simp_all)
  moreover have "(400 * a + 100 * b + 4 * c + e) div 400 = a"
    by (rule int_div_pos_eq [where r = "100 * b + 4 * c + e"]) (use assms in simp_all)
  ultimately show ?thesis by (simp add: daysBeforeYear_def)
qed

lemma isLeap_cycles:
  assumes "0 \<le> b" "b \<le> 3" "0 \<le> c" "c \<le> 24" "0 \<le> e" "e \<le> 3"
  shows "isLeap (400 * a + 100 * b + 4 * c + e + 1) \<longleftrightarrow> e = 3 \<and> (c < 24 \<or> b = 3)"
proof (cases "e = 3")
  case False
  then have "(400 * a + 100 * b + 4 * c + e + 1) mod 4 = e + 1"
    by (intro int_mod_pos_eq [where q = "100 * a + 25 * b + c"]) (use assms in simp_all)
  with False assms show ?thesis by (simp add: isLeap_def)
next
  case True
  have 4: "(400 * a + 100 * b + 4 * c + e + 1) mod 4 = 0"
    by (rule int_mod_pos_eq [where q = "100 * a + 25 * b + c + 1"]) (use True in simp_all)
  show ?thesis
  proof (cases "c = 24")
    case False
    then have "(400 * a + 100 * b + 4 * c + e + 1) mod 100 = 4 * c + 4"
      by (intro int_mod_pos_eq [where q = "4 * a + b"]) (use assms True in simp_all)
    with 4 True False assms show ?thesis by (simp add: isLeap_def)
  next
    case c: True
    have 100: "(400 * a + 100 * b + 4 * c + e + 1) mod 100 = 0"
      by (rule int_mod_pos_eq [where q = "4 * a + b + 1"]) (use True c in simp_all)
    have "(400 * a + 100 * b + 4 * c + e + 1) mod 400 = (if b = 3 then 0 else 100 * b + 100)"
      by (cases "b = 3"; rule int_mod_pos_eq [where q = "if b = 3 then a + 1 else a"]) (use assms True c in simp_all)
    with 4 100 True c assms show ?thesis by (simp add: isLeap_def)
  qed
qed

text \<open>A cycle of four parts, the last of which may be one day longer.\<close>

lemma four_parts:
  assumes "0 \<le> r" "r \<le> 4 * k" "1 < k" and run: "fourParts k r = (b, r')"
  shows "0 \<le> b" "b \<le> 3" "0 \<le> r'" "r' \<le> (if b = 3 then k else k - 1)" "r = k * b + r'"
proof -
  define q where "q = r div k"
  have kq: "k * q \<le> r" "r < k * q + k"
    using assms(3) pos_mod_bound [of k r] pos_mod_sign [of k r] mult_div_mod_eq [of k r]
    unfolding q_def by linarith+
  have "0 \<le> q" using assms by (simp add: q_def pos_imp_zdiv_nonneg_iff)
  moreover have "q \<le> 4"
    using zdiv_mono1 [OF assms(2), of k] assms(3) by (simp add: q_def)
  ultimately consider "q = 0" | "q = 1" | "q = 2" | "q = 3" | "q = 4" by linarith
  then have "0 \<le> b \<and> b \<le> 3 \<and> 0 \<le> r' \<and> r' \<le> (if b = 3 then k else k - 1)"
    using kq assms(2) run unfolding fourParts_def Let_def q_def [symmetric] by cases auto
  then show "0 \<le> b" "b \<le> 3" "0 \<le> r'" "r' \<le> (if b = 3 then k else k - 1)" by blast+
  show "r = k * b + r'" using run by (auto simp: fourParts_def Let_def)
qed

lemma yearDay_spec:
  assumes "yearDay d = (y, yday)"
  shows "daysBeforeYear y + yday = d \<and> 0 \<le> yday \<and> yday < (if isLeap y then 366 else 365) \<and> (0 \<le> d \<longrightarrow> 1 \<le> y)"
proof -
  obtain b r2 where br: "fourParts 36524 (d mod 146097) = (b, r2)" by (cases "fourParts 36524 (d mod 146097)")
  obtain e r4 where er: "fourParts 365 (r2 mod 1461) = (e, r4)" by (cases "fourParts 365 (r2 mod 1461)")
  define a where "a = d div 146097"
  define r1 where "r1 = d mod 146097"
  define c where "c = r2 div 1461"
  define r3 where "r3 = r2 mod 1461"
  have y: "y = 400 * a + 100 * b + 4 * c + e + 1" and r: "yday = r4"
    using assms br er by (simp_all add: yearDay_def a_def c_def)
  have d: "d = 146097 * a + r1" by (simp add: a_def r1_def)
  have r1: "0 \<le> r1" "r1 \<le> 4 * 36524" using pos_mod_bound [of 146097 d] by (simp_all add: r1_def)
  note b = four_parts [OF r1 _ br [folded r1_def], simplified]
  have r2: "r2 = 1461 * c + r3" by (simp add: c_def r3_def)
  have c: "0 \<le> c" "0 \<le> r3" "r3 \<le> 4 * 365"
    using b(3) pos_mod_bound [of 1461 r2] by (simp_all add: c_def r3_def pos_imp_zdiv_nonneg_iff)
  have c24: "c \<le> 24" "c = 24 \<Longrightarrow> b < 3 \<Longrightarrow> r3 \<le> 1459" using r2 c b(4) by (simp_all split: if_splits)
  note e = four_parts [OF c(2,3) _ er [folded r3_def], simplified]
  have "r4 \<le> (if e = 3 \<and> (c < 24 \<or> b = 3) then 365 else 364)"
    using e(4,5) c24 b(2) by (cases "e = 3") auto
  moreover have "146097 * a + 36524 * b + 1461 * c + 365 * e + r4 = d"
    using d b(5) r2 e(5) by simp
  moreover have "0 \<le> d \<Longrightarrow> 0 \<le> a" by (simp add: a_def)
  ultimately show ?thesis
    using b(1) c(1) e(1,3) unfolding y r
      daysBeforeYear_cycles [OF b(1,2) c(1) c24(1) e(1,2)] isLeap_cycles [OF b(1,2) c(1) c24(1) e(1,2)]
    by (auto split: if_splits)
qed

lemma monthFrom_spec:
  "0 < m \<Longrightarrow> 0 \<le> yday \<Longrightarrow> 1 \<le> monthFrom m y yday \<and> monthFrom m y yday \<le> int m \<and>
     daysBeforeMonth y (monthFrom m y yday) \<le> yday \<and>
     (monthFrom m y yday < int m \<longrightarrow> yday < daysBeforeMonth y (monthFrom m y yday + 1))"
proof (induction m)
  case (Suc m)
  show ?case
  proof (cases m)
    case 0
    then show ?thesis using Suc.prems by (simp add: daysBeforeMonth_def)
  next
    case (Suc k)
    with Suc.IH Suc.prems show ?thesis by (auto simp: not_le)
  qed
qed simp

lemma civilDate_spec:
  assumes "civilDate n = (y, m, d)"
  shows "daysOfDate y m d = n \<and> 1 \<le> m \<and> m \<le> 12 \<and> 1 \<le> d \<and> d \<le> daysIn y m \<and> d \<le> 31"
proof -
  obtain yday where yd: "yearDay n = (y, yday)" and m: "m = monthFrom 12 y yday"
    and d: "d = yday - daysBeforeMonth y m + 1"
    using assms by (auto simp: civilDate_def Let_def split: prod.splits)
  from yearDay_spec [OF yd] have spec: "daysBeforeYear y + yday = n" "0 \<le> yday" "yday < (if isLeap y then 366 else 365)"
    by auto
  have mm: "1 \<le> m" "m \<le> 12" "daysBeforeMonth y m \<le> yday" "m < 12 \<Longrightarrow> yday < daysBeforeMonth y (m + 1)"
    using monthFrom_spec [of 12 yday y] spec(2) by (simp_all add: m)
  have "yday < daysBeforeMonth y (m + 1)"
  proof (cases "m < 12")
    case False
    with mm(2) have "m = 12" by simp
    then show ?thesis using spec(3) by (auto simp: daysBeforeMonth_def split: if_splits)
  qed (rule mm(4))
  moreover have "daysIn y m \<le> 31"
  proof -
    have "m = 1 \<or> m = 2 \<or> m = 3 \<or> m = 4 \<or> m = 5 \<or> m = 6 \<or> m = 7 \<or> m = 8 \<or> m = 9 \<or> m = 10 \<or> m = 11 \<or> m = 12"
      using mm(1,2) by presburger
    then show ?thesis by (elim disjE) (simp_all add: daysIn_def daysBeforeMonth_def)
  qed
  ultimately show ?thesis using mm spec(1) by (simp add: d daysIn_def daysOfDate_def)
qed


section \<open>The round trip\<close>

lemma getnum2_pad2 [simp]: "0 \<le> n \<Longrightarrow> n < 100 \<Longrightarrow> getnum2 (pad2 n @ s) = Some (n, s)"
proof -
  assume n: "0 \<le> n" "n < 100"
  then have q: "0 \<le> n div 10" "n div 10 < 10" "0 \<le> n mod 10" "n mod 10 < 10"
    by (simp_all add: pos_imp_zdiv_nonneg_iff)
  then have "nat (n div 10) < 10" "nat (n mod 10) < 10" by auto
  then have "getnum2 (pad2 n @ s) = Some (int (10 * nat (n div 10) + nat (n mod 10)), s)"
    by (simp add: getnum2_def pad2_def isDigit_digitChar digitVal_digitChar)
  also have "int (10 * nat (n div 10) + nat (n mod 10)) = n" using q by simp
  finally show ?thesis .
qed

lemma getnum_pad2 [simp]: "0 \<le> n \<Longrightarrow> n < 100 \<Longrightarrow> getnum (pad2 n @ s) = Some (n, s)"
  using getnum2_pad2 [of n s] by (auto simp: getnum_def getnum2_def pad2_def split: if_splits)

lemma expect_Cons [simp]: "expect c (c # s) = Some s"
  by (simp add: expect_def)

lemma parseFraction_Z [simp]: "parseFraction ''Z'' = (0, ''Z'')"
  by (simp add: parseFraction_def)


lemma civilDate_year: "civilDate n = (y, m, d) \<Longrightarrow> 0 \<le> n \<Longrightarrow> 1 \<le> y"
  using yearDay_spec by (auto simp: civilDate_def Let_def split: prod.splits)

lemma Parse_fields:
  assumes "0 \<le> y1" "y1 < 100" "0 \<le> y2" "y2 < 100" "1 \<le> m" "m \<le> 12" "1 \<le> d" "d \<le> daysIn (y1 * 100 + y2) m" "d \<le> 31"
    "0 \<le> h" "h < 24" "0 \<le> mi" "mi < 60" "0 \<le> s" "s < 60"
  shows "ParseRFC3339 off (pad2 y1 @ pad2 y2 @ ''-'' @ pad2 m @ ''-'' @ pad2 d @ ''T'' @ pad2 h @ '':'' @ pad2 mi @ '':'' @
       pad2 s @ ''Z'') =
     Some ((daysOfDate (y1 * 100 + y2) m d * 86400 + h * 3600 + mi * 60 + s) * Second, ZoneUTC)"
  using assms by (simp add: ParseRFC3339_def parseZone_def)

text \<open>
  Parsing a formatted time gives the time back, truncated to whole seconds, as a UTC time.
\<close>

lemma clock_parts:
  fixes sod :: int
  assumes "0 \<le> sod" "sod < 86400"
  shows "0 \<le> sod div 3600" "sod div 3600 < 24" "0 \<le> sod mod 3600 div 60" "sod mod 3600 div 60 < 60"
    "0 \<le> sod mod 60" "sod mod 60 < 60" "sod div 3600 * 3600 + sod mod 3600 div 60 * 60 + sod mod 60 = sod"
proof -
  have "sod mod 3600 mod 60 = sod mod 60" by (simp add: mod_mod_cancel)
  then show "sod div 3600 * 3600 + sod mod 3600 div 60 * 60 + sod mod 60 = sod"
    using div_mult_mod_eq [of sod 3600] div_mult_mod_eq [of "sod mod 3600" 60] by linarith
  have "0 \<le> sod mod 3600" "sod mod 3600 < 3600" by simp_all
  then show "0 \<le> sod mod 3600 div 60" "sod mod 3600 div 60 < 60" by linarith+
qed (use assms in \<open>linarith | simp\<close>)+

lemma Parse_Format:
  assumes t: "0 \<le> t" and y: "fst (civilDate (t div Second div 86400)) < 10000"
  shows "ParseRFC3339 off (FormatRFC3339 t) = Some (timeTruncate t Second, ZoneUTC)"
proof -
  define secs where "secs = t div Second"
  define sod where "sod = secs mod 86400"
  obtain y m d where ymd: "civilDate (secs div 86400) = (y, m, d)" by (cases "civilDate (secs div 86400)")
  note spec = civilDate_spec [OF ymd]
  have "0 \<le> secs" using t by (simp add: secs_def Second_def)
  then have "1 \<le> y" using civilDate_year [OF ymd] by simp
  moreover have "y < 10000" using assms(2) ymd unfolding secs_def by simp
  ultimately have yy: "0 \<le> y div 100" "y div 100 < 100" "0 \<le> y mod 100" "y mod 100 < 100" "y < 10000" by (linarith | simp)+
  have yeq: "y div 100 * 100 + y mod 100 = y" by simp
  have sod: "0 \<le> sod" "sod < 86400" by (simp_all add: sod_def)
  note hms = clock_parts [OF sod]
  have "FormatRFC3339 t = pad2 (y div 100) @ pad2 (y mod 100) @ ''-'' @ pad2 m @ ''-'' @ pad2 d @ ''T'' @
     pad2 (sod div 3600) @ '':'' @ pad2 (sod mod 3600 div 60) @ '':'' @ pad2 (sod mod 60) @ ''Z''"
    unfolding FormatRFC3339_def secs_def [symmetric] sod_def [symmetric] Let_def ymd using yy(5)
    by (simp add: padYear_def pad4_def)
  then have "ParseRFC3339 off (FormatRFC3339 t) =
     Some ((daysOfDate y m d * 86400 + sod div 3600 * 3600 + sod mod 3600 div 60 * 60 + sod mod 60) * Second, ZoneUTC)"
    using Parse_fields [OF yy(1-4) _ _ _ _ _ hms(1-6), of m d off] spec unfolding yeq by simp
  also have "daysOfDate y m d * 86400 + sod div 3600 * 3600 + sod mod 3600 div 60 * 60 + sod mod 60 = secs"
  proof -
    have "daysOfDate y m d = secs div 86400" using spec by blast
    then have "daysOfDate y m d * 86400 + sod = secs" unfolding sod_def by (simp only: div_mult_mod_eq)
    then show ?thesis using hms(7) by (simp only: add.assoc)
  qed
  also have "secs * Second = timeTruncate t Second"
    using minus_mod_eq_div_mult [of t Second] by (simp add: secs_def timeTruncate_def Second_def)
  finally show ?thesis .
qed

end
