(* ===== verification/Vfs.thy ===== *)
theory Vfs
  imports GoStrings GoTime
begin

text \<open>
  The store that backups and control files live in. The sources reach it through the Path
  interface of a virtual file system with several backends; what they rely on is a map from
  paths to contents. A path is the list of its elements, as \<open>Join\<close> builds it. Every call may
  fail; \<open>ReadTree\<close> of a directory without files is a not-exist error on some backends and
  the empty list on others, and gives the files in an order of its own.
\<close>

type_synonym vpath = "string list"

record vfs =
  files :: "(vpath \<times> string) list"
  vtick :: nat

record vfsEnv =
  vfsFault :: "nat \<Rightarrow> goerr option"
  treeOrder :: "nat \<Rightarrow> nat list"
  missingDir :: "nat \<Rightarrow> bool"
  vfsNow :: "nat \<Rightarrow> time"

definition vfsCall :: "vfsEnv \<Rightarrow> (vfs, nat) prog" where
  "vfsCall V = bind (\<lambda>v. (Ret (vtick v), v\<lparr>vtick := Suc (vtick v)\<rparr>))
     (\<lambda>n. case vfsFault V n of Some e \<Rightarrow> fail e | None \<Rightarrow> ret n)"

definition vfsTime :: "vfsEnv \<Rightarrow> (vfs, time) prog" where
  "vfsTime V = gets (\<lambda>v. vfsNow V (vtick v))"

definition vfsWriteFile :: "vfsEnv \<Rightarrow> vpath \<Rightarrow> string \<Rightarrow> (vfs, unit) prog" where
  "vfsWriteFile V p contents =
     bind (vfsCall V) (\<lambda>_. modify (\<lambda>v. v\<lparr>files := put p contents (files v)\<rparr>))"

text \<open>\<open>None\<close> is the not-exist error, which the callers test for.\<close>

definition vfsReadFile :: "vfsEnv \<Rightarrow> vpath \<Rightarrow> (vfs, string option) prog" where
  "vfsReadFile V p = bind (vfsCall V) (\<lambda>_. gets (\<lambda>v. map_of (files v) p))"

definition below :: "vpath \<Rightarrow> vpath \<Rightarrow> bool" where
  "below p f \<longleftrightarrow> length p < length f \<and> take (length p) f = p"

definition vfsReadTree :: "vfsEnv \<Rightarrow> vpath \<Rightarrow> (vfs, vpath list option) prog" where
  "vfsReadTree V p = bind (vfsCall V) (\<lambda>n. gets (\<lambda>v.
     let fs = filter (below p) (map fst (files v)) in
     if fs = [] \<and> missingDir V n then None else Some (go_range (treeOrder V n) fs)))"

definition vfsRemove :: "vfsEnv \<Rightarrow> vpath \<Rightarrow> (vfs, unit) prog" where
  "vfsRemove V p = bind (vfsCall V) (\<lambda>_. bind (gets (\<lambda>v. map_of (files v) p)) (\<lambda>c.
     case c of
       None \<Rightarrow> fail (Errorf ''file does not exist'')
     | Some _ \<Rightarrow> modify (\<lambda>v. v\<lparr>files := filter (\<lambda>(q, _). q \<noteq> p) (files v)\<rparr>)))"

section \<open>Laws\<close>

definition filesOK :: "vfs \<Rightarrow> bool" where
  "filesOK v \<longleftrightarrow> distinct (map fst (files v))"

lemma map_of_remove: "map_of (filter (\<lambda>(q, _). q \<noteq> p) m) = (map_of m)(p := None)"
  by (induction m) (auto simp: fun_eq_iff)

text \<open>What a call does to the store, whatever its outcome.\<close>

lemma wp_vfsCall [wp_simps]:
  "wp (vfsCall V) Q v = (case vfsFault V (vtick v) of
     None \<Rightarrow> Q (Ret (vtick v)) (v\<lparr>vtick := Suc (vtick v)\<rparr>)
   | Some e \<Rightarrow> Q (Err e) (v\<lparr>vtick := Suc (vtick v)\<rparr>))"
  by (simp add: vfsCall_def wp_def bind_def fail_def ret_def split: option.split)

lemmas vfs_defs = vfsWriteFile_def vfsReadFile_def vfsReadTree_def vfsRemove_def vfsTime_def

lemma filesOK_write: "filesOK v \<Longrightarrow> wp (vfsWriteFile V p c) (\<lambda>_ v'. filesOK v') v"
  by (simp add: vfs_defs wp_simps filesOK_def split: option.split)

lemma filesOK_remove: "filesOK v \<Longrightarrow> wp (vfsRemove V p) (\<lambda>_ v'. filesOK v') v"
  by (simp add: vfs_defs wp_simps filesOK_def distinct_map_filter split: option.split)

end
