(* ===== verification/Backup.thy ===== *)
theory Backup
  imports Vfs EtcdApi Calendar
begin

text \<open>
  The backup store (\<open>pkg/backup/vfs.go\<close>), the parsing of backup names and the cleanup of old backups
  (\<open>pkg/backupcontroller/parse.go\<close>, \<open>cleanup.go\<close>). The JSON codec of the backup information is a
  parameter.
\<close>

section \<open>The store\<close>

definition MetaFilename :: string where "MetaFilename = ''_etcd_backup.meta''"
definition DataFilename :: string where "DataFilename = ''etcd.backup.gz''"

record 'a codec =
  ToJson :: "'a \<Rightarrow> goerr + string"
  FromJson :: "string \<Rightarrow> goerr + 'a"

definition lift :: "goerr + 'a \<Rightarrow> ('s, 'a) prog" where
  "lift r = (case r of Inl e \<Rightarrow> fail e | Inr x \<Rightarrow> ret x)"

lemma wp_lift [wp_simps]: "wp (lift r) Q s = (case r of Inl e \<Rightarrow> Q (Err e) s | Inr x \<Rightarrow> Q (Ret x) s)"
  by (simp add: lift_def wp_simps split: sum.split)

definition unixOfTime :: "time \<Rightarrow> int" where
  "unixOfTime t = t div Second - 62135596800"

definition stampInfo :: "time \<Rightarrow> BackupInfo \<Rightarrow> BackupInfo" where
  "stampInfo now info =
     (if BackupTimestamp info = 0 then info\<lparr>BackupTimestamp := unixOfTime now\<rparr> else info)"

text \<open>\<open>openFile\<close> is the result of opening the local source file.\<close>

definition AddBackup ::
    "vfsEnv \<Rightarrow> BackupInfo codec \<Rightarrow> vpath \<Rightarrow> (string \<Rightarrow> goerr + string) \<Rightarrow> string \<Rightarrow> string \<Rightarrow> BackupInfo \<Rightarrow> (vfs, string) prog" where
  "AddBackup V J base openFile srcFile sequence info =
     bind (vfsTime V) (\<lambda>now.
     let info' = stampInfo now info;
         name = FormatRFC3339 now @ ''-'' @ sequence
     in seq (if srcFile \<noteq> '''' then
               bind (rewrap (Wrapf ''error opening'') (lift (openFile srcFile))) (\<lambda>contents.
                 rewrap (Wrapf ''error copying'') (vfsWriteFile V (base @ [name, DataFilename]) contents))
             else ret ())
        (bind (rewrap (Wrapf ''error marshalling state'') (lift (ToJson J info'))) (\<lambda>json.
          seq (rewrap (Wrapf ''error writing file'') (vfsWriteFile V (base @ [name, MetaFilename]) json))
           (ret name))))"

definition backupNameOf :: "vpath \<Rightarrow> string option" where
  "backupNameOf f =
     (if f = [] \<or> last f \<noteq> MetaFilename then None
      else
        (let tokens = Split (CHR ''/'') (Join ''/'' f) in
         if length tokens < 2 then None else Some (tokens ! (length tokens - 2))))"

definition ListBackups :: "vfsEnv \<Rightarrow> vpath \<Rightarrow> (vfs, string list) prog" where
  "ListBackups V base =
     bind (rewrap (Wrapf ''error reading'') (vfsReadTree V base)) (\<lambda>r.
       case r of
         None \<Rightarrow> ret []
       | Some fs \<Rightarrow> ret (sortStrings (List.map_filter backupNameOf fs)))"

definition RemoveBackup :: "vfsEnv \<Rightarrow> vpath \<Rightarrow> string \<Rightarrow> (vfs, unit) prog" where
  "RemoveBackup V base backup =
     bind (rewrap (Wrapf ''error deleting - cannot read'') (vfsReadTree V (base @ [backup]))) (\<lambda>r.
       case r of
         None \<Rightarrow> fail (Wrapf ''error deleting - cannot read'' (Errorf ''file does not exist''))
       | Some fs \<Rightarrow> forM fs (\<lambda>f. rewrap (Wrapf ''error deleting backups'') (vfsRemove V f)))"

definition LoadInfo :: "vfsEnv \<Rightarrow> BackupInfo codec \<Rightarrow> vpath \<Rightarrow> string \<Rightarrow> (vfs, BackupInfo) prog" where
  "LoadInfo V J base name =
     bind (rewrap (Wrapf ''error reading file'') (vfsReadFile V (base @ [name, MetaFilename]))) (\<lambda>r.
       case r of
         None \<Rightarrow> fail (Wrapf ''error reading file'' (Errorf ''file does not exist''))
       | Some contents \<Rightarrow> rewrap (Wrapf ''error parsing file'') (lift (FromJson J contents)))"

text \<open>
  \<open>DownloadBackup\<close>: the contents that end up in the destination file. \<open>localFault\<close> is a failure to
  create, close or rename the local file; the destination is then not written.
\<close>

definition DownloadBackup :: "vfsEnv \<Rightarrow> vpath \<Rightarrow> (goerr option \<times> goerr option \<times> goerr option) \<Rightarrow> string \<Rightarrow> (vfs, string) prog" where
  "DownloadBackup V base localFault name =
     (case localFault of (createErr, closeErr, renameErr) \<Rightarrow>
       seq (case createErr of Some e \<Rightarrow> fail (Wrapf ''error creating temp file'' e) | None \<Rightarrow> ret ())
        (bind (vfsReadFile V (base @ [name, DataFilename])) (\<lambda>r.
          case r of
            None \<Rightarrow> fail (Errorf ''file does not exist'')
          | Some contents \<Rightarrow>
              seq (case closeErr of Some e \<Rightarrow> fail e | None \<Rightarrow> ret ())
               (seq (case renameErr of Some e \<Rightarrow> fail (Wrapf ''error during file write: rename failed'' e) | None \<Rightarrow> ret ())
                 (ret contents)))))"

section \<open>Backup names\<close>

record backupNameInfo =
  NameTimestamp :: zonedTime
  Suffix :: string

definition parseBackupNameInfo :: "int \<Rightarrow> string \<Rightarrow> backupNameInfo option" where
  "parseBackupNameInfo localOffset name =
     (case Index name ''Z-'' of
        None \<Rightarrow> map_option (\<lambda>t. \<lparr>NameTimestamp = t, Suffix = ''''\<rparr>) (ParseRFC3339 localOffset name)
      | Some z \<Rightarrow> map_option (\<lambda>t. \<lparr>NameTimestamp = t, Suffix = drop (z + 2) name\<rparr>)
                   (ParseRFC3339 localOffset (take (z + 1) name)))"

section \<open>Cleanup\<close>

definition ParseHumanDuration :: "(string \<Rightarrow> goerr + duration) \<Rightarrow> string \<Rightarrow> goerr + duration" where
  "ParseHumanDuration ParseDuration s =
     (if HasSuffix s ''y'' then
        (case Atoi (TrimSuffix s ''y'') of
           None \<Rightarrow> Inl (Errorf ''invalid syntax'')
         | Some n \<Rightarrow> Inr (wrap64 (wrap64 (wrap64 (n * 365) * 24) * Hour)))
      else if HasSuffix s ''d'' then
        (case Atoi (TrimSuffix s ''d'') of
           None \<Rightarrow> Inl (Errorf ''invalid syntax'')
         | Some n \<Rightarrow> Inr (wrap64 (wrap64 (n * 24) * Hour)))
      else ParseDuration s)"

text \<open>The retention settings, from the environment at start-up; a malformed one ends the process.\<close>

definition retentionFromEnv :: "(string \<Rightarrow> goerr + duration) \<Rightarrow> string \<Rightarrow> duration \<Rightarrow> duration outcome" where
  "retentionFromEnv ParseDuration s dflt =
     (if s = '''' then Ret dflt
      else (case ParseHumanDuration ParseDuration s of
              Inl e \<Rightarrow> Crash ''failed to parse retention''
            | Inr v \<Rightarrow> Ret v))"

definition HourlyBackupsRetention :: duration where "HourlyBackupsRetention = 24 * 7 * Hour"
definition DailyBackupsRetention :: duration where "DailyBackupsRetention = 24 * 2 * 365 * Hour"

record retention =
  hourly :: duration
  daily :: duration

record cleanupMaps =
  byTime :: "(zonedTime \<times> string) list"
  retain :: "string list"
  ignore :: "string list"
  buckets :: "(zonedTime \<times> zonedTime) list"

definition bucketOf :: "duration \<Rightarrow> zonedTime \<Rightarrow> zonedTime" where
  "bucketOf d t = (timeTruncate (fst t) d, snd t)"

definition intoBucket :: "duration \<Rightarrow> zonedTime \<Rightarrow> cleanupMaps \<Rightarrow> cleanupMaps" where
  "intoBucket d t m =
     (let existing = (case map_of (buckets m) (bucketOf d t) of None \<Rightarrow> (0, ZoneUTC) | Some e \<Rightarrow> e) in
      if timeIsZero (fst existing) \<or> timeAfter (fst existing) (fst t)
      then m\<lparr>buckets := put (bucketOf d t) t (buckets m)\<rparr> else m)"

definition classify :: "(string \<Rightarrow> backupNameInfo option) \<Rightarrow> retention \<Rightarrow> time \<Rightarrow> string \<Rightarrow> cleanupMaps \<Rightarrow> cleanupMaps" where
  "classify parse R now backup m =
     (case parse backup of
        None \<Rightarrow> m\<lparr>ignore := backup # ignore m\<rparr>
      | Some i \<Rightarrow>
          (let t = NameTimestamp i;
               m1 = m\<lparr>byTime := put t backup (byTime m)\<rparr>;
               age = timeSub now (fst t)
           in if age < Hour then m1\<lparr>retain := backup # retain m1\<rparr>
              else if age < hourly R then intoBucket Hour t m1
              else if age < daily R then intoBucket (24 * Hour) t m1
              else m1))"

definition classifyAll :: "(string \<Rightarrow> backupNameInfo option) \<Rightarrow> retention \<Rightarrow> time \<Rightarrow> string list \<Rightarrow> cleanupMaps" where
  "classifyAll parse R now names =
     fold (classify parse R now) names \<lparr>byTime = [], retain = [], ignore = [], buckets = []\<rparr>"

definition retained :: "nat list \<Rightarrow> cleanupMaps \<Rightarrow> string list" where
  "retained c m = retain m @
     map (\<lambda>(_, t). case map_of (byTime m) t of None \<Rightarrow> '''' | Some b \<Rightarrow> b) (go_range c (buckets m))"

definition toRemove :: "nat list \<Rightarrow> (string \<Rightarrow> backupNameInfo option) \<Rightarrow> retention \<Rightarrow> time \<Rightarrow> string list \<Rightarrow> string list" where
  "toRemove c parse R now names =
     (let m = classifyAll parse R now names in
      filter (\<lambda>b. b \<notin> set (retained c m) \<and> b \<notin> set (ignore m)) names)"

record BackupCleanup =
  lastBackupCleanup :: time
  backupCleanupInterval :: duration

definition NewBackupCleanup :: BackupCleanup where
  "NewBackupCleanup = \<lparr>lastBackupCleanup = 0, backupCleanupInterval = Hour\<rparr>"

text \<open>A backup that cannot be removed is logged and the loop goes on.\<close>

definition MaybeDoBackupMaintenance ::
    "vfsEnv \<Rightarrow> vpath \<Rightarrow> int \<Rightarrow> retention \<Rightarrow> nat list \<Rightarrow> BackupCleanup \<Rightarrow> (vfs, BackupCleanup) prog" where
  "MaybeDoBackupMaintenance V base localOffset R c m =
     bind (vfsTime V) (\<lambda>now.
     if timeSub now (lastBackupCleanup m) < backupCleanupInterval m then ret m
     else bind (rewrap (Wrapf ''error listing backups'') (ListBackups V base)) (\<lambda>names.
       seq (forM (toRemove c (parseBackupNameInfo localOffset) R now names)
              (\<lambda>b. bind (attempt (RemoveBackup V base b)) (\<lambda>_. ret ())))
         (ret (m\<lparr>lastBackupCleanup := now\<rparr>))))"

section \<open>What cleanup keeps\<close>

text \<open>The bucket that a backup of time \<open>t\<close> competes in, if any.\<close>

definition bucketKey :: "retention \<Rightarrow> time \<Rightarrow> zonedTime \<Rightarrow> zonedTime option" where
  "bucketKey R now t =
     (let age = timeSub now (fst t) in
      if age < Hour then None
      else if age < hourly R then Some (bucketOf Hour t)
      else if age < daily R then Some (bucketOf (24 * Hour) t)
      else None)"

definition dated :: "(string \<Rightarrow> backupNameInfo option) \<Rightarrow> string \<Rightarrow> zonedTime \<Rightarrow> bool" where
  "dated parse b t \<longleftrightarrow> (\<exists>i. parse b = Some i \<and> NameTimestamp i = t)"

lemma dated_unique: "dated parse b t \<Longrightarrow> dated parse b u \<Longrightarrow> u = t"
  by (auto simp: dated_def)

definition young :: "(string \<Rightarrow> backupNameInfo option) \<Rightarrow> time \<Rightarrow> string \<Rightarrow> bool" where
  "young parse now b \<longleftrightarrow>
     (case parse b of None \<Rightarrow> False | Some i \<Rightarrow> timeSub now (fst (NameTimestamp i)) < Hour)"

text \<open>The invariant of the loop over the names, with \<open>seen\<close> the names already visited.\<close>

definition namesInv :: "(string \<Rightarrow> backupNameInfo option) \<Rightarrow> time \<Rightarrow> string set \<Rightarrow> cleanupMaps \<Rightarrow> bool" where
  "namesInv parse now seen m \<longleftrightarrow>
     set (ignore m) = {b \<in> seen. parse b = None} \<and>
     set (retain m) = {b \<in> seen. young parse now b}"

definition timesInv :: "(string \<Rightarrow> backupNameInfo option) \<Rightarrow> string set \<Rightarrow> cleanupMaps \<Rightarrow> bool" where
  "timesInv parse seen m \<longleftrightarrow>
     (\<forall>t b. map_of (byTime m) t = Some b \<longrightarrow> b \<in> seen \<and> dated parse b t) \<and>
     (\<forall>b t. b \<in> seen \<longrightarrow> dated parse b t \<longrightarrow> map_of (byTime m) t \<noteq> None)"

definition bucketsInv :: "(string \<Rightarrow> backupNameInfo option) \<Rightarrow> retention \<Rightarrow> time \<Rightarrow> string set \<Rightarrow> cleanupMaps \<Rightarrow> bool" where
  "bucketsInv parse R now seen m \<longleftrightarrow>
     (\<forall>k t. map_of (buckets m) k = Some t \<longrightarrow> bucketKey R now t = Some k \<and> (\<exists>b. b \<in> seen \<and> dated parse b t)) \<and>
     (\<forall>b t k. b \<in> seen \<longrightarrow> dated parse b t \<longrightarrow> bucketKey R now t = Some k \<longrightarrow>
        (\<exists>t'. map_of (buckets m) k = Some t' \<and> fst t' \<le> fst t)) \<and>
     distinct (map fst (buckets m))"

lemma classify_maps:
  assumes "parse b = Some i"
  shows "byTime (classify parse R now b m) = put (NameTimestamp i) b (byTime m)"
    "ignore (classify parse R now b m) = ignore m"
    "retain (classify parse R now b m) =
       (if timeSub now (fst (NameTimestamp i)) < Hour then b # retain m else retain m)"
    "buckets (classify parse R now b m) =
       (case bucketKey R now (NameTimestamp i) of
          None \<Rightarrow> buckets m
        | Some k \<Rightarrow>
            (case map_of (buckets m) k of
               None \<Rightarrow> put k (NameTimestamp i) (buckets m)
             | Some e \<Rightarrow> if fst e = 0 \<or> fst (NameTimestamp i) < fst e then put k (NameTimestamp i) (buckets m)
                         else buckets m))"
  using assms
  by (simp_all add: classify_def bucketKey_def intoBucket_def time_defs Let_def split: option.split)

lemma dated_Some: "parse b = Some i \<Longrightarrow> dated parse b u \<longleftrightarrow> u = NameTimestamp i"
  by (auto simp: dated_def)

lemma namesInv_step:
  assumes "namesInv parse now seen m"
  shows "namesInv parse now (insert b seen) (classify parse R now b m)"
proof (cases "parse b")
  case None
  then show ?thesis using assms by (auto simp: namesInv_def classify_def young_def)
next
  case (Some i)
  then show ?thesis
    using assms unfolding namesInv_def classify_maps [of parse, OF Some] by (auto simp: young_def)
qed

lemma timesInv_step:
  assumes "timesInv parse seen m"
  shows "timesInv parse (insert b seen) (classify parse R now b m)"
proof (cases "parse b")
  case None
  then show ?thesis using assms by (auto simp: timesInv_def classify_def dated_def)
next
  case (Some i)
  then show ?thesis
    using assms unfolding timesInv_def classify_maps [of parse, OF Some] by (auto simp: dated_Some)
qed

lemma bucketsInv_put:
  assumes inv: "bucketsInv parse R now seen m" and d: "dated parse b t" and key: "bucketKey R now t = Some k"
    and less: "\<And>e. map_of (buckets m) k = Some e \<Longrightarrow> fst t < fst e"
    and m': "buckets m' = put k t (buckets m)"
  shows "bucketsInv parse R now (insert b seen) m'"
proof -
  have "\<exists>t'. map_of (buckets m') k' = Some t' \<and> fst t' \<le> fst u"
    if u: "b' \<in> insert b seen" "dated parse b' u" "bucketKey R now u = Some k'" for b' u k'
  proof (cases "k' = k")
    case True
    then show ?thesis
    proof (cases "b' = b")
      case False
      with u inv obtain e where "map_of (buckets m) k' = Some e" "fst e \<le> fst u" unfolding bucketsInv_def by blast
      then have "fst t \<le> fst u" using less [of e] True by simp
      then show ?thesis using True by (simp add: m')
    qed (use u dated_unique [OF d] in \<open>auto simp: m'\<close>)
  next
    case False
    have "b' \<noteq> b"
    proof
      assume "b' = b"
      with u(2) dated_unique [OF d] have "u = t" by simp
      with u(3) key False show False by simp
    qed
    with u(1) have "b' \<in> seen" by simp
    with u(2,3) inv obtain t' where "map_of (buckets m) k' = Some t'" "fst t' \<le> fst u"
      unfolding bucketsInv_def by blast
    then show ?thesis using False unfolding m' map_of_put by (intro exI [of _ t']) simp
  qed
  moreover have "bucketKey R now u = Some k' \<and> (\<exists>b'. b' \<in> insert b seen \<and> dated parse b' u)"
    if u: "map_of (buckets m') k' = Some u" for k' u
  proof (cases "k' = k")
    case True
    with u m' have "u = t" by simp
    with True d key show ?thesis by blast
  next
    case False
    with u m' have "map_of (buckets m) k' = Some u" by simp
    with inv show ?thesis unfolding bucketsInv_def by blast
  qed
  moreover have "distinct (map fst (buckets m'))" using inv unfolding bucketsInv_def m' by simp
  ultimately show ?thesis unfolding bucketsInv_def by blast
qed

lemma bucketsInv_skip:
  assumes inv: "bucketsInv parse R now seen m"
    and own: "\<And>t k. dated parse b t \<Longrightarrow> bucketKey R now t = Some k \<Longrightarrow>
      \<exists>t'. map_of (buckets m) k = Some t' \<and> fst t' \<le> fst t"
    and m': "buckets m' = buckets m"
  shows "bucketsInv parse R now (insert b seen) m'"
  using inv own unfolding bucketsInv_def m' insert_iff by blast

lemma bucketsInv_step:
  assumes inv: "bucketsInv parse R now seen m" and nz: "\<And>b t. b \<in> seen \<Longrightarrow> dated parse b t \<Longrightarrow> fst t \<noteq> 0"
  shows "bucketsInv parse R now (insert b seen) (classify parse R now b m)"
proof (cases "parse b")
  case None
  then show ?thesis by (intro bucketsInv_skip [OF inv]) (simp_all add: classify_def dated_def)
next
  case (Some i)
  let ?t = "NameTimestamp i"
  have d: "dated parse b ?t" using Some by (simp add: dated_def)
  note maps = classify_maps(4) [of parse, OF Some, of R now m]
  note du = dated_Some [of parse, OF Some]
  show ?thesis
  proof (cases "bucketKey R now ?t")
    case None
    then show ?thesis by (intro bucketsInv_skip [OF inv]) (simp_all add: maps du)
  next
    case key: (Some k)
    show ?thesis
    proof (cases "\<exists>e. map_of (buckets m) k = Some e \<and> \<not> fst ?t < fst e")
      case True
      then obtain e where e: "map_of (buckets m) k = Some e" "fst e \<le> fst ?t" by auto
      then have "fst e \<noteq> 0" using inv nz unfolding bucketsInv_def by blast
      with e key show ?thesis by (intro bucketsInv_skip [OF inv]) (simp_all add: maps du)
    next
      case False
      then have "buckets (classify parse R now b m) = put k ?t (buckets m)"
        using key maps by (cases "map_of (buckets m) k") auto
      then show ?thesis by (rule bucketsInv_put [OF inv d key, rotated]) (use False in auto)
    qed
  qed
qed

lemma classifyAll_inv:
  assumes nz: "\<forall>b t. b \<in> set names \<longrightarrow> dated parse b t \<longrightarrow> fst t \<noteq> 0"
  shows "namesInv parse now (set names) (classifyAll parse R now names)"
    "timesInv parse (set names) (classifyAll parse R now names)"
    "bucketsInv parse R now (set names) (classifyAll parse R now names)"
proof -
  let ?m0 = "\<lparr>byTime = [], retain = [], ignore = [], buckets = []\<rparr>"
  let ?P = "\<lambda>seen m. namesInv parse now seen m \<and> timesInv parse seen m \<and> bucketsInv parse R now seen m"
  have "?P seen m \<Longrightarrow> seen \<union> set xs \<subseteq> set names \<Longrightarrow> ?P (seen \<union> set xs) (fold (classify parse R now) xs m)" for xs seen m
  proof (induction xs arbitrary: seen m)
    case (Cons x xs)
    have "?P (insert x seen) (classify parse R now x m)"
    proof -
      have "fst t \<noteq> 0" if "b \<in> seen" "dated parse b t" for b t using that nz Cons.prems(2) by blast
      with Cons.prems(1) show ?thesis by (blast intro: namesInv_step timesInv_step bucketsInv_step)
    qed
    from Cons.IH [OF this] Cons.prems(2) show ?case by simp
  qed simp
  moreover have "?P {} ?m0" by (simp add: namesInv_def timesInv_def bucketsInv_def)
  ultimately have "?P ({} \<union> set names) (classifyAll parse R now names)"
    unfolding classifyAll_def by blast
  then show "namesInv parse now (set names) (classifyAll parse R now names)"
    "timesInv parse (set names) (classifyAll parse R now names)"
    "bucketsInv parse R now (set names) (classifyAll parse R now names)" by simp_all
qed


lemma retained_iff:
  fixes R :: retention and now :: time
  assumes nz: "\<forall>b t. b \<in> set names \<longrightarrow> dated parse b t \<longrightarrow> fst t \<noteq> 0"
  defines "m \<equiv> classifyAll parse R now names"
  shows "b \<in> set (retained c m) \<longleftrightarrow> (b \<in> set names \<and> young parse now b) \<or>
     (\<exists>k t. map_of (buckets m) k = Some t \<and> map_of (byTime m) t = Some b)"
proof -
  note inv = classifyAll_inv [where names = names and parse = parse and R = R and now = now, OF nz, folded m_def]
  have dom: "map_of (byTime m) t \<noteq> None" if "map_of (buckets m) k = Some t" for k t
    using that inv(2,3) unfolding timesInv_def bucketsInv_def by blast
  have "b \<in> set (retained c m) \<longleftrightarrow> b \<in> set (retain m) \<or>
      (\<exists>k t. (k, t) \<in> set (buckets m) \<and> b = (case map_of (byTime m) t of None \<Rightarrow> '''' | Some b \<Rightarrow> b))"
    by (force simp: retained_def)
  moreover have "b = (case map_of (byTime m) t of None \<Rightarrow> '''' | Some b \<Rightarrow> b) \<longleftrightarrow> map_of (byTime m) t = Some b"
    if "map_of (buckets m) k = Some t" for k t
    using dom [OF that] by (cases "map_of (byTime m) t") auto
  moreover have "(k, t) \<in> set (buckets m) \<longleftrightarrow> map_of (buckets m) k = Some t" for k t
    using inv(3) unfolding bucketsInv_def by (simp add: map_of_eq_Some_iff)
  moreover have "set (retain m) = {b \<in> set names. young parse now b}"
    using inv(1) unfolding namesInv_def by blast
  ultimately show ?thesis by blast
qed

text \<open>An older time whose bucket starts where ours does lies in our bucket.\<close>

lemma truncate_between:
  assumes "0 < d" and "timeTruncate t d \<le> u" and "u \<le> t"
  shows "timeTruncate u d = timeTruncate t d"
proof -
  have trunc: "timeTruncate x d = x div d * d" for x
    using assms(1) by (simp add: timeTruncate_def minus_mod_eq_div_mult)
  have "t div d * d \<le> u" "u \<le> t" "t < t div d * d + d"
    using assms timeTruncate_gt [OF assms(1), of t] by (simp_all add: trunc)
  then have "u div d = t div d"
    using assms(1) by (intro int_div_pos_eq [where r = "u - t div d * d"]) (simp_all add: mult.commute)
  then show ?thesis by (simp add: trunc)
qed

lemma same_bucket:
  assumes "fst u \<le> fst t" and "bucketKey R now u = Some (bucketOf d t)" and "d = Hour \<or> d = 24 * Hour"
  shows "bucketOf d u = bucketOf d t"
proof -
  from assms(2) obtain e where e: "bucketOf e u = bucketOf d t"
    by (auto simp: bucketKey_def Let_def split: if_splits)
  then have "snd u = snd t" "timeTruncate (fst t) d = timeTruncate (fst u) e" by (simp_all add: bucketOf_def)
  moreover have "timeTruncate (fst u) d = timeTruncate (fst t) d"
    using assms(1,3) timeTruncate_le [of "fst u" e] calculation(2)
    by (intro truncate_between) (auto simp: Hour_def)
  ultimately show ?thesis by (simp add: bucketOf_def)
qed

text \<open>
  C15. Backup cleanup loses nothing it should keep. A backup that is removed has a parseable name and
  is at least an hour old. For every backup that is older than an hour and within the
  hourly retention some backup of the same hour, at least as old, is kept; the same holds per
  day within the daily retention. (No backup is dated at the zero time.)
\<close>

theorem cleanup_keeps_coverage:
  assumes nz: "\<forall>b t. b \<in> set names \<longrightarrow> dated parse b t \<longrightarrow> fst t \<noteq> 0"
  shows "(\<forall>b. b \<in> set (toRemove c parse R now names) \<longrightarrow> b \<in> set names \<and> (\<exists>t. dated parse b t \<and> Hour \<le> timeSub now (fst t))) \<and>
     (\<forall>b t. b \<in> set names \<longrightarrow> dated parse b t \<longrightarrow> Hour \<le> timeSub now (fst t) \<longrightarrow> timeSub now (fst t) < daily R \<longrightarrow>
        (\<exists>b' t'. b' \<in> set names \<and> b' \<notin> set (toRemove c parse R now names) \<and> dated parse b' t' \<and> fst t' \<le> fst t \<and>
           (let d = (if timeSub now (fst t) < hourly R then Hour else 24 * Hour)
            in bucketOf d t' = bucketOf d t)))"
proof -
  define m where "m = classifyAll parse R now names"
  define removed where "removed = toRemove c parse R now names"
  note inv = classifyAll_inv [where names = names and parse = parse and R = R and now = now, OF nz, folded m_def]
  note ret = retained_iff [where names = names and parse = parse and R = R and now = now and c = c, OF nz, folded m_def]
  have removed: "set removed = {b \<in> set names. b \<notin> set (retained c m) \<and> b \<notin> set (ignore m)}"
    by (auto simp: removed_def toRemove_def m_def Let_def)
  have "\<exists>t. dated parse b t \<and> Hour \<le> timeSub now (fst t)" if "b \<in> set removed" for b
  proof -
    have "parse b \<noteq> None" "\<not> young parse now b"
      using that inv(1) by (auto simp: removed ret namesInv_def)
    then obtain i where "parse b = Some i" "Hour \<le> timeSub now (fst (NameTimestamp i))"
      by (auto simp: young_def split: option.splits)
    then show ?thesis unfolding dated_def by blast
  qed
  moreover have "\<exists>b' t'. b' \<in> set names \<and> b' \<notin> set removed \<and> dated parse b' t' \<and> fst t' \<le> fst t \<and>
      bucketOf (if timeSub now (fst t) < hourly R then Hour else 24 * Hour) t' =
      bucketOf (if timeSub now (fst t) < hourly R then Hour else 24 * Hour) t"
    if b: "b \<in> set names" "dated parse b t" "Hour \<le> timeSub now (fst t)" "timeSub now (fst t) < daily R" for b t
  proof -
    let ?d = "if timeSub now (fst t) < hourly R then Hour else 24 * Hour"
    have key: "bucketKey R now t = Some (bucketOf ?d t)" using b(3,4) by (simp add: bucketKey_def Let_def)
    with b inv(3) obtain t' where t': "map_of (buckets m) (bucketOf ?d t) = Some t'" "fst t' \<le> fst t"
      unfolding bucketsInv_def by blast
    with inv(3) have key': "bucketKey R now t' = Some (bucketOf ?d t)" and "\<exists>b. b \<in> set names \<and> dated parse b t'"
      unfolding bucketsInv_def by blast+
    with inv(2) obtain b' where b': "map_of (byTime m) t' = Some b'" unfolding timesInv_def by blast
    with inv(2) have "b' \<in> set names" "dated parse b' t'" unfolding timesInv_def by blast+
    moreover have "b' \<notin> set removed" using ret t'(1) b' unfolding removed by blast
    moreover have "bucketOf ?d t' = bucketOf ?d t"
      by (rule same_bucket [OF t'(2) key']) simp
    ultimately show ?thesis using t'(2) by blast
  qed
  ultimately show ?thesis using removed unfolding removed_def Let_def by blast
qed


definition exampleBackups :: "string list" where
  "exampleBackups = [''2020-01-01T00:10:00Z-000001'', ''2020-01-01T00:50:00Z-000002'', ''latest'']"

lemma parse_exampleBackups:
  "parseBackupNameInfo 0 ''2020-01-01T00:10:00Z-000001'' =
     Some \<lparr>NameTimestamp = (737424 * 24 * Hour + 10 * Minute, ZoneUTC), Suffix = ''000001''\<rparr>"
  "parseBackupNameInfo 0 ''2020-01-01T00:50:00Z-000002'' =
     Some \<lparr>NameTimestamp = (737424 * 24 * Hour + 50 * Minute, ZoneUTC), Suffix = ''000002''\<rparr>"
  "parseBackupNameInfo 0 ''latest'' = None"
  by code_simp+

theorem cleanup_keeps_coverage_witness:
  "toRemove [] (parseBackupNameInfo 0) \<lparr>hourly = HourlyBackupsRetention, daily = DailyBackupsRetention\<rparr>
     (737424 * 24 * Hour + 3 * Hour) exampleBackups = [''2020-01-01T00:50:00Z-000002''] \<and>
   (\<exists>b' t'. b' \<in> set exampleBackups \<and> b' \<noteq> ''2020-01-01T00:50:00Z-000002'' \<and> dated (parseBackupNameInfo 0) b' t' \<and>
      fst t' \<le> 737424 * 24 * Hour + 50 * Minute)"
proof -
  let ?R = "\<lparr>hourly = HourlyBackupsRetention, daily = DailyBackupsRetention\<rparr>"
  let ?now = "737424 * 24 * Hour + 3 * Hour"
  let ?t = "(737424 * 24 * Hour + 50 * Minute, ZoneUTC)"
  have rm: "toRemove [] (parseBackupNameInfo 0) ?R ?now exampleBackups = [''2020-01-01T00:50:00Z-000002'']"
    by (simp add: toRemove_def classifyAll_def classify_def exampleBackups_def parse_exampleBackups Let_def
        intoBucket_def bucketOf_def put_def retained_def time_defs timeSub_def timeTruncate_def duration_defs
        HourlyBackupsRetention_def DailyBackupsRetention_def)
  have nz: "\<forall>b t. b \<in> set exampleBackups \<longrightarrow> dated (parseBackupNameInfo 0) b t \<longrightarrow> fst t \<noteq> 0"
    by (auto simp: exampleBackups_def dated_def parse_exampleBackups duration_defs)
  have d: "dated (parseBackupNameInfo 0) ''2020-01-01T00:50:00Z-000002'' ?t"
    by (simp add: dated_def parse_exampleBackups)
  have "Hour \<le> timeSub ?now (fst ?t)" "timeSub ?now (fst ?t) < daily ?R"
    by (simp_all add: timeSub_def duration_defs DailyBackupsRetention_def)
  moreover have "''2020-01-01T00:50:00Z-000002'' \<in> set exampleBackups" by (simp add: exampleBackups_def)
  ultimately obtain b' t' where "b' \<in> set exampleBackups"
      "b' \<notin> set (toRemove [] (parseBackupNameInfo 0) ?R ?now exampleBackups)"
      "dated (parseBackupNameInfo 0) b' t'" "fst t' \<le> fst ?t"
    using cleanup_keeps_coverage [OF nz, of "[]" ?R ?now] d by blast
  moreover from this(2) have "b' \<noteq> ''2020-01-01T00:50:00Z-000002''" unfolding rm by simp
  ultimately show ?thesis using rm unfolding fst_conv by blast
qed

section \<open>Names round trip\<close>

definition printable :: "time \<Rightarrow> bool" where
  "printable t \<longleftrightarrow> 0 \<le> t \<and> fst (civilDate (t div Second div 86400)) < 10000"

lemma Index_append: "x \<notin> set pre \<Longrightarrow> Index (pre @ x # y # s) [x, y] = Some (length pre)"
  by (induction pre) (auto simp: HasPrefix_def)

lemma pad2_digits: "0 \<le> n \<Longrightarrow> n < 100 \<Longrightarrow> c \<in> set (pad2 n) \<Longrightarrow> isDigit c"
proof -
  assume n: "0 \<le> n" "n < 100" and c: "c \<in> set (pad2 n)"
  then have "0 \<le> n div 10" "n div 10 < 10" "0 \<le> n mod 10" "n mod 10 < 10"
    by (simp_all add: pos_imp_zdiv_nonneg_iff)
  with c show ?thesis by (auto simp: pad2_def isDigit_digitChar nat_less_iff)
qed

lemma Format_chars:
  assumes "printable t"
  shows "\<exists>pre. FormatRFC3339 t = pre @ ''Z'' \<and> (\<forall>c \<in> set pre. isDigit c \<or> c \<in> set ''-T:'')"
proof -
  define sod where "sod = t div Second mod 86400"
  obtain y m d where ymd: "civilDate (t div Second div 86400) = (y, m, d)"
    by (cases "civilDate (t div Second div 86400)")
  note spec = civilDate_spec [OF ymd]
  have "0 \<le> t div Second div 86400" using assms by (simp add: printable_def Second_def pos_imp_zdiv_nonneg_iff)
  then have "1 \<le> y" "y < 10000" using civilDate_year [OF ymd] assms ymd by (simp_all add: printable_def)
  then have yy: "0 \<le> y div 100" "y div 100 < 100" "0 \<le> y mod 100" "y mod 100 < 100" "y < 10000"
    by (linarith | simp)+
  have "0 \<le> sod" "sod < 86400" by (simp_all add: sod_def)
  note hms = clock_parts [OF this]
  let ?pre = "pad2 (y div 100) @ pad2 (y mod 100) @ ''-'' @ pad2 m @ ''-'' @ pad2 d @ ''T'' @
     pad2 (sod div 3600) @ '':'' @ pad2 (sod mod 3600 div 60) @ '':'' @ pad2 (sod mod 60)"
  have "FormatRFC3339 t = ?pre @ ''Z''"
    unfolding FormatRFC3339_def sod_def [symmetric] Let_def ymd using yy(5)
    by (simp add: padYear_def pad4_def)
  moreover have "\<forall>c \<in> set ?pre. isDigit c \<or> c \<in> set ''-T:''"
  proof -
    have pad: "\<forall>c \<in> set (pad2 n). isDigit c" if "0 \<le> n" "n < 100" for n using pad2_digits that by blast
    have "m < 100" "d < 100" "0 \<le> m" "0 \<le> d" using spec by auto
    note pads = pad [OF yy(1,2)] pad [OF yy(3,4)] pad [OF this(3,1)] pad [OF this(4,2)]
      pad [OF hms(1) less_trans [OF hms(2)]] pad [OF hms(3) less_trans [OF hms(4)]] pad [OF hms(5) less_trans [OF hms(6)]]
    show ?thesis by (simp only: set_append ball_Un) (intro conjI ballI; use pads in auto)
  qed
  ultimately show ?thesis by blast
qed

text \<open>
  C37. The name a backup is stored under gives back the time it was taken, to the second, and its
  sequence number.
\<close>

theorem backup_name_roundtrip:
  assumes "printable t"
  shows "parseBackupNameInfo localOffset (FormatRFC3339 t @ ''-'' @ sequence) =
     Some \<lparr>NameTimestamp = (timeTruncate t Second, ZoneUTC), Suffix = sequence\<rparr>"
proof -
  obtain pre where pre: "FormatRFC3339 t = pre @ ''Z''" "\<forall>c \<in> set pre. isDigit c \<or> c \<in> set ''-T:''"
    using Format_chars [OF assms] by blast
  have "CHR ''Z'' \<notin> set pre" using pre(2) by (auto simp: isDigit_def)
  then have "Index (FormatRFC3339 t @ ''-'' @ sequence) ''Z-'' = Some (length pre)"
    using Index_append [of "CHR ''Z''" pre "CHR ''-''" sequence] by (simp add: pre(1))
  moreover have "ParseRFC3339 localOffset (FormatRFC3339 t) = Some (timeTruncate t Second, ZoneUTC)"
    using assms by (intro Parse_Format) (simp_all add: printable_def)
  ultimately show ?thesis by (simp add: parseBackupNameInfo_def pre(1))
qed

theorem backup_name_roundtrip_witness:
  "parseBackupNameInfo 0 (FormatRFC3339 (737424 * 24 * Hour + 1) @ ''-000007'') =
     Some \<lparr>NameTimestamp = (737424 * 24 * Hour, ZoneUTC), Suffix = ''000007''\<rparr>"
proof -
  have "printable (737424 * 24 * Hour + 1)" by code_simp
  from backup_name_roundtrip [OF this, of 0 "''000007''"] show ?thesis
    by (simp add: timeTruncate_def duration_defs)
qed

lemma Atoi_digits:
  assumes "s \<noteq> []" "list_all isDigit s" "int (decimalAcc 0 s) < 2 ^ 63"
  shows "Atoi s = Some (int (decimalAcc 0 s))"
proof (cases s)
  case (Cons c cs)
  then have "c \<noteq> CHR ''-''" "c \<noteq> CHR ''+''" using assms(2) by (auto simp: isDigit_def)
  with Cons assms show ?thesis by (simp add: Atoi_def Let_def)
qed (use assms in simp)

text \<open>
  C38. A retention given in days is exact up to 106751 days and one given in years up to 292 years;
  293 years already overflow the 64-bit duration and give a negative retention.
\<close>

theorem human_duration_exact:
  assumes "n \<le> 106751"
  shows "ParseHumanDuration pd (FormatUint n @ ''d'') = Inr (int n * 24 * Hour) \<and>
     (n \<le> 292 \<longrightarrow> ParseHumanDuration pd (FormatUint n @ ''y'') = Inr (int n * 365 * 24 * Hour)) \<and>
     (\<exists>d. ParseHumanDuration pd ''293y'' = Inr d \<and> d < 0)"
proof -
  have "int (decimalAcc 0 (FormatUint n)) < 2 ^ 63" using assms by simp
  then have atoi: "Atoi (FormatUint n) = Some (int n)"
    using Atoi_digits [of "FormatUint n"] FormatUint_digits [of n] FormatUint_not_Nil [of n] by simp
  have trim: "HasSuffix (FormatUint n @ [c]) [c]" "TrimSuffix (FormatUint n @ [c]) [c] = FormatUint n" for c
    by (simp_all add: HasSuffix_def TrimSuffix_def)
  have "\<not> HasSuffix (FormatUint n @ ''d'') ''y''" by (simp add: HasSuffix_def)
  moreover have "HasSuffix ''293y'' ''y''" "Atoi (TrimSuffix ''293y'' ''y'') = Some 293" by code_simp+
  ultimately show ?thesis
    using assms by (simp add: ParseHumanDuration_def trim atoi wrap64_id wrap64_def [of 9240048000000000000] Hour_def)
qed

theorem human_duration_exact_witness:
  "ParseHumanDuration (\<lambda>_. Inl (Errorf ''unused'')) (FormatUint 30 @ ''d'') = Inr (30 * 24 * Hour)"
  using human_duration_exact [of 30 "\<lambda>_. Inl (Errorf ''unused'')"] by simp

section \<open>The contract of a backup store\<close>

text \<open>
  What the cleanup relies on: listing changes nothing and names every backup; removing a backup
  leaves the others alone and, if it succeeds, the backup is gone. Neither crashes.
\<close>

locale backup_store =
  fixes ok :: "'s \<Rightarrow> bool" and entry :: "'s \<Rightarrow> string \<Rightarrow> string option"
    and list :: "('s, string list) prog" and remove :: "string \<Rightarrow> ('s, unit) prog"
  assumes list_spec: "ok s \<Longrightarrow> wp list (\<lambda>r s'. ok s' \<and> entry s' = entry s \<and>
      (case r of Ret names \<Rightarrow> set names = dom (entry s) | Err _ \<Rightarrow> True | Crash _ \<Rightarrow> False)) s"
    and remove_spec: "ok s \<Longrightarrow> wp (remove b) (\<lambda>r s'. ok s' \<and> (\<forall>b'. b' \<noteq> b \<longrightarrow> entry s' b' = entry s b') \<and>
      (entry s' b = entry s b \<or> entry s' b = None) \<and>
      (case r of Ret _ \<Rightarrow> entry s' b = None | Err _ \<Rightarrow> True | Crash _ \<Rightarrow> False)) s"
begin

lemma remove_all:
  assumes "ok s"
  shows "wp (forM bs (\<lambda>b. bind (attempt (remove b)) (\<lambda>_. ret ())))
     (\<lambda>r s'. r = Ret () \<and> ok s' \<and> (\<forall>b. entry s' b = entry s b \<or> (b \<in> set bs \<and> entry s' b = None))) s"
proof (rule wp_forM [where I = "\<lambda>ys s'. ok s' \<and> (\<forall>b. entry s' b = entry s b \<or> (b \<in> set bs \<and> entry s' b = None))"])
  fix x ys s'
  assume suffix: "\<exists>pre. bs = pre @ x # ys"
    and inv: "ok s' \<and> (\<forall>b. entry s' b = entry s b \<or> (b \<in> set bs \<and> entry s' b = None))"
  from suffix have x: "x \<in> set bs" by auto
  have upd: "entry u b = entry s b \<or> (b \<in> set bs \<and> entry u b = None)"
    if "\<forall>b'. b' \<noteq> x \<longrightarrow> entry u b' = entry s' b'" "entry u x = entry s' x \<or> entry u x = None" for u b
    using that inv x by (cases "b = x") metis+
  show "wp (bind (attempt (remove x)) (\<lambda>_. ret ())) (\<lambda>r t. case r of
      Ret _ \<Rightarrow> ok t \<and> (\<forall>b. entry t b = entry s b \<or> (b \<in> set bs \<and> entry t b = None))
    | Err e \<Rightarrow> Err e = Ret () \<and> ok t \<and> (\<forall>b. entry t b = entry s b \<or> (b \<in> set bs \<and> entry t b = None))
    | Crash m \<Rightarrow> Crash m = Ret () \<and> ok t \<and> (\<forall>b. entry t b = entry s b \<or> (b \<in> set bs \<and> entry t b = None))) s'"
    unfolding wp_simps
    by (rule wp_mono [OF remove_spec]) (use inv upd in \<open>auto split: outcome.splits\<close>)
qed (use assms in auto)

end

text \<open>
  The layout of the backup store: every meta file is directly below the directory of its
  backup, and no path element contains a slash.
\<close>

definition layoutOK :: "vpath \<Rightarrow> vfs \<Rightarrow> bool" where
  "layoutOK base v \<longleftrightarrow> filesOK v \<and> (\<forall>f \<in> set (map fst (files v)). (\<forall>e \<in> set f. CHR ''/'' \<notin> set e) \<and>
     (below base f \<longrightarrow> last f = MetaFilename \<longrightarrow> (\<exists>n. f = base @ [n, MetaFilename])))"

definition metaOf :: "vpath \<Rightarrow> vfs \<Rightarrow> string \<Rightarrow> string option" where
  "metaOf base v name = map_of (files v) (base @ [name, MetaFilename])"

lemma metaOf_dom: "metaOf base v name \<noteq> None \<longleftrightarrow> base @ [name, MetaFilename] \<in> set (map fst (files v))"
  by (simp add: metaOf_def map_of_eq_None_iff)

lemma backupNameOf_meta:
  assumes "\<forall>e \<in> set (base @ [n, MetaFilename]). CHR ''/'' \<notin> set e"
  shows "backupNameOf (base @ [n, MetaFilename]) = Some n"
proof -
  have "Split (CHR ''/'') (Join ''/'' (base @ [n, MetaFilename])) = base @ [n, MetaFilename]"
    by (rule Split_Join) (use assms in auto)
  then show ?thesis by (simp add: backupNameOf_def nth_append)
qed

lemma listed_names:
  assumes "layoutOK base v"
  shows "set (List.map_filter backupNameOf (filter (below base) (map fst (files v)))) = dom (metaOf base v)"
proof (intro set_eqI iffI)
  fix n
  assume "n \<in> set (List.map_filter backupNameOf (filter (below base) (map fst (files v))))"
  then obtain f where f: "f \<in> set (map fst (files v))" "below base f" "backupNameOf f = Some n"
    by (force simp: map_filter_def)
  then have "last f = MetaFilename" by (auto simp: backupNameOf_def split: if_splits)
  with assms f obtain n' where f': "f = base @ [n', MetaFilename]" unfolding layoutOK_def by blast
  have "\<forall>e \<in> set f. CHR ''/'' \<notin> set e" using assms f(1) unfolding layoutOK_def by blast
  with f(3) f' have "n' = n" using backupNameOf_meta by simp
  with f(1) f' show "n \<in> dom (metaOf base v)" using metaOf_dom [of base v n] by auto
next
  fix n
  assume "n \<in> dom (metaOf base v)"
  then have f: "base @ [n, MetaFilename] \<in> set (map fst (files v))" using metaOf_dom [of base v n] by auto
  moreover have "\<forall>e \<in> set (base @ [n, MetaFilename]). CHR ''/'' \<notin> set e" using assms f unfolding layoutOK_def by blast
  ultimately show "n \<in> set (List.map_filter backupNameOf (filter (below base) (map fst (files v))))"
    using backupNameOf_meta [of base n] unfolding map_filter_def
    by (force simp: below_def)
qed

lemma layoutOK_tick [simp]: "layoutOK base (v\<lparr>vtick := n\<rparr>) = layoutOK base v"
  by (simp add: layoutOK_def filesOK_def)

lemma metaOf_tick [simp]: "metaOf base (v\<lparr>vtick := n\<rparr>) = metaOf base v"
  by (simp add: metaOf_def fun_eq_iff)

lemma ListBackups_spec:
  assumes "layoutOK base v"
  shows "wp (ListBackups V base) (\<lambda>r v'. layoutOK base v' \<and> metaOf base v' = metaOf base v \<and>
      (case r of Ret names \<Rightarrow> set names = dom (metaOf base v) | Err _ \<Rightarrow> True | Crash _ \<Rightarrow> False)) v"
proof -
  have "filter (below base) (map fst (files v)) = [] \<Longrightarrow> dom (metaOf base v) = {}"
    using listed_names [OF assms] by (simp add: map_filter_def)
  moreover have "set (List.map_filter backupNameOf (go_range c xs)) = set (List.map_filter backupNameOf xs)" for c xs
    by (simp add: map_filter_def)
  ultimately show ?thesis
    using assms listed_names [OF assms]
    by (simp add: ListBackups_def vfs_defs wp_simps Let_def split: option.split)
qed


lemma below_other: "below (base @ [b]) f \<Longrightarrow> b' \<noteq> b \<Longrightarrow> f \<noteq> base @ [b', MetaFilename]"
  by (auto simp: below_def)

lemma below_meta: "below (base @ [b]) (base @ [b, MetaFilename])"
  by (simp add: below_def)

lemma layoutOK_remove:
  "layoutOK base v \<Longrightarrow> layoutOK base (v\<lparr>vtick := n, files := filter (\<lambda>(q, _). q \<noteq> f) (files v)\<rparr>)"
  by (auto simp: layoutOK_def filesOK_def distinct_map_filter)

lemma metaOf_remove:
  "metaOf base (v\<lparr>vtick := n, files := filter (\<lambda>(q, _). q \<noteq> f) (files v)\<rparr>) b =
     (if f = base @ [b, MetaFilename] then None else metaOf base v b)"
  by (simp add: metaOf_def map_of_remove)

lemma removeFile_spec:
  assumes "layoutOK base v" "below (base @ [b]) f"
  shows "wp (vfsRemove V f) (\<lambda>r v'. layoutOK base v' \<and> (\<forall>b'. b' \<noteq> b \<longrightarrow> metaOf base v' b' = metaOf base v b') \<and>
      (metaOf base v' b = metaOf base v b \<or> metaOf base v' b = None) \<and>
      (case r of Ret _ \<Rightarrow> (f = base @ [b, MetaFilename] \<longrightarrow> metaOf base v' b = None) | Err _ \<Rightarrow> True | Crash _ \<Rightarrow> False)) v"
  using assms(1) below_other [OF assms(2)]
  by (simp add: vfsRemove_def wp_simps layoutOK_remove metaOf_remove split: option.split)

lemma RemoveBackup_spec:
  assumes ok: "layoutOK base v"
  shows "wp (RemoveBackup V base b) (\<lambda>r v'. layoutOK base v' \<and> (\<forall>b'. b' \<noteq> b \<longrightarrow> metaOf base v' b' = metaOf base v b') \<and>
      (metaOf base v' b = metaOf base v b \<or> metaOf base v' b = None) \<and>
      (case r of Ret _ \<Rightarrow> metaOf base v' b = None | Err _ \<Rightarrow> True | Crash _ \<Rightarrow> False)) v"
proof -
  define fs where "fs = filter (below (base @ [b])) (map fst (files v))"
  let ?Inv = "\<lambda>ys u. layoutOK base u \<and> (\<forall>b'. b' \<noteq> b \<longrightarrow> metaOf base u b' = metaOf base v b') \<and>
      (metaOf base u b = metaOf base v b \<or> metaOf base u b = None) \<and>
      (base @ [b, MetaFilename] \<in> set ys \<or> metaOf base u b = None)"
  have loop: "wp (forM gs (\<lambda>f. rewrap (Wrapf ''error deleting backups'') (vfsRemove V f)))
     (\<lambda>r v'. layoutOK base v' \<and> (\<forall>b'. b' \<noteq> b \<longrightarrow> metaOf base v' b' = metaOf base v b') \<and>
      (metaOf base v' b = metaOf base v b \<or> metaOf base v' b = None) \<and>
      (case r of Ret _ \<Rightarrow> metaOf base v' b = None | Err _ \<Rightarrow> True | Crash _ \<Rightarrow> False)) u"
    if gs: "set gs = set fs" and u: "?Inv gs u" for gs u
  proof (rule wp_forM [where I = ?Inv])
    fix x ys w
    assume "\<exists>pre. gs = pre @ x # ys" and inv: "?Inv (x # ys) w"
    then have "x \<in> set fs" using gs by auto
    then have x: "below (base @ [b]) x" by (simp add: fs_def)
    show "wp (rewrap (Wrapf ''error deleting backups'') (vfsRemove V x))
      (\<lambda>r s'. case r of Ret _ \<Rightarrow> ?Inv ys s'
       | Err e \<Rightarrow> layoutOK base s' \<and> (\<forall>b'. b' \<noteq> b \<longrightarrow> metaOf base s' b' = metaOf base v b') \<and>
          (metaOf base s' b = metaOf base v b \<or> metaOf base s' b = None) \<and>
          (case Err e of Ret _ \<Rightarrow> metaOf base s' b = None | Err _ \<Rightarrow> True | Crash _ \<Rightarrow> False)
       | Crash m \<Rightarrow> layoutOK base s' \<and> (\<forall>b'. b' \<noteq> b \<longrightarrow> metaOf base s' b' = metaOf base v b') \<and>
          (metaOf base s' b = metaOf base v b \<or> metaOf base s' b = None) \<and>
          (case Crash m of Ret _ \<Rightarrow> metaOf base s' b = None | Err _ \<Rightarrow> True | Crash _ \<Rightarrow> False)) w"
      unfolding wp_rewrap
      by (rule wp_mono [OF removeFile_spec [OF _ x]]) (use inv in \<open>auto split: outcome.splits\<close>)
  qed (use u in auto)
  have start: "base @ [b, MetaFilename] \<in> set fs \<or> metaOf base v b = None"
    using metaOf_dom [of base v b] below_meta by (auto simp: fs_def)
  then have none: "fs = [] \<Longrightarrow> metaOf base v b = None" by auto
  have "?Inv (go_range c fs) (v\<lparr>vtick := n\<rparr>)" for c n using ok start by simp
  with loop none ok show ?thesis
    unfolding RemoveBackup_def vfsReadTree_def fs_def [symmetric]
    by (simp add: wp_simps Let_def fs_def [symmetric] split: option.split)
qed

interpretation vfs_backups: backup_store "layoutOK base" "metaOf base" "ListBackups V base" "RemoveBackup V base"
  by unfold_locales (rule ListBackups_spec RemoveBackup_spec, assumption)+


lemma toRemove_old:
  assumes "b \<in> set (toRemove c parse R now names)"
  shows "\<exists>t. dated parse b t \<and> Hour \<le> timeSub now (fst t)"
proof -
  let ?m0 = "\<lparr>byTime = [], retain = [], ignore = [], buckets = []\<rparr>"
  have "namesInv parse now seen m \<Longrightarrow> namesInv parse now (seen \<union> set xs) (fold (classify parse R now) xs m)" for xs seen m
  proof (induction xs arbitrary: seen m)
    case (Cons x xs)
    from Cons.IH [OF namesInv_step [OF Cons.prems]] show ?case by simp
  qed simp
  note loop = this
  have "namesInv parse now ({} \<union> set names) (classifyAll parse R now names)"
    unfolding classifyAll_def by (rule loop) (simp add: namesInv_def)
  with assms have "b \<in> set names" "parse b \<noteq> None" "\<not> young parse now b"
    by (auto simp: toRemove_def Let_def retained_def namesInv_def)
  then obtain i where "parse b = Some i" "Hour \<le> timeSub now (fst (NameTimestamp i))"
    by (auto simp: young_def split: option.splits)
  then show ?thesis unfolding dated_def by blast
qed



definition exampleStore :: vfs where
  "exampleStore = \<lparr>files = [([''b'', ''2020-01-01T00:10:00Z-000001'', MetaFilename], ''{}''),
     ([''b'', ''2020-01-01T00:50:00Z-000002'', DataFilename], ''data''),
     ([''b'', ''2020-01-01T00:50:00Z-000002'', MetaFilename], ''{}'')], vtick = 0\<rparr>"

definition exampleVfs :: vfsEnv where
  "exampleVfs = \<lparr>vfsFault = (\<lambda>n. if n = 2 then Some (Errorf ''throttled'') else None), treeOrder = (\<lambda>_. []),
     missingDir = (\<lambda>_. True), vfsNow = (\<lambda>_. 737424 * 24 * Hour + 3 * Hour)\<rparr>"


section \<open>Adding and reading back a backup\<close>


definition exampleCodec :: "BackupInfo codec" where
  "exampleCodec = \<lparr>ToJson = (\<lambda>x. Inr (BackupVersion x)),
     FromJson = (\<lambda>s. Inr \<lparr>BackupVersion = s, BackupTimestamp = 7, BackupSpec = None\<rparr>)\<rparr>"


end
