(* ===== verification/Commands.thy ===== *)
theory Commands
  imports Backup
begin

text \<open>
  The control store (\<open>pkg/commands/vfs.go\<close>): the marker that the cluster was created, the expected
  cluster spec and the queue of administrator commands, as files below the control
  directory. The JSON codecs of specs and commands are parameters; the marker's JSON is
  written out.
\<close>

definition EtcdClusterCreated :: string where "EtcdClusterCreated = ''etcd-cluster-created''"
definition EtcdClusterSpec :: string where "EtcdClusterSpec = ''etcd-cluster-spec''"
definition CommandFilename :: string where "CommandFilename = ''_command.json''"

definition commandsBase :: "vpath \<Rightarrow> vpath" where
  "commandsBase p = p @ [''control'']"

definition unixNanoOfTime :: "time \<Rightarrow> int" where
  "unixNanoOfTime t = wrap64 (t - 62135596800 * Second)"

record vfsCommand =
  cmdFile :: vpath
  cmdData :: Command

definition AddCommand :: "vfsEnv \<Rightarrow> Command codec \<Rightarrow> vpath \<Rightarrow> Command \<Rightarrow> (vfs, unit) prog" where
  "AddCommand V J base c =
     bind (vfsTime V) (\<lambda>now.
     let c' = c\<lparr>CommandTimestamp := unixNanoOfTime now\<rparr>; name = FormatRFC3339 now @ ''-'' @ ''000000''
     in bind (rewrap (Wrapf ''error marshalling command'') (lift (ToJson J c'))) (\<lambda>json.
          rewrap (Wrapf ''error writing file'') (vfsWriteFile V (base @ [name, CommandFilename]) json)))"

fun readCommands :: "vfsEnv \<Rightarrow> Command codec \<Rightarrow> vpath list \<Rightarrow> (vfs, vfsCommand list) prog" where
  "readCommands V J [] = ret []"
| "readCommands V J (f # fs) =
     (if f = [] \<or> last f \<noteq> CommandFilename then readCommands V J fs
      else bind (rewrap (Wrapf ''error reading'') (vfsReadFile V f)) (\<lambda>r.
        case r of
          None \<Rightarrow> fail (Wrapf ''error reading'' (Errorf ''file does not exist''))
        | Some contents \<Rightarrow>
            bind (rewrap (Wrapf ''error parsing command'') (lift (FromJson J contents))) (\<lambda>c.
            bind (readCommands V J fs) (\<lambda>cs. ret (\<lparr>cmdFile = f, cmdData = c\<rparr> # cs)))))"

definition ListCommands :: "vfsEnv \<Rightarrow> Command codec \<Rightarrow> vpath \<Rightarrow> (vfs, vfsCommand list) prog" where
  "ListCommands V J base =
     bind (rewrap (Wrapf ''error reading'') (vfsReadTree V base)) (\<lambda>r.
       case r of
         None \<Rightarrow> ret []
       | Some fs \<Rightarrow> bind (readCommands V J fs) (\<lambda>cs. ret (sort_key (CommandTimestamp \<circ> cmdData) cs)))"

definition RemoveCommand :: "vfsEnv \<Rightarrow> vfsCommand \<Rightarrow> (vfs, unit) prog" where
  "RemoveCommand V c = rewrap (Wrapf ''error removing command'') (vfsRemove V (cmdFile c))"

definition GetExpectedClusterSpec :: "vfsEnv \<Rightarrow> ClusterSpec codec \<Rightarrow> vpath \<Rightarrow> (vfs, ClusterSpec option) prog" where
  "GetExpectedClusterSpec V J base =
     bind (rewrap (Wrapf ''error reading cluster spec file'') (vfsReadFile V (base @ [EtcdClusterSpec]))) (\<lambda>r.
       case r of
         None \<Rightarrow> ret None
       | Some contents \<Rightarrow> bind (rewrap (Wrapf ''error parsing cluster spec'') (lift (FromJson J contents)))
           (\<lambda>spec. ret (Some spec)))"

definition SetExpectedClusterSpec :: "vfsEnv \<Rightarrow> ClusterSpec codec \<Rightarrow> vpath \<Rightarrow> ClusterSpec \<Rightarrow> (vfs, unit) prog" where
  "SetExpectedClusterSpec V J base spec =
     bind (rewrap (Wrapf ''error serializing cluster spec'') (lift (ToJson J spec))) (\<lambda>json.
       rewrap (Wrapf ''error writing cluster spec file'') (vfsWriteFile V (base @ [EtcdClusterSpec]) json))"

definition IsNewCluster :: "vfsEnv \<Rightarrow> vpath \<Rightarrow> (vfs, bool) prog" where
  "IsNewCluster V base =
     bind (rewrap (Wrapf ''error reading cluster-creation marker file'') (vfsReadFile V (base @ [EtcdClusterCreated]))) (\<lambda>r.
       case r of
         None \<Rightarrow> ret True
       | Some contents \<Rightarrow>
           if contents = '''' then fail (Errorf ''marker file was unexpectedly empty'') else ret False)"

text \<open>\<open>json.Marshal\<close> of the marker; a zero timestamp is omitted.\<close>

definition createdMarker :: "int \<Rightarrow> string" where
  "createdMarker ts = (if ts = 0 then ''{}'' else ''{\"timestamp\":'' @ Itoa ts @ ''}'')"

definition MarkClusterCreated :: "vfsEnv \<Rightarrow> vpath \<Rightarrow> (vfs, unit) prog" where
  "MarkClusterCreated V base =
     bind (vfsTime V) (\<lambda>now.
       rewrap (Wrapf ''error creating cluster-creation marker file'')
         (vfsWriteFile V (base @ [EtcdClusterCreated]) (createdMarker (unixNanoOfTime now))))"

section \<open>The contract of the control store\<close>

text \<open>
  What the controller relies on: the marker is read back once it was written and no other
  operation takes it away; the expected spec is the last one that was set, as the codec
  echoes it.
\<close>

locale control_store =
  fixes created :: "'s \<Rightarrow> bool" and spec :: "'s \<Rightarrow> 'spec option" and echo :: "'spec \<Rightarrow> 'spec option"
    and isNew :: "('s, bool) prog" and mark :: "('s, unit) prog"
    and getSpec :: "('s, 'spec option) prog" and setSpec :: "'spec \<Rightarrow> ('s, unit) prog"
  assumes isNew_spec: "wp isNew (\<lambda>r s'. created s' = created s \<and> spec s' = spec s \<and>
      (case r of Ret b \<Rightarrow> b = (\<not> created s) | _ \<Rightarrow> True)) s"
    and mark_spec: "wp mark (\<lambda>r s'. spec s' = spec s \<and> (created s \<longrightarrow> created s') \<and> (r = Ret () \<longrightarrow> created s')) s"
    and getSpec_spec: "wp getSpec (\<lambda>r s'. created s' = created s \<and> spec s' = spec s \<and>
      (case r of Ret x \<Rightarrow> x = spec s | _ \<Rightarrow> True)) s"
    and setSpec_spec: "wp (setSpec x) (\<lambda>r s'. created s' = created s \<and> (r = Ret () \<longrightarrow> spec s' = echo x)) s"
begin

lemma mark_then_isNew:
  "wp (seq mark isNew) (\<lambda>r s'. case r of Ret b \<Rightarrow> \<not> b \<and> created s' | _ \<Rightarrow> True) s"
  unfolding wp_seq
  by (rule wp_mono [OF mark_spec]) (auto split: outcome.split intro!: wp_mono [OF isNew_spec])

lemma set_then_get:
  "wp (seq (setSpec x) getSpec) (\<lambda>r s'. case r of Ret y \<Rightarrow> y = echo x | _ \<Rightarrow> True) s"
  unfolding wp_seq
  by (rule wp_mono [OF setSpec_spec]) (auto split: outcome.split intro!: wp_mono [OF getSpec_spec])

lemma created_kept:
  "created s \<Longrightarrow> wp isNew (\<lambda>_. created) s" "created s \<Longrightarrow> wp mark (\<lambda>_. created) s"
  "created s \<Longrightarrow> wp getSpec (\<lambda>_. created) s" "created s \<Longrightarrow> wp (setSpec x) (\<lambda>_. created) s"
  by (auto intro: wp_mono [OF isNew_spec] wp_mono [OF mark_spec] wp_mono [OF getSpec_spec] wp_mono [OF setSpec_spec])

end

definition isCreated :: "vpath \<Rightarrow> vfs \<Rightarrow> bool" where
  "isCreated base v \<longleftrightarrow> map_of (files v) (base @ [EtcdClusterCreated]) \<noteq> None"

definition specOf :: "ClusterSpec codec \<Rightarrow> vpath \<Rightarrow> vfs \<Rightarrow> ClusterSpec option" where
  "specOf J base v = (case map_of (files v) (base @ [EtcdClusterSpec]) of
     None \<Rightarrow> None | Some c \<Rightarrow> (case FromJson J c of Inl _ \<Rightarrow> None | Inr x \<Rightarrow> Some x))"

definition echoSpec :: "ClusterSpec codec \<Rightarrow> ClusterSpec \<Rightarrow> ClusterSpec option" where
  "echoSpec J x = (case ToJson J x of Inl _ \<Rightarrow> None
     | Inr c \<Rightarrow> (case FromJson J c of Inl _ \<Rightarrow> None | Inr y \<Rightarrow> Some y))"

interpretation vfs_control: control_store "isCreated base" "specOf J base" "echoSpec J"
    "IsNewCluster V base" "MarkClusterCreated V base" "GetExpectedClusterSpec V J base" "SetExpectedClusterSpec V J base"
proof unfold_locales
  have neq: "EtcdClusterSpec \<noteq> EtcdClusterCreated" by (simp add: EtcdClusterSpec_def EtcdClusterCreated_def)
  fix s x
  show "wp (IsNewCluster V base) (\<lambda>r s'. isCreated base s' = isCreated base s \<and> specOf J base s' = specOf J base s \<and>
      (case r of Ret b \<Rightarrow> b = (\<not> isCreated base s) | _ \<Rightarrow> True)) s"
    by (simp add: IsNewCluster_def vfs_defs wp_simps isCreated_def specOf_def split: option.split)
  show "wp (MarkClusterCreated V base) (\<lambda>r s'. specOf J base s' = specOf J base s \<and>
      (isCreated base s \<longrightarrow> isCreated base s') \<and> (r = Ret () \<longrightarrow> isCreated base s')) s"
    using neq by (simp add: MarkClusterCreated_def vfs_defs wp_simps isCreated_def specOf_def split: option.split)
  show "wp (GetExpectedClusterSpec V J base) (\<lambda>r s'. isCreated base s' = isCreated base s \<and>
      specOf J base s' = specOf J base s \<and> (case r of Ret y \<Rightarrow> y = specOf J base s | _ \<Rightarrow> True)) s"
    by (simp add: GetExpectedClusterSpec_def vfs_defs wp_simps isCreated_def specOf_def split: option.split sum.split)
  show "wp (SetExpectedClusterSpec V J base x) (\<lambda>r s'. isCreated base s' = isCreated base s \<and>
      (r = Ret () \<longrightarrow> specOf J base s' = echoSpec J x)) s"
    using neq by (simp add: SetExpectedClusterSpec_def vfs_defs wp_simps isCreated_def specOf_def echoSpec_def
        split: option.split sum.split)
qed


section \<open>The command queue\<close>

definition readOK :: "Command codec \<Rightarrow> (vpath \<times> string) list \<Rightarrow> vpath list \<Rightarrow> vfsCommand list \<Rightarrow> bool" where
  "readOK J m fs cs \<longleftrightarrow> map cmdFile cs = filter (\<lambda>f. f \<noteq> [] \<and> last f = CommandFilename) fs \<and>
     (\<forall>c. c \<in> set cs \<longrightarrow> (\<exists>s. map_of m (cmdFile c) = Some s \<and> FromJson J s = Inr (cmdData c)))"

lemma readCommands_spec:
  "wp (readCommands V J fs) (\<lambda>r v'. files v' = files v \<and>
     (case r of Ret cs \<Rightarrow> readOK J (files v) fs cs | Err _ \<Rightarrow> True | Crash _ \<Rightarrow> False)) v"
proof (induction fs arbitrary: v)
  case Nil
  then show ?case by (simp add: wp_ret readOK_def)
next
  case (Cons f fs)
  show ?case
  proof (cases "f = [] \<or> last f \<noteq> CommandFilename")
    case True
    then have eq: "readOK J m (f # fs) = readOK J m fs" for m by (auto simp: readOK_def fun_eq_iff)
    show ?thesis using Cons.IH True unfolding eq by simp
  next
    case False
    have step: "readOK J (files v) fs cs \<Longrightarrow> map_of (files v) f = Some s \<Longrightarrow> FromJson J s = Inr c \<Longrightarrow>
        readOK J (files v) (f # fs) (\<lparr>cmdFile = f, cmdData = c\<rparr> # cs)" for cs s c
      using False by (auto simp: readOK_def)
    have "wp (bind (readCommands V J fs) (\<lambda>cs. ret (\<lparr>cmdFile = f, cmdData = c\<rparr> # cs)))
       (\<lambda>r v'. files v' = files v \<and>
         (case r of Ret cs \<Rightarrow> readOK J (files v) (f # fs) cs | Err _ \<Rightarrow> True | Crash _ \<Rightarrow> False)) u"
      if "map_of (files v) f = Some s" "FromJson J s = Inr c" "files u = files v" for s c u
      unfolding wp_bind
      by (rule wp_mono [OF Cons.IH]) (use step that in \<open>auto simp: wp_ret split: outcome.splits\<close>)
    with False show ?thesis
      by (simp add: vfsReadFile_def wp_bind wp_rewrap wp_vfsCall wp_gets wp_fail wp_lift split: option.split sum.split)
  qed
qed

text \<open>
  C20. \<open>ListCommands\<close> returns every command file below the control directory, decoded, each once, in
  the order of the timestamps, and changes nothing.
\<close>

theorem list_commands_sorted:
  assumes "filesOK v" and "ListCommands V J base v = (Ret cs, v')"
  shows "files v' = files v \<and> sorted (map (CommandTimestamp \<circ> cmdData) cs) \<and> distinct (map cmdFile cs) \<and>
     set (map cmdFile cs) = {f. map_of (files v) f \<noteq> None \<and> below base f \<and> last f = CommandFilename} \<and>
     (\<forall>c. c \<in> set cs \<longrightarrow> (\<exists>s. map_of (files v) (cmdFile c) = Some s \<and> FromJson J s = Inr (cmdData c)))"
proof -
  let ?fs = "filter (below base) (map fst (files v))"
  have "wp (ListCommands V J base) (\<lambda>r v'. files v' = files v \<and> (case r of
      Ret cs \<Rightarrow> \<exists>c cs'. cs = sort_key (CommandTimestamp \<circ> cmdData) cs' \<and> readOK J (files v) (go_range c ?fs) cs'
    | _ \<Rightarrow> True)) v"
  proof -
    have "wp (bind (readCommands V J (go_range c ?fs)) (\<lambda>cs. ret (sort_key (CommandTimestamp \<circ> cmdData) cs)))
       (\<lambda>r v'. files v' = files v \<and> (case r of
          Ret cs \<Rightarrow> \<exists>c cs'. cs = sort_key (CommandTimestamp \<circ> cmdData) cs' \<and> readOK J (files v) (go_range c ?fs) cs'
        | _ \<Rightarrow> True)) u" if "files u = files v" for c u
      unfolding wp_bind
      by (rule wp_mono [OF readCommands_spec]) (use that in \<open>auto simp: wp_ret split: outcome.splits\<close>)
    moreover have "readOK J (files v) (go_range c ?fs) []" if "?fs = []" for c using that by (simp add: readOK_def)
    then have "\<exists>c cs'. [] = sort_key (CommandTimestamp \<circ> cmdData) cs' \<and> readOK J (files v) (go_range c ?fs) cs'"
      if "?fs = []" using that by (metis sort_key_simps(1))
    ultimately show ?thesis
      by (simp add: ListCommands_def vfsReadTree_def wp_bind wp_rewrap wp_vfsCall wp_gets wp_ret Let_def split: option.split)
  qed
  from wpD [OF this assms(2)] obtain c cs' where "files v' = files v"
    and cs: "cs = sort_key (CommandTimestamp \<circ> cmdData) cs'" and ok: "readOK J (files v) (go_range c ?fs) cs'" by auto
  have dist: "distinct (go_range c ?fs)"
    using assms(1) distinct_map_go_range [of id c ?fs] by (simp add: filesOK_def)
  have "distinct (map cmdFile cs')" using ok dist by (simp add: readOK_def)
  moreover have "mset (map cmdFile cs) = mset (map cmdFile cs')" by (simp add: cs)
  ultimately have "distinct (map cmdFile cs)" by (metis mset_eq_imp_distinct_iff)
  moreover have "set (map cmdFile cs) = {f. map_of (files v) f \<noteq> None \<and> below base f \<and> last f = CommandFilename}"
  proof -
    have "set (map cmdFile cs) = set (map cmdFile cs')" by (simp add: cs)
    also have "\<dots> = set (filter (\<lambda>f. f \<noteq> [] \<and> last f = CommandFilename) (go_range c ?fs))"
      using ok unfolding readOK_def by metis
    also have "\<dots> = {f. map_of (files v) f \<noteq> None \<and> below base f \<and> last f = CommandFilename}"
      by (auto simp: map_of_eq_None_iff below_def)
    finally show ?thesis .
  qed
  ultimately show ?thesis
    using ok \<open>files v' = files v\<close> by (simp add: cs readOK_def)
qed

definition exampleCommands :: vfs where
  "exampleCommands = \<lparr>files = [([''c'', ''control'', ''2020-01-02T00:00:00Z-000000'', CommandFilename], ''2''),
     ([''c'', ''control'', EtcdClusterCreated], ''{}''),
     ([''c'', ''control'', ''2020-01-01T00:00:00Z-000000'', CommandFilename], ''1'')], vtick = 0\<rparr>"

definition exampleCommandCodec :: "Command codec" where
  "exampleCommandCodec = \<lparr>ToJson = (\<lambda>c. Inr (Itoa (CommandTimestamp c))),
     FromJson = (\<lambda>s. case Atoi s of None \<Rightarrow> Inl (Errorf ''invalid command'')
       | Some t \<Rightarrow> Inr \<lparr>CommandTimestamp = t, CommandRestore = None\<rparr>)\<rparr>"

theorem list_commands_sorted_witness:
  "\<exists>cs. fst (ListCommands (exampleVfs\<lparr>vfsFault := \<lambda>_. None\<rparr>) exampleCommandCodec (commandsBase [''c'']) exampleCommands) = Ret cs \<and>
     sorted (map (CommandTimestamp \<circ> cmdData) cs) \<and> length cs = 2"
proof -
  let ?run = "ListCommands (exampleVfs\<lparr>vfsFault := \<lambda>_. None\<rparr>) exampleCommandCodec (commandsBase [''c'']) exampleCommands"
  have ok: "filesOK exampleCommands" by code_simp
  have "map_outcome length (fst ?run) = Ret 2" by code_simp
  then obtain cs v' where run: "?run = (Ret cs, v')" "length cs = 2" by (cases ?run; cases "fst ?run") auto
  from list_commands_sorted [OF ok run(1)] run(2) show ?thesis unfolding run(1) by auto
qed

end
