(* ===== verification/EtcdServer.thy ===== *)
theory EtcdServer
  imports EtcdProcess PrivateApi Commands
begin

text \<open>
  The server that runs on every node (\<open>pkg/etcd/etcdserver.go\<close>, \<open>pkg/etcd/backup.go\<close>): its persistent
  state, the two-phase joining of a cluster, reconfiguration, stopping, backup, and the loop that
  keeps the etcd process running. The handlers run under the server's mutex, so each is one
  program on the state. The operating system, the clock, the protobuf encoding and the etcd
  client are the parameter \<open>serverEnv\<close>; the n-th call sees the n-th answer.
\<close>

section \<open>State\<close>

definition PreparedValidity :: duration where "PreparedValidity = Minute"

record preparedState =
  validUntil :: time
  preparedToken :: string

text \<open>
  The last five fields are the node's machine: the state file, the certificates requested, the
  data directories moved to the trashcan, the host maps handed to the DNS provider, and the number
  of calls made so far; \<open>backupFiles\<close> is the shared backup store and \<open>sequence\<close> the package
  variable of \<open>backup.go\<close>.
\<close>

record EtcdServer =
  baseDir :: string
  peerServer :: Server
  etcdNodeConfiguration :: EtcdNode
  clusterName :: string
  state :: "EtcdState option"
  prepared :: "preparedState option"
  process :: "etcdProcess option"
  listenAddress :: string
  etcdClientsCA :: bool
  etcdPeersCA :: bool
  listenMetricsURLs :: "string list"
  peerClientIPs :: "string list"
  sequence :: nat
  backupFiles :: vfs
  stateFile :: "string option"
  certRequests :: "certRequest list"
  trashcan :: "(string \<times> string) list"
  hostsUpdates :: "(string \<times> string list) list list"
  calls :: nat

record serverEnv =
  osAt :: "nat \<Rightarrow> nodeos"
  nowAt :: "nat \<Rightarrow> time"
  marshal :: "EtcdState \<Rightarrow> goerr + string"
  unmarshal :: "string \<Rightarrow> goerr + EtcdState"
  readError :: "nat \<Rightarrow> goerr option"
  writeError :: "nat \<Rightarrow> goerr option"
  tornFile :: "nat \<Rightarrow> string option \<Rightarrow> string \<Rightarrow> string option"
  killError :: "nat \<Rightarrow> goerr option"
  processExited :: "nat \<Rightarrow> bool"
  renameError :: "nat \<Rightarrow> bool"
  hostsError :: "nat \<Rightarrow> goerr option"
  importExisting :: "nat \<Rightarrow> goerr + EtcdState option"
  buildVfsPath :: "string \<Rightarrow> goerr + vpath"
  mkdirTempError :: "nat \<Rightarrow> goerr option"
  snapshotSave :: "nat \<Rightarrow> string list \<Rightarrow> goerr + string"
  storeEnv :: vfsEnv
  infoCodec :: "BackupInfo codec"

definition call :: "(EtcdServer, nat) prog" where
  "call = (\<lambda>s. (Ret (calls s), s\<lparr>calls := Suc (calls s)\<rparr>))"

definition onCerts :: "(certRequest list, 'a) prog \<Rightarrow> (EtcdServer, 'a) prog" where
  "onCerts p = (\<lambda>s. case p (certRequests s) of (r, cs) \<Rightarrow> (r, s\<lparr>certRequests := cs\<rparr>))"

definition onStore :: "(vfs, 'a) prog \<Rightarrow> (EtcdServer, 'a) prog" where
  "onStore p = (\<lambda>s. case p (backupFiles s) of (r, v) \<Rightarrow> (r, s\<lparr>backupFiles := v\<rparr>))"

definition orFail :: "goerr option \<Rightarrow> (EtcdServer, unit) prog" where
  "orFail r = (case r of Some e \<Rightarrow> fail e | None \<Rightarrow> ret ())"

section \<open>The state file\<close>

definition readState :: "serverEnv \<Rightarrow> (EtcdServer, EtcdState option) prog" where
  "readState E = bind call (\<lambda>n.
     seq (rewrap (Wrapf ''error reading state file'') (orFail (readError E n)))
      (bind (gets stateFile) (\<lambda>f. case f of
         None \<Rightarrow> ret None
       | Some b \<Rightarrow> bind (rewrap (Wrapf ''error parsing state file'') (lift (unmarshal E b))) (\<lambda>st. ret (Some st)))))"

definition writeState :: "serverEnv \<Rightarrow> EtcdState \<Rightarrow> (EtcdServer, unit) prog" where
  "writeState E st =
     bind (rewrap (Wrapf ''error marshaling state data'') (lift (marshal E st))) (\<lambda>b.
     bind call (\<lambda>n.
       case writeError E n of
         Some e \<Rightarrow> seq (modify (\<lambda>s. s\<lparr>stateFile := tornFile E n (stateFile s) b\<rparr>)) (fail (Wrapf ''error writing state file'' e))
       | None \<Rightarrow> modify (\<lambda>s. s\<lparr>stateFile := Some b\<rparr>)))"

definition initState :: "serverEnv \<Rightarrow> (EtcdServer, unit) prog" where
  "initState E = bind (gets state) (\<lambda>st. case st of
     Some _ \<Rightarrow> ret ()
   | None \<Rightarrow> bind (readState E) (\<lambda>r. case r of
       None \<Rightarrow> ret ()
     | Some st \<Rightarrow> modify (\<lambda>s. s\<lparr>state := Some st\<rparr>)))"

section \<open>The etcd process\<close>

definition findSelfNode :: "string \<Rightarrow> EtcdCluster \<Rightarrow> goerr + EtcdNode option" where
  "findSelfNode name cluster =
     (case filter (\<lambda>node. Name node = name) (Nodes cluster) of
        [] \<Rightarrow> Inr None
      | [me] \<Rightarrow> Inr (Some me)
      | _ \<Rightarrow> Inl (Errorf ''multiple nodes matching local name included in cluster''))"

text \<open>The configured client URLs replace those of the stored state.\<close>

definition withOwnUrls :: "EtcdNode \<Rightarrow> EtcdNode \<Rightarrow> EtcdNode" where
  "withOwnUrls config node =
     (if Name node = Name config
      then node\<lparr>ClientUrls := ClientUrls config, QuarantinedClientUrls := QuarantinedClientUrls config\<rparr> else node)"

definition newProcess :: "EtcdServer \<Rightarrow> EtcdState \<Rightarrow> EtcdCluster \<Rightarrow> EtcdNode \<Rightarrow> etcdProcess" where
  "newProcess s st cluster me =
     \<lparr>BinDir = '''', DataDir = pathJoin [baseDir s, ''data'', ClusterToken cluster], CurrentDir = '''',
      PKIPeersDir = '''', PKIClientsDir = '''', etcdClientTLSConfig = False, EtcdVersion = '''',
      CreateNewCluster = False, ForceNewCluster = False,
      ProcCluster = \<lparr>DesiredClusterSize = 0, ClusterToken = ClusterToken cluster,
        Nodes = map (withOwnUrls (etcdNodeConfiguration s)) (Nodes cluster)\<rparr>,
      MyNodeName = Name (etcdNodeConfiguration s), ProcQuarantined = Quarantined st,
      DisableTLS = \<not> TlsEnabled me, cmd = None, ListenAddress = listenAddress s,
      ListenMetricsURLs = listenMetricsURLs s, IgnoreListenMetricsURLs = False\<rparr>"

definition launch :: "nodeos \<Rightarrow> EtcdState \<Rightarrow> etcdProcess \<Rightarrow> (EtcdServer, unit) prog" where
  "launch os st p =
     bind (lift (BindirForEtcdVersion os (StateVersion st) ''etcd'')) (\<lambda>binDir.
       case Start os (p\<lparr>BinDir := binDir, EtcdVersion := StateVersion st, CreateNewCluster := NewCluster st\<rparr>) of
         Err e \<Rightarrow> fail (Wrapf ''error starting etcd'' e)
       | Crash m \<Rightarrow> crash m
       | Ret p' \<Rightarrow> modify (\<lambda>s. s\<lparr>process := Some p'\<rparr>))"

definition startEtcdProcess :: "serverEnv \<Rightarrow> EtcdState \<Rightarrow> (EtcdServer, unit) prog" where
  "startEtcdProcess E st =
     (case Cluster st of
        None \<Rightarrow> fail (Errorf ''cluster not configured, cannot start etcd'')
      | Some cluster \<Rightarrow>
          if ClusterToken cluster = '''' then fail (Errorf ''ClusterToken not configured, cannot start etcd'')
          else bind (gets id) (\<lambda>s. bind call (\<lambda>n.
            case findSelfNode (Name (etcdNodeConfiguration s)) cluster of
              Inl e \<Rightarrow> fail e
            | Inr None \<Rightarrow> fail (Errorf ''self node was not included in cluster'')
            | Inr (Some me) \<Rightarrow>
                (let me' = withOwnUrls (etcdNodeConfiguration s) me;
                     pkiDir = pathJoin [baseDir s, ''pki'', ClusterToken cluster]
                 in bind (onCerts (createKeypairs (osAt E n) (etcdPeersCA s) (etcdClientsCA s) pkiDir me' (peerClientIPs s)
                           (newProcess s st cluster me'))) (launch (osAt E n) st)))))"

definition stopEtcdProcess :: "serverEnv \<Rightarrow> (EtcdServer, bool) prog" where
  "stopEtcdProcess E = bind (gets process) (\<lambda>po. case po of
     None \<Rightarrow> ret False
   | Some p \<Rightarrow> bind call (\<lambda>n. case Stop (killError E n) (processExited E n) p of
       Some e \<Rightarrow> fail (Wrapf ''error killing etcd'' e)
     | None \<Rightarrow> seq (modify (\<lambda>s. s\<lparr>process := None\<rparr>)) (ret True)))"

definition runOnce :: "serverEnv \<Rightarrow> (EtcdServer, unit) prog" where
  "runOnce E =
     seq (initState E)
     (bind call (\<lambda>n.
      seq (if processExited E n then modify (\<lambda>s. s\<lparr>process := None\<rparr>) else ret ())
      (bind (gets id) (\<lambda>s. case state s of
         None \<Rightarrow> ret ()
       | Some st \<Rightarrow> if Cluster st \<noteq> None \<and> process s = None then startEtcdProcess E st else ret ()))))"

section \<open>Handlers\<close>

definition validateHeader :: "CommonRequestHeader option \<Rightarrow> (EtcdServer, unit) prog" where
  "validateHeader h = bind (gets id) (\<lambda>s. case h of
     None \<Rightarrow> crash ''nil pointer dereference''
   | Some header \<Rightarrow>
       if HeaderCluster header \<noteq> clusterName s then fail (Errorf ''ClusterName mismatch'')
       else if \<not> IsLeader (peerServer s) (HeaderToken header)
       then fail (Errorf ''LeadershipToken in request is not current leader'')
       else ret ())"

definition GetInfo :: "(EtcdServer, GetInfoResponse) prog" where
  "GetInfo = gets (\<lambda>s. \<lparr>InfoClusterName = clusterName s, NodeConfiguration = Some (etcdNodeConfiguration s),
     InfoState = (case state s of None \<Rightarrow> None | Some st \<Rightarrow> if Cluster st \<noteq> None then Some st else None)\<rparr>)"

fun addAddresses :: "string \<Rightarrow> string list \<Rightarrow> (string \<times> string list) list \<Rightarrow> goerr + (string \<times> string list) list" where
  "addAddresses dns [] m = Inr m"
| "addAddresses dns (a # as) m =
     (case SplitHostPort a of
        None \<Rightarrow> Inl (Errorf ''failed to parse address'')
      | Some (ip, _) \<Rightarrow>
          addAddresses dns as (put ip ((case map_of m ip of None \<Rightarrow> [] | Some hs \<Rightarrow> hs) @ [dns]) m))"

fun addressToHosts :: "MemberMapInfo list \<Rightarrow> (string \<times> string list) list \<Rightarrow> goerr + (string \<times> string list) list" where
  "addressToHosts [] m = Inr m"
| "addressToHosts (x # xs) m =
     (if MapDns x = '''' then addressToHosts xs m
      else (case addAddresses (MapDns x) (MapAddresses x) m of
              Inl e \<Rightarrow> Inl e
            | Inr m' \<Rightarrow> addressToHosts xs m'))"

definition UpdateEndpoints :: "serverEnv \<Rightarrow> MemberMapInfo list option \<Rightarrow> (EtcdServer, unit) prog" where
  "UpdateEndpoints E memberMap =
     (case memberMap of
        None \<Rightarrow> ret ()
      | Some members \<Rightarrow>
          bind (lift (addressToHosts members [])) (\<lambda>m.
            if m = [] then ret ()
            else bind call (\<lambda>n. seq (modify (\<lambda>s. s\<lparr>hostsUpdates := hostsUpdates s @ [m]\<rparr>)) (orFail (hostsError E n)))))"

definition joinState :: "bool \<Rightarrow> bool \<Rightarrow> JoinClusterRequest \<Rightarrow> EtcdState" where
  "joinState newCluster quarantined r =
     \<lparr>NewCluster = newCluster,
      Cluster = Some \<lparr>DesiredClusterSize = 0, ClusterToken = JoinToken r, Nodes = JoinNodes r\<rparr>,
      StateVersion = JoinVersion r, Quarantined = quarantined\<rparr>"

definition setState :: "EtcdState \<Rightarrow> (EtcdServer, unit) prog" where
  "setState st = modify (\<lambda>s. s\<lparr>state := Some st\<rparr>)"

definition notRunning :: "(EtcdServer, unit) prog" where
  "notRunning = bind (gets process) (\<lambda>p. if p \<noteq> None then fail (Errorf ''etcd process already running'') else ret ())"

definition checkPrepared :: "string \<Rightarrow> (EtcdServer, unit) prog" where
  "checkPrepared token = bind (gets prepared) (\<lambda>pr. case pr of
     None \<Rightarrow> fail (Errorf ''not prepared'')
   | Some p \<Rightarrow> if preparedToken p \<noteq> token then fail (Errorf ''clusterToken does not match prepared'') else ret ())"

definition cancelPrepare :: "string \<Rightarrow> (EtcdServer, unit) prog" where
  "cancelPrepare token = bind (gets prepared) (\<lambda>pr. case pr of
     None \<Rightarrow> ret ()
   | Some p \<Rightarrow> if preparedToken p = token then modify (\<lambda>s. s\<lparr>prepared := None\<rparr>)
              else fail (Errorf ''concurrent prepare in progress''))"

definition expirePrepared :: "time \<Rightarrow> (EtcdServer, unit) prog" where
  "expirePrepared now = modify (\<lambda>s. case prepared s of
     None \<Rightarrow> s
   | Some p \<Rightarrow> if timeAfter now (validUntil p) then s\<lparr>prepared := None\<rparr> else s)"

definition installState :: "serverEnv \<Rightarrow> EtcdState \<Rightarrow> (EtcdServer, unit) prog" where
  "installState E st = seq (setState st) (seq (writeState E st) (startEtcdProcess E st))"

definition prepareJoin :: "serverEnv \<Rightarrow> JoinClusterRequest \<Rightarrow> (EtcdServer, unit) prog" where
  "prepareJoin E r =
     seq notRunning
     (bind (gets prepared) (\<lambda>pr.
        if pr \<noteq> None then fail (Errorf ''concurrent prepare in progress'')
        else bind call (\<lambda>n. modify (\<lambda>s. s\<lparr>prepared := Some
          \<lparr>validUntil = timeAdd (nowAt E n) PreparedValidity, preparedToken = JoinToken r\<rparr>\<rparr>))))"

definition foundCluster :: "serverEnv \<Rightarrow> JoinClusterRequest \<Rightarrow> (EtcdServer, unit) prog" where
  "foundCluster E r =
     seq notRunning (seq (checkPrepared (JoinToken r))
     (seq (installState E (joinState True True r))
     (seq (setState (joinState False True r))
     (seq (writeState E (joinState False True r))
       (modify (\<lambda>s. s\<lparr>prepared := None\<rparr>))))))"

definition joinExisting :: "serverEnv \<Rightarrow> JoinClusterRequest \<Rightarrow> (EtcdServer, unit) prog" where
  "joinExisting E r =
     seq notRunning (seq (checkPrepared (JoinToken r))
     (seq (installState E (joinState False False r))
       (modify (\<lambda>s. s\<lparr>prepared := None\<rparr>))))"

definition JoinCluster :: "serverEnv \<Rightarrow> JoinClusterRequest \<Rightarrow> (EtcdServer, unit) prog" where
  "JoinCluster E r =
     seq (validateHeader (JoinHeader r))
     (if JoinPhase r = PHASE_CANCEL_PREPARE then cancelPrepare (JoinToken r)
      else bind call (\<lambda>n.
        seq (expirePrepared (nowAt E n))
        (case BindirForEtcdVersion (osAt E n) (JoinVersion r) ''etcd'' of
           Inl _ \<Rightarrow> fail (Errorf ''etcd version not supported'')
         | Inr _ \<Rightarrow>
             (case JoinPhase r of
                PHASE_PREPARE \<Rightarrow> prepareJoin E r
              | PHASE_INITIAL_CLUSTER \<Rightarrow> foundCluster E r
              | PHASE_JOIN_EXISTING \<Rightarrow> joinExisting E r
              | _ \<Rightarrow> fail (Errorf ''unknown status'')))))"

text \<open>
  \<open>Reconfigure\<close> works on a copy of the state and installs it once etcd is stopped. A state
  without a cluster (left by \<open>StopEtcd\<close>) makes it dereference nil.
\<close>

definition enableTls :: "EtcdNode \<Rightarrow> EtcdNode" where
  "enableTls node = node\<lparr>TlsEnabled := True, PeerUrls := RewriteScheme (PeerUrls node) ''http://'' ''https://'',
     ClientUrls := RewriteScheme (ClientUrls node) ''http://'' ''https://''\<rparr>"

definition reconfiguredState :: "string \<Rightarrow> ReconfigureRequest \<Rightarrow> EtcdState \<Rightarrow> EtcdCluster \<Rightarrow> EtcdState" where
  "reconfiguredState self r st cluster =
     st\<lparr>StateVersion := (if SetEtcdVersion r \<noteq> '''' then SetEtcdVersion r else StateVersion st),
        Quarantined := ReconfQuarantined r,
        Cluster := Some (if EnableTls r
          then cluster\<lparr>Nodes := map (\<lambda>node. if Name node = self then enableTls node else node) (Nodes cluster)\<rparr>
          else cluster)\<rparr>"

definition Reconfigure :: "serverEnv \<Rightarrow> ReconfigureRequest \<Rightarrow> (EtcdServer, unit) prog" where
  "Reconfigure E r =
     seq (validateHeader (ReconfHeader r))
     (bind (gets id) (\<lambda>s. case state s of
        None \<Rightarrow> fail (Errorf ''cluster not running'')
      | Some st \<Rightarrow> (case Cluster st of
          None \<Rightarrow> crash ''nil pointer dereference''
        | Some cluster \<Rightarrow> (case findSelfNode (Name (etcdNodeConfiguration s)) cluster of
            Inl e \<Rightarrow> fail e
          | Inr None \<Rightarrow> fail (Errorf ''could not find self node in cluster'')
          | Inr (Some me) \<Rightarrow>
              bind call (\<lambda>n.
              (let st' = reconfiguredState (Name (etcdNodeConfiguration s)) r st cluster in
               if SetEtcdVersion r \<noteq> '''' \<and> isl (BindirForEtcdVersion (osAt E n) (SetEtcdVersion r) ''etcd'')
               then fail (Errorf ''etcd version not supported'')
               else bind (rewrap (Wrapf ''error stoppping etcd process'') (stopEtcdProcess E)) (\<lambda>_.
                    installState E st')))))))"

definition StopEtcd :: "serverEnv \<Rightarrow> CommonRequestHeader option \<Rightarrow> (EtcdServer, unit) prog" where
  "StopEtcd E header =
     seq (validateHeader header)
     (bind (gets id) (\<lambda>s. case state s of
        None \<Rightarrow> fail (Errorf ''cluster not running'')
      | Some st \<Rightarrow> (case Cluster st of
          None \<Rightarrow> crash ''nil pointer dereference''
        | Some cluster \<Rightarrow>
            bind (rewrap (Wrapf ''error stoppping etcd process'') (stopEtcdProcess E)) (\<lambda>_.
            seq (setState emptyState)
            (seq (writeState E emptyState)
            (bind call (\<lambda>n.
              if renameError E n then ret ()
              else modify (\<lambda>s. s\<lparr>trashcan := trashcan s @
                [(pathJoin [baseDir s, ''data'', ClusterToken cluster],
                  pathJoin [baseDir s, ''data-trashcan'', ClusterToken cluster])]\<rparr>))))))))"

subsection \<open>Backup\<close>

definition pad6 :: "nat \<Rightarrow> string" where
  "pad6 n = (let ds = FormatUint n in replicate (6 - length ds) (CHR ''0'') @ ds)"

definition uploadBackup :: "serverEnv \<Rightarrow> vpath \<Rightarrow> BackupInfo \<Rightarrow> string \<Rightarrow> (EtcdServer, string) prog" where
  "uploadBackup E base info contents =
     seq (modify (\<lambda>s. s\<lparr>sequence := (if Suc (sequence s) > 999999 then 0 else Suc (sequence s))\<rparr>))
     (bind (gets sequence) (\<lambda>q.
        rewrap (Wrapf ''error copying backup to storage'')
          (onStore (AddBackup (storeEnv E) (infoCodec E) base (\<lambda>_. Inr contents) ''snapshot.db.gz'' (pad6 q) info))))"

definition DoBackupV3 :: "serverEnv \<Rightarrow> vpath \<Rightarrow> BackupInfo \<Rightarrow> string list \<Rightarrow> (EtcdServer, string) prog" where
  "DoBackupV3 E base info clientUrls =
     bind call (\<lambda>n.
       seq (rewrap (Wrapf ''error creating etcd backup temp directory'') (orFail (mkdirTempError E n)))
       (bind (rewrap (Wrapf ''error building etcd client to etcd'') (lift (clientFor (osAt E n) clientUrls))) (\<lambda>client.
        bind (rewrap (Wrapf ''error performing snapshot save'') (lift (snapshotSave E n client))) (\<lambda>contents.
          uploadBackup E base info contents))))"

definition backupTo :: "serverEnv \<Rightarrow> vpath \<Rightarrow> BackupInfo \<Rightarrow> string list \<Rightarrow> (EtcdServer, string) prog" where
  "backupTo E base info clientUrls =
     (if BackupVersion info = '''' then fail (Errorf ''EtcdVersion not set'') else DoBackupV3 E base info clientUrls)"

definition processBackup :: "serverEnv \<Rightarrow> vpath \<Rightarrow> BackupInfo \<Rightarrow> etcdProcess \<Rightarrow> (EtcdServer, string) prog" where
  "processBackup E base info p = (case findMyNode p of
     None \<Rightarrow> fail (Errorf ''unable to find self node'')
   | Some me \<Rightarrow> backupTo E base info (activeClientUrls p me))"

definition DoBackup :: "serverEnv \<Rightarrow> DoBackupRequest \<Rightarrow> (EtcdServer, string) prog" where
  "DoBackup E r =
     seq (validateHeader (BackupHeader r))
     (bind (gets process) (\<lambda>po. case po of
        None \<Rightarrow> fail (Errorf ''etcd not running'')
      | Some p \<Rightarrow>
          if BackupStorage r = '''' then fail (Errorf ''request Storage is required'')
          else (case BackupReqInfo r of
             None \<Rightarrow> fail (Errorf ''request Info is required'')
           | Some info \<Rightarrow>
               bind (lift (buildVfsPath E (BackupStorage r))) (\<lambda>base.
                 processBackup E base (info\<lparr>BackupVersion := EtcdVersion p\<rparr>) p))))"

section \<open>Start-up\<close>

definition NewEtcdServer :: "serverEnv \<Rightarrow> (EtcdServer, unit) prog" where
  "NewEtcdServer E =
     seq (initState E)
     (bind (gets state) (\<lambda>st. case st of
        Some _ \<Rightarrow> ret ()
      | None \<Rightarrow> bind call (\<lambda>n. bind (lift (importExisting E n)) (\<lambda>r. case r of
          None \<Rightarrow> ret ()
        | Some st \<Rightarrow> seq (writeState E st) (setState st)))))"

section \<open>What the building blocks do\<close>

lemma wp_call [wp_simps]: "wp call Q s = Q (Ret (calls s)) (s\<lparr>calls := Suc (calls s)\<rparr>)"
  by (simp add: call_def wp_def)

lemma wp_onCerts [wp_simps]: "wp (onCerts p) Q s = wp p (\<lambda>r cs. Q r (s\<lparr>certRequests := cs\<rparr>)) (certRequests s)"
  by (simp add: onCerts_def wp_def split: prod.split)

lemma wp_onStore [wp_simps]: "wp (onStore p) Q s = wp p (\<lambda>r v. Q r (s\<lparr>backupFiles := v\<rparr>)) (backupFiles s)"
  by (simp add: onStore_def wp_def split: prod.split)

lemma wp_orFail [wp_simps]: "wp (orFail r) Q s = (case r of Some e \<Rightarrow> Q (Err e) s | None \<Rightarrow> Q (Ret ()) s)"
  by (simp add: orFail_def wp_simps split: option.split)

lemma wp_setState [wp_simps]: "wp (setState st) Q s = Q (Ret ()) (s\<lparr>state := Some st\<rparr>)"
  by (simp add: setState_def wp_simps)

lemma wp_notRunning [wp_simps]:
  "wp notRunning Q s = (if process s = None then Q (Ret ()) s else Q (Err (Errorf ''etcd process already running'')) s)"
  by (simp add: notRunning_def wp_simps)

lemma wp_checkPrepared [wp_simps]:
  "wp (checkPrepared token) Q s = (case prepared s of
     None \<Rightarrow> Q (Err (Errorf ''not prepared'')) s
   | Some p \<Rightarrow> if preparedToken p = token then Q (Ret ()) s else Q (Err (Errorf ''clusterToken does not match prepared'')) s)"
  by (simp add: checkPrepared_def wp_simps split: option.split)

text \<open>A header is valid if it names the cluster and carries the token of the current leader.\<close>

definition validFor :: "EtcdServer \<Rightarrow> CommonRequestHeader option \<Rightarrow> bool" where
  "validFor s h \<longleftrightarrow> (\<exists>header. h = Some header \<and> HeaderCluster header = clusterName s \<and>
     IsLeader (peerServer s) (HeaderToken header))"

lemma validateHeader_valid: "validFor s h \<Longrightarrow> validateHeader h s = (Ret (), s)"
  by (auto simp: validFor_def validateHeader_def bind_def gets_def ret_def fail_def crash_def)

lemma validateHeader_invalid: "\<not> validFor s h \<Longrightarrow> validateHeader h s \<in> {(Err (Errorf ''ClusterName mismatch''), s),
    (Err (Errorf ''LeadershipToken in request is not current leader''), s), (Crash ''nil pointer dereference'', s)}"
  by (auto simp: validFor_def validateHeader_def bind_def gets_def ret_def fail_def crash_def split: option.split)

lemma wp_validateHeader: "(validFor s h \<Longrightarrow> Q (Ret ()) s) \<Longrightarrow> (\<And>e. \<not> validFor s h \<Longrightarrow> Q (Err e) s) \<Longrightarrow>
   (\<And>m. \<not> validFor s h \<Longrightarrow> Q (Crash m) s) \<Longrightarrow> wp (validateHeader h) Q s"
  using validateHeader_valid [of s h] validateHeader_invalid [of s h] by (cases "validFor s h") (auto simp: wp_def)

lemma createKeypairs_returns:
  "returns (createKeypairs os a b dir me ips p)
     (\<lambda>p'. \<exists>x y z. p' = p\<lparr>PKIPeersDir := x, PKIClientsDir := y, etcdClientTLSConfig := z\<rparr>)"
proof -
  have "\<exists>x y z. p\<lparr>PKIPeersDir := u\<rparr> = p\<lparr>PKIPeersDir := x, PKIClientsDir := y, etcdClientTLSConfig := z\<rparr>"
    "\<exists>x y z. p\<lparr>PKIPeersDir := u, PKIClientsDir := v\<rparr> = p\<lparr>PKIPeersDir := x, PKIClientsDir := y, etcdClientTLSConfig := z\<rparr>"
    "\<exists>x y z. p\<lparr>PKIClientsDir := v, etcdClientTLSConfig := w\<rparr> = p\<lparr>PKIPeersDir := x, PKIClientsDir := y, etcdClientTLSConfig := z\<rparr>"
    "\<exists>x y z. p = p\<lparr>PKIPeersDir := x, PKIClientsDir := y, etcdClientTLSConfig := z\<rparr>"
    "\<exists>x y z. p\<lparr>PKIPeersDir := u, PKIClientsDir := v, etcdClientTLSConfig := w\<rparr> = p\<lparr>PKIPeersDir := x, PKIClientsDir := y, etcdClientTLSConfig := z\<rparr>"
    for u v w by (cases p; simp)+
  then show ?thesis
    unfolding createKeypairs_def Let_def by (cases a; cases b) (simp_all add: returns_seq returns_pure)
qed

text \<open>
  \<open>runs s st p\<close>: the process \<open>p\<close> runs on the node \<open>s\<close> with the configuration of the state \<open>st\<close>.
\<close>

definition runs :: "EtcdServer \<Rightarrow> EtcdState \<Rightarrow> etcdProcess \<Rightarrow> bool" where
  "runs s st p \<longleftrightarrow> cmd p \<noteq> None \<and> CurrentDir p = '''' \<and> MyNodeName p = Name (etcdNodeConfiguration s) \<and>
     (\<exists>cluster. Cluster st = Some cluster \<and> ClusterToken cluster \<noteq> '''' \<and>
        ClusterToken (ProcCluster p) = ClusterToken cluster \<and>
        Nodes (ProcCluster p) = map (withOwnUrls (etcdNodeConfiguration s)) (Nodes cluster) \<and>
        DataDir p = pathJoin [baseDir s, ''data'', ClusterToken cluster]) \<and>
     ProcQuarantined p = Quarantined st \<and> EtcdVersion p = StateVersion st"

lemma runs_cong: "etcdNodeConfiguration s' = etcdNodeConfiguration s \<Longrightarrow> baseDir s' = baseDir s \<Longrightarrow> runs s' st p = runs s st p"
  by (simp add: runs_def)

lemma launch_runs:
  assumes "Start os (p\<lparr>BinDir := d, EtcdVersion := StateVersion st, CreateNewCluster := NewCluster st\<rparr>) = Ret p'"
    and "p = newProcess s st cluster me\<lparr>PKIPeersDir := x, PKIClientsDir := y, etcdClientTLSConfig := z\<rparr>"
    and "Cluster st = Some cluster" "ClusterToken cluster \<noteq> ''''"
  shows "runs s st p' \<and> CreateNewCluster p' = NewCluster st"
  using assms by (elim StartE) (simp add: runs_def newProcess_def)

text \<open>\<open>launching s s'\<close>: only the process, the certificates and the call counter may differ.\<close>

definition launching :: "EtcdServer \<Rightarrow> EtcdServer \<Rightarrow> bool" where
  "launching s s' \<longleftrightarrow> baseDir s' = baseDir s \<and> peerServer s' = peerServer s \<and>
     etcdNodeConfiguration s' = etcdNodeConfiguration s \<and> clusterName s' = clusterName s \<and> state s' = state s \<and>
     prepared s' = prepared s \<and> listenAddress s' = listenAddress s \<and> etcdClientsCA s' = etcdClientsCA s \<and>
     etcdPeersCA s' = etcdPeersCA s \<and> listenMetricsURLs s' = listenMetricsURLs s \<and> peerClientIPs s' = peerClientIPs s \<and>
     sequence s' = sequence s \<and> backupFiles s' = backupFiles s \<and> stateFile s' = stateFile s \<and>
     trashcan s' = trashcan s \<and> hostsUpdates s' = hostsUpdates s"

lemma launching_simps [simp]:
  "launching s s" "launching s (t\<lparr>calls := n\<rparr>) = launching s t"
  "launching s (t\<lparr>certRequests := cs\<rparr>) = launching s t" "launching s (t\<lparr>process := po\<rparr>) = launching s t"
  by (simp_all add: launching_def)

text \<open>\<open>launched s st\<close>: the node runs the configuration of \<open>st\<close>, or the call failed and left the process alone.\<close>

definition launched :: "EtcdServer \<Rightarrow> EtcdState \<Rightarrow> unit outcome \<Rightarrow> EtcdServer \<Rightarrow> bool" where
  "launched s st r s' \<longleftrightarrow> launching s s' \<and>
     (case r of Ret _ \<Rightarrow> (\<exists>p. process s' = Some p \<and> runs s st p \<and> CreateNewCluster p = NewCluster st)
      | _ \<Rightarrow> process s' = process s)"

lemma launched_failed [simp]:
  "launched s st (Err e) s' \<longleftrightarrow> launching s s' \<and> process s' = process s"
  "launched s st (Crash m) s' \<longleftrightarrow> launching s s' \<and> process s' = process s"
  by (simp_all add: launched_def)

lemma launch_spec:
  assumes "\<And>d p'. Start os (p\<lparr>BinDir := d, EtcdVersion := StateVersion st, CreateNewCluster := NewCluster st\<rparr>) = Ret p' \<Longrightarrow>
      runs s st p' \<and> CreateNewCluster p' = NewCluster st"
    and "launching s t" "process t = process s"
  shows "wp (launch os st p) (launched s st) t"
  using assms by (auto simp: launch_def launched_def wp_simps split: sum.split outcome.split)

lemma startEtcdProcess_spec: "wp (startEtcdProcess E st) (launched s st) s"
proof (cases "Cluster st")
  case None
  then show ?thesis by (simp add: startEtcdProcess_def launched_def wp_simps)
next
  case (Some cluster)
  have "wp (createKeypairs os a b dir me ips (newProcess s st cluster me)) (\<lambda>r cs. case r of
      Ret p \<Rightarrow> wp (launch os st p) (launched s st) (s\<lparr>calls := n, certRequests := cs\<rparr>)
    | Err e \<Rightarrow> launched s st (Err e) (s\<lparr>calls := n, certRequests := cs\<rparr>)
    | Crash e \<Rightarrow> launched s st (Crash e) (s\<lparr>calls := n, certRequests := cs\<rparr>)) cs"
    if "ClusterToken cluster \<noteq> ''''" for os a b dir me ips n cs
    by (rule wpI) (auto split: outcome.split dest!: returnsD [OF createKeypairs_returns]
        intro!: launch_spec launch_runs [OF _ refl Some that])
  then show ?thesis
    by (auto simp: startEtcdProcess_def Some wp_bind wp_gets wp_call wp_onCerts wp_fail Let_def split: option.split sum.split)
qed

end
