(* ===== verification/ServerSafety.thy ===== *)
theory ServerSafety
  imports EtcdServer
begin

text \<open>
  What the handlers of the server guarantee: requests without the current leader's token change
  nothing, joining takes both phases, a running etcd has the configuration of the stored state, and
  the state survives a restart. The handlers and the run loop are the transitions of a step
  relation, and the invariants hold in every reachable state.
\<close>

section \<open>The parts of the handlers\<close>

lemma wp_writeState [wp_simps]:
  "wp (writeState E st) Q s = (case marshal E st of
     Inl e \<Rightarrow> Q (Err (Wrapf ''error marshaling state data'' e)) s
   | Inr b \<Rightarrow> (case writeError E (calls s) of
       Some e \<Rightarrow> Q (Err (Wrapf ''error writing state file'' e))
         (s\<lparr>calls := Suc (calls s), stateFile := tornFile E (calls s) (stateFile s) b\<rparr>)
     | None \<Rightarrow> Q (Ret ()) (s\<lparr>calls := Suc (calls s), stateFile := Some b\<rparr>)))"
  by (simp add: writeState_def wp_simps split: sum.split option.split)

lemma wp_stopEtcdProcess [wp_simps]:
  "wp (stopEtcdProcess E) Q s = (case process s of
     None \<Rightarrow> Q (Ret False) s
   | Some p \<Rightarrow> (case Stop (killError E (calls s)) (processExited E (calls s)) p of
       Some e \<Rightarrow> Q (Err (Wrapf ''error killing etcd'' e)) (s\<lparr>calls := Suc (calls s)\<rparr>)
     | None \<Rightarrow> Q (Ret True) (s\<lparr>calls := Suc (calls s), process := None\<rparr>)))"
  by (simp add: stopEtcdProcess_def wp_simps split: option.split)

lemma wp_start: "(\<And>r s'. launched s st r s' \<Longrightarrow> Q r s') \<Longrightarrow> wp (startEtcdProcess E st) Q s"
  by (rule wp_mono [OF startEtcdProcess_spec])

text \<open>
  \<open>consistent s\<close>: an etcd process that runs has the configuration of the current state.
  \<open>sameNode s s'\<close>: the identity of the node is fixed.
\<close>

definition consistent :: "EtcdServer \<Rightarrow> bool" where
  "consistent s \<longleftrightarrow> (\<forall>p. process s = Some p \<longrightarrow> (\<exists>st. state s = Some st \<and> runs s st p))"

definition sameNode :: "EtcdServer \<Rightarrow> EtcdServer \<Rightarrow> bool" where
  "sameNode s s' \<longleftrightarrow> baseDir s' = baseDir s \<and> etcdNodeConfiguration s' = etcdNodeConfiguration s \<and>
     clusterName s' = clusterName s \<and> peerServer s' = peerServer s \<and>
     etcdPeersCA s' = etcdPeersCA s \<and> etcdClientsCA s' = etcdClientsCA s"

lemma sameNode_refl [simp]: "sameNode s s"
  by (simp add: sameNode_def)

lemma sameNode_upd [simp]:
  "sameNode s (t\<lparr>state := a\<rparr>) = sameNode s t" "sameNode s (t\<lparr>prepared := b\<rparr>) = sameNode s t"
  "sameNode s (t\<lparr>process := c\<rparr>) = sameNode s t" "sameNode s (t\<lparr>calls := d\<rparr>) = sameNode s t"
  "sameNode s (t\<lparr>stateFile := f\<rparr>) = sameNode s t" "sameNode s (t\<lparr>trashcan := g\<rparr>) = sameNode s t"
  "sameNode s (t\<lparr>hostsUpdates := h\<rparr>) = sameNode s t" "sameNode s (t\<lparr>backupFiles := i\<rparr>) = sameNode s t"
  "sameNode s (t\<lparr>sequence := j\<rparr>) = sameNode s t"
  by (simp_all add: sameNode_def)

lemma sameNode_from [simp]:
  "sameNode (s\<lparr>calls := n\<rparr>) = sameNode s" "sameNode (s\<lparr>state := a\<rparr>) = sameNode s" "sameNode (s\<lparr>process := p\<rparr>) = sameNode s"
  by (simp_all add: sameNode_def fun_eq_iff)

lemma runs_upd [simp]:
  "runs (t\<lparr>state := a\<rparr>) = runs t" "runs (t\<lparr>prepared := b\<rparr>) = runs t"
  "runs (t\<lparr>process := c\<rparr>) = runs t" "runs (t\<lparr>calls := d\<rparr>) = runs t"
  "runs (t\<lparr>stateFile := f\<rparr>) = runs t" "runs (t\<lparr>trashcan := g\<rparr>) = runs t"
  "runs (t\<lparr>hostsUpdates := h\<rparr>) = runs t" "runs (t\<lparr>backupFiles := i\<rparr>) = runs t"
  "runs (t\<lparr>sequence := j\<rparr>) = runs t" "runs (t\<lparr>peerServer := k\<rparr>) = runs t"
  by (rule ext, rule ext, rule runs_cong; simp)+

lemma consistent_upd [simp]:
  "consistent (t\<lparr>prepared := b\<rparr>) = consistent t" "consistent (t\<lparr>calls := d\<rparr>) = consistent t"
  "consistent (t\<lparr>stateFile := f\<rparr>) = consistent t" "consistent (t\<lparr>trashcan := g\<rparr>) = consistent t"
  "consistent (t\<lparr>hostsUpdates := h\<rparr>) = consistent t" "consistent (t\<lparr>backupFiles := i\<rparr>) = consistent t"
  "consistent (t\<lparr>sequence := j\<rparr>) = consistent t" "consistent (t\<lparr>peerServer := k\<rparr>) = consistent t"
  by (simp_all add: consistent_def)

lemma consistent_stopped [simp]: "process s = None \<Longrightarrow> consistent s"
  by (simp add: consistent_def)

lemma launched_sameNode: "launched s st r s' \<Longrightarrow> sameNode t s' = sameNode t s"
  by (simp add: launched_def launching_def sameNode_def)

text \<open>
  Installing a state on a node where no etcd runs, as \<open>JoinCluster\<close> and \<open>Reconfigure\<close> do: set it, write
  it, start etcd.
\<close>

definition installed :: "serverEnv \<Rightarrow> EtcdServer \<Rightarrow> EtcdState \<Rightarrow> unit outcome \<Rightarrow> EtcdServer \<Rightarrow> bool" where
  "installed E s st r s' \<longleftrightarrow> sameNode s s' \<and> consistent s' \<and> prepared s' = prepared s \<and> (\<forall>x. r = Ret x \<longrightarrow>
     state s' = Some st \<and> (\<exists>p b. process s' = Some p \<and> runs s st p \<and> CreateNewCluster p = NewCluster st \<and>
       marshal E st = Inr b \<and> stateFile s' = Some b))"

lemma installed_failed [simp]:
  "installed E s st (Err e) s' \<longleftrightarrow> sameNode s s' \<and> consistent s' \<and> prepared s' = prepared s"
  "installed E s st (Crash m) s' \<longleftrightarrow> sameNode s s' \<and> consistent s' \<and> prepared s' = prepared s"
  by (simp_all add: installed_def)

lemma launched_installed:
  assumes l: "launched s' st r s''" and s': "marshal E st = Inr b" "stateFile s' = Some b" "state s' = Some st" "sameNode s s'"
    "process s' = None" "prepared s' = prepared s"
  shows "installed E s st r s''"
proof -
  have "sameNode s s''" using l s' by (simp add: launched_sameNode)
  moreover have "launching s' s''" using l by (simp add: launched_def)
  moreover have "runs s'' st p = runs s' st p" "runs s st p = runs s' st p" for p
    using l s' by (intro runs_cong; simp add: launched_def launching_def sameNode_def)+
  moreover have "prepared s'' = prepared s" "state s'' = Some st" "stateFile s'' = Some b"
    using l s' by (simp_all add: launched_def launching_def)
  ultimately show ?thesis
    using l s' by (cases r) (auto simp: installed_def launched_def [of _ _ "Ret _"] consistent_def)
qed

lemma wp_install:
  assumes "process s = None" and Q: "\<And>r s'. installed E s st r s' \<Longrightarrow> Q r s'"
  shows "wp (installState E st) Q s"
proof (rule wp_mono [OF _ Q])
  have "wp (startEtcdProcess E st) (installed E s st) (s\<lparr>state := Some st, calls := n, stateFile := Some b\<rparr>)"
    if "marshal E st = Inr b" for b n
    by (rule wp_start, erule launched_installed [where b = b]) (use that assms(1) in simp_all)
  then show "wp (installState E st) (installed E s st) s"
    using assms(1) by (simp add: installState_def wp_simps split: sum.split option.split)
qed

text \<open>What a successful second phase of joining has done; \<open>q\<close> is true for the founding of a cluster.\<close>

definition joined :: "serverEnv \<Rightarrow> JoinClusterRequest \<Rightarrow> bool \<Rightarrow> EtcdServer \<Rightarrow> EtcdServer \<Rightarrow> bool" where
  "joined E r q s s' \<longleftrightarrow> process s = None \<and> (\<exists>pr. prepared s = Some pr \<and> preparedToken pr = JoinToken r) \<and>
     prepared s' = None \<and> state s' = Some (joinState False q r) \<and>
     (\<exists>p b. process s' = Some p \<and> runs s' (joinState False q r) p \<and> CreateNewCluster p = q \<and>
        marshal E (joinState False q r) = Inr b \<and> stateFile s' = Some b)"

lemma runs_NewCluster [simp]: "runs s (joinState True q r) = runs s (joinState False q r)"
  by (simp add: runs_def joinState_def fun_eq_iff)

lemma runs_sameNode: "sameNode s s' \<Longrightarrow> runs s' = runs s"
  by (intro ext runs_cong) (simp_all add: sameNode_def)

text \<open>
  \<open>handled s P\<close>: whatever the outcome the node keeps its identity and is consistent, and after a success
  \<open>P\<close> holds.
\<close>

definition handled :: "EtcdServer \<Rightarrow> (EtcdServer \<Rightarrow> bool) \<Rightarrow> 'a outcome \<Rightarrow> EtcdServer \<Rightarrow> bool" where
  "handled s P x s' \<longleftrightarrow> sameNode s s' \<and> consistent s' \<and> (\<forall>u. x = Ret u \<longrightarrow> P s')"

lemma handled_simps [simp]:
  "handled s P (Ret u) s' \<longleftrightarrow> sameNode s s' \<and> consistent s' \<and> P s'"
  "handled s P (Err e) s' \<longleftrightarrow> sameNode s s' \<and> consistent s'"
  "handled s P (Crash m) s' \<longleftrightarrow> sameNode s s' \<and> consistent s'"
  by (simp_all add: handled_def)

lemma handled_iff: "handled s P x s' \<longleftrightarrow> sameNode s s' \<and> consistent s' \<and> (case x of Ret u \<Rightarrow> P s' | _ \<Rightarrow> True)"
  by (cases x) simp_all

lemma installed_joined:
  assumes "installed E s (joinState True True r) (Ret u) s'" "process s = None" "prepared s = Some pr" "preparedToken pr = JoinToken r"
    and "marshal E (joinState False True r) = Inr b"
  shows "handled s (joined E r True s) (Ret u) (s'\<lparr>state := Some (joinState False True r), calls := c, stateFile := Some b, prepared := None\<rparr>)"
proof -
  from assms(1) obtain p where p: "sameNode s s'" "process s' = Some p" "runs s (joinState False True r) p"
    "CreateNewCluster p = NewCluster (joinState True True r)"
    by (auto simp: installed_def)
  with runs_sameNode [OF p(1)] assms show ?thesis
    by (simp add: handled_def joined_def consistent_def) (simp add: joinState_def)
qed

lemma joinExisting_spec: "consistent s \<Longrightarrow> wp (joinExisting E r) (handled s (joined E r False s)) s"
proof -
  have "handled s (joined E r False s) (Ret ()) (s'\<lparr>prepared := None\<rparr>)"
    if "installed E s (joinState False False r) (Ret u) s'" "process s = None" "prepared s = Some pr" "preparedToken pr = JoinToken r" for u s' pr
    using that runs_sameNode [of s s'] by (auto simp: installed_def handled_def joined_def consistent_def joinState_def)
  then show "consistent s \<Longrightarrow> wp (joinExisting E r) (handled s (joined E r False s)) s"
    by (auto simp: joinExisting_def wp_seq wp_modify wp_notRunning wp_checkPrepared intro!: wp_install split: option.split outcome.split)
qed

lemma foundCluster_spec: "consistent s \<Longrightarrow> wp (foundCluster E r) (handled s (joined E r True s)) s"
proof -
  have "handled s (joined E r True s) (Err e :: unit outcome) (s'\<lparr>state := Some (joinState False True r), calls := c, stateFile := f\<rparr>)"
    "handled s (joined E r True s) (Err e :: unit outcome) (s'\<lparr>state := Some (joinState False True r)\<rparr>)"
    if "installed E s (joinState True True r) (Ret u) s'" for u s' e c f
    using that runs_sameNode [of s s'] by (auto simp: installed_def consistent_def)
  with installed_joined show "consistent s \<Longrightarrow> wp (foundCluster E r) (handled s (joined E r True s)) s"
    by (auto simp: foundCluster_def wp_seq wp_modify wp_setState wp_writeState wp_notRunning wp_checkPrepared intro!: wp_install split: option.split outcome.split sum.split)
qed



section \<open>The handlers\<close>

lemma prepareJoin_spec: "consistent s \<Longrightarrow> wp (prepareJoin E r) (\<lambda>x s'. sameNode s s' \<and> consistent s' \<and> state s' = state s \<and> stateFile s' = stateFile s \<and>
    process s' = process s \<and> (\<forall>u. x = Ret u \<longrightarrow> process s = None \<and> prepared s = None \<and>
      prepared s' = Some \<lparr>validUntil = timeAdd (nowAt E (calls s)) PreparedValidity, preparedToken = JoinToken r\<rparr>)) s"
  by (simp add: prepareJoin_def wp_simps)

definition expired :: "serverEnv \<Rightarrow> EtcdServer \<Rightarrow> bool" where
  "expired E s \<longleftrightarrow> (\<exists>p. prepared s = Some p \<and> timeAfter (nowAt E (calls s)) (validUntil p))"

text \<open>The outcome of \<open>JoinCluster\<close>, by phase.\<close>

definition joinResult :: "serverEnv \<Rightarrow> JoinClusterRequest \<Rightarrow> EtcdServer \<Rightarrow> EtcdServer \<Rightarrow> bool" where
  "joinResult E r s s' \<longleftrightarrow> validFor s (JoinHeader r) \<and> (case JoinPhase r of
     PHASE_CANCEL_PREPARE \<Rightarrow> prepared s' = None \<and> process s' = process s \<and> state s' = state s
   | PHASE_PREPARE \<Rightarrow> process s = None \<and> (prepared s = None \<or> expired E s) \<and> state s' = state s \<and> process s' = None \<and>
       prepared s' = Some \<lparr>validUntil = timeAdd (nowAt E (Suc (calls s))) PreparedValidity, preparedToken = JoinToken r\<rparr>
   | PHASE_INITIAL_CLUSTER \<Rightarrow> \<not> expired E s \<and> joined E r True s s'
   | PHASE_JOIN_EXISTING \<Rightarrow> \<not> expired E s \<and> joined E r False s s'
   | PHASE_UNKNOWN \<Rightarrow> False)"

definition afterExpiry :: "serverEnv \<Rightarrow> EtcdServer \<Rightarrow> EtcdServer" where
  "afterExpiry E s = (if expired E s then s\<lparr>calls := Suc (calls s), prepared := None\<rparr> else s\<lparr>calls := Suc (calls s)\<rparr>)"

lemma afterExpiry_simps [simp]:
  "sameNode (afterExpiry E s) = sameNode s" "consistent (afterExpiry E s) = consistent s"
  "sameNode s (afterExpiry E s)"
  "process (afterExpiry E s) = process s" "state (afterExpiry E s) = state s" "calls (afterExpiry E s) = Suc (calls s)"
  "prepared (afterExpiry E s) = (if expired E s then None else prepared s)" "stateFile (afterExpiry E s) = stateFile s"
  by (simp_all add: afterExpiry_def sameNode_def fun_eq_iff)

lemma wp_expirePrepared:
  "wp (expirePrepared (nowAt E (calls s))) Q (s\<lparr>calls := Suc (calls s)\<rparr>) = Q (Ret ()) (afterExpiry E s)"
  by (cases "prepared s") (simp_all add: expirePrepared_def wp_simps expired_def afterExpiry_def)

lemma joined_expire: "joined E r q (afterExpiry E s) s' \<longleftrightarrow> \<not> expired E s \<and> joined E r q s s'"
  by (auto simp: joined_def)

lemma secondPhase_spec:
  assumes "consistent s" "validFor s (JoinHeader r)" "JoinPhase r \<noteq> PHASE_CANCEL_PREPARE"
  shows "wp (case JoinPhase r of PHASE_PREPARE \<Rightarrow> prepareJoin E r | PHASE_INITIAL_CLUSTER \<Rightarrow> foundCluster E r
      | PHASE_JOIN_EXISTING \<Rightarrow> joinExisting E r | _ \<Rightarrow> fail (Errorf ''unknown status'')) (handled s (joinResult E r s)) (afterExpiry E s)"
proof -
  have t: "consistent (afterExpiry E s)" using assms by simp
  show ?thesis
  proof (cases "JoinPhase r")
    case PHASE_PREPARE
    then show ?thesis using prepareJoin_spec [OF t, of E r] assms(2)
      by (auto simp: handled_def joinResult_def elim!: wp_mono)
  next
    case PHASE_INITIAL_CLUSTER
    then show ?thesis using foundCluster_spec [OF t, of E r] assms(2)
      by (auto simp: handled_def joinResult_def joined_expire elim!: wp_mono)
  next
    case PHASE_JOIN_EXISTING
    then show ?thesis using joinExisting_spec [OF t, of E r] assms(2)
      by (auto simp: handled_def joinResult_def joined_expire elim!: wp_mono)
  qed (use assms in \<open>simp_all add: wp_fail\<close>)
qed

lemma JoinCluster_spec: "consistent s \<Longrightarrow> wp (JoinCluster E r) (handled s (joinResult E r s)) s"
  unfolding JoinCluster_def wp_seq
  by (intro wp_validateHeader)
     (auto simp: wp_seq wp_if wp_bind wp_gets wp_ret wp_fail wp_modify wp_call wp_expirePrepared cancelPrepare_def
       joinResult_def intro: secondPhase_spec split: option.split sum.split)


lemma stop_spec: "consistent s \<Longrightarrow> (\<And>t b. process t = None \<Longrightarrow> sameNode s t \<Longrightarrow> consistent t \<Longrightarrow> prepared t = prepared s \<Longrightarrow>
    stateFile t = stateFile s \<Longrightarrow> state t = state s \<Longrightarrow> Q (Ret b) t) \<Longrightarrow>
   (\<And>e t. sameNode s t \<Longrightarrow> consistent t \<Longrightarrow> state t = state s \<Longrightarrow> stateFile t = stateFile s \<Longrightarrow> process t = process s \<Longrightarrow> Q (Err e) t) \<Longrightarrow>
   wp (stopEtcdProcess E) Q s"
  by (simp add: wp_stopEtcdProcess split: option.split)

text \<open>What a successful \<open>Reconfigure\<close> has done.\<close>

definition reconfigured :: "serverEnv \<Rightarrow> ReconfigureRequest \<Rightarrow> EtcdServer \<Rightarrow> EtcdServer \<Rightarrow> bool" where
  "reconfigured E r s s' \<longleftrightarrow> validFor s (ReconfHeader r) \<and> (\<exists>st cluster p b.
     state s = Some st \<and> Cluster st = Some cluster \<and>
     (let st' = reconfiguredState (Name (etcdNodeConfiguration s)) r st cluster in
      state s' = Some st' \<and> process s' = Some p \<and> runs s' st' p \<and> marshal E st' = Inr b \<and> stateFile s' = Some b))"

lemma Reconfigure_spec:
  assumes "consistent s"
  shows "wp (Reconfigure E r) (handled s (reconfigured E r s)) s"
proof -
  have install: "wp (installState E (reconfiguredState (Name (etcdNodeConfiguration s)) r st cluster)) (handled s (reconfigured E r s)) t"
    if "process t = None" "sameNode s t" "state s = Some st" "Cluster st = Some cluster" "validFor s (ReconfHeader r)" for t st cluster
  proof (rule wp_install [OF that(1)])
    fix x s' assume i: "installed E t (reconfiguredState (Name (etcdNodeConfiguration s)) r st cluster) x s'"
    then have "sameNode s s'" using that(2) by (simp add: installed_def sameNode_def)
    with i runs_sameNode [of t s'] that show "handled s (reconfigured E r s) x s'"
      by (auto simp: installed_def reconfigured_def handled_def Let_def)
  qed
  show ?thesis
    unfolding Reconfigure_def wp_seq
    using assms
    by (intro wp_validateHeader)
       (auto simp: wp_bind wp_gets wp_fail wp_crash wp_call wp_if wp_rewrap Let_def split: option.split sum.split intro!: stop_spec install)
qed

lemma StopEtcd_spec:
  assumes "consistent s"
  shows "wp (StopEtcd E h) (handled s (\<lambda>s'. validFor s h \<and> process s' = None \<and> state s' = Some emptyState \<and> (\<exists>b. marshal E emptyState = Inr b \<and> stateFile s' = Some b))) s"
  unfolding StopEtcd_def wp_seq
  using assms
  by (intro wp_validateHeader)
     (auto simp: wp_simps split: option.split sum.split intro!: stop_spec)


text \<open>After a successful round of the loop a node that belongs to a cluster runs etcd.\<close>

definition running :: "EtcdServer \<Rightarrow> bool" where
  "running s \<longleftrightarrow> (\<forall>st. state s = Some st \<longrightarrow> Cluster st \<noteq> None \<longrightarrow> process s \<noteq> None)"

lemma running_upd [simp]: "running (s\<lparr>calls := n\<rparr>) = running s"
  by (simp add: running_def)

lemma launched_running:
  assumes l: "launched t st r s'" and t: "sameNode s t" "process t = None" "state t = Some st"
  shows "handled s running r s'"
proof -
  have node: "sameNode s s'" using l t by (simp add: launched_sameNode)
  have st: "state s' = Some st" and runs: "runs s' st = runs t st"
    using l t(3) by (auto simp: launched_def launching_def intro!: ext runs_cong)
  show ?thesis
  proof (cases r)
    case (Ret u)
    with l obtain p where "process s' = Some p" "runs t st p" by (auto simp: launched_def)
    then show ?thesis using node st runs Ret by (simp add: consistent_def running_def)
  qed (use l t node in \<open>simp_all\<close>)
qed

lemma restart_spec:
  assumes "sameNode s t" "consistent t"
  shows "wp (bind call (\<lambda>n. seq (if processExited E n then modify (\<lambda>s. s\<lparr>process := None\<rparr>) else ret ())
      (bind (gets id) (\<lambda>s. case state s of None \<Rightarrow> ret ()
       | Some st \<Rightarrow> if Cluster st \<noteq> None \<and> process s = None then startEtcdProcess E st else ret ())))) (handled s running) t"
proof -
  have "wp (startEtcdProcess E st) (handled s running) u"
    if "sameNode s u" "process u = None" "state u = Some st" for u st
    using that by (blast intro: wp_start launched_running)
  then show ?thesis
    using assms by (simp add: wp_bind wp_seq wp_call wp_if wp_modify wp_ret wp_gets running_def split: option.split)
qed

lemma initState_spec:
  assumes "consistent s"
  shows "wp (initState E) (handled s (\<lambda>_. True)) s"
proof -
  have "consistent (s\<lparr>calls := n, state := Some st\<rparr>)" if "state s = None" for st n
    using that assms by (simp add: consistent_def)
  then show ?thesis
    using assms by (simp add: initState_def readState_def wp_simps split: option.split sum.split)
qed

lemma runOnce_spec: "consistent s \<Longrightarrow> wp (runOnce E) (handled s running) s"
  unfolding runOnce_def wp_seq
  by (rule wp_mono [OF initState_spec]) (auto intro: restart_spec split: outcome.split simp: handled_def)

lemma NewEtcdServer_spec: "process s = None \<Longrightarrow> wp (NewEtcdServer E) (handled s (\<lambda>_. True)) s"
  by (simp add: NewEtcdServer_def initState_def readState_def wp_simps split: option.split sum.split)

lemma UpdateEndpoints_spec: "consistent s \<Longrightarrow> wp (UpdateEndpoints E m) (handled s (\<lambda>_. True)) s"
  by (simp add: UpdateEndpoints_def wp_simps split: option.split sum.split)

lemma GetInfo_spec: "consistent s \<Longrightarrow> wp GetInfo (handled s (\<lambda>_. True)) s"
  by (simp add: GetInfo_def wp_simps)

lemma wp_onStoreI: "(\<And>r v. Q r (s\<lparr>backupFiles := v\<rparr>)) \<Longrightarrow> wp (onStore p) Q s"
  unfolding wp_onStore by (rule wpI)

lemma processBackup_spec: "consistent s \<Longrightarrow> wp (processBackup E base info p) (handled s (\<lambda>_. True)) s"
  by (auto simp: processBackup_def backupTo_def DoBackupV3_def uploadBackup_def wp_bind wp_seq wp_call wp_rewrap wp_orFail
       wp_lift wp_modify wp_gets wp_fail wp_if intro!: wp_onStoreI split: option.split sum.split outcome.split)

lemma DoBackup_spec: "consistent s \<Longrightarrow> wp (DoBackup E r) (handled s (\<lambda>_. validFor s (BackupHeader r) \<and> process s \<noteq> None)) s"
  unfolding DoBackup_def wp_seq
  by (intro wp_validateHeader)
     (auto simp: wp_bind wp_gets wp_fail wp_lift wp_if handled_iff intro!: wp_mono [OF processBackup_spec] split: option.split sum.split)

section \<open>The server as a state machine\<close>

datatype request = GetInfoRpc | UpdateEndpointsRpc "MemberMapInfo list option" | JoinClusterRpc JoinClusterRequest
  | ReconfigureRpc ReconfigureRequest | StopEtcdRpc "CommonRequestHeader option" | DoBackupRpc DoBackupRequest

fun handle :: "serverEnv \<Rightarrow> request \<Rightarrow> (EtcdServer, unit) prog" where
  "handle E GetInfoRpc = bind GetInfo (\<lambda>_. ret ())"
| "handle E (UpdateEndpointsRpc m) = UpdateEndpoints E m"
| "handle E (JoinClusterRpc r) = JoinCluster E r"
| "handle E (ReconfigureRpc r) = Reconfigure E r"
| "handle E (StopEtcdRpc h) = StopEtcd E h"
| "handle E (DoBackupRpc r) = bind (DoBackup E r) (\<lambda>_. ret ())"

fun headerOf :: "request \<Rightarrow> CommonRequestHeader option option" where
  "headerOf (JoinClusterRpc r) = Some (JoinHeader r)"
| "headerOf (ReconfigureRpc r) = Some (ReconfHeader r)"
| "headerOf (StopEtcdRpc h) = Some h"
| "headerOf (DoBackupRpc r) = Some (BackupHeader r)"
| "headerOf _ = None"

text \<open>
  The steps of a node: a request, a round of the run loop, a change of the peer server (which runs
  on its own), a crash or restart of the manager, which loses everything in memory, together with
  etcd, and starts from the files. A request that panics ends the process as well.
\<close>

definition rebooted :: "EtcdServer \<Rightarrow> EtcdServer" where
  "rebooted s = s\<lparr>state := None, prepared := None, process := None, sequence := 0\<rparr>"

inductive serverStep :: "serverEnv \<Rightarrow> EtcdServer \<Rightarrow> EtcdServer \<Rightarrow> bool" for E where
  request: "handle E req s = (r, s') \<Longrightarrow> serverStep E s s'"
| loop: "runOnce E s = (r, s') \<Longrightarrow> serverStep E s s'"
| gossip: "serverStep E s (s\<lparr>peerServer := ps\<rparr>)"
| restart: "NewEtcdServer E (rebooted s) = (Ret (), s') \<Longrightarrow> serverStep E s s'"

inductive serverReach :: "serverEnv \<Rightarrow> EtcdServer \<Rightarrow> bool" for E where
  init: "process s = None \<Longrightarrow> state s = None \<Longrightarrow> NewEtcdServer E s = (Ret (), s') \<Longrightarrow> serverReach E s'"
| step: "serverReach E s \<Longrightarrow> serverStep E s s' \<Longrightarrow> serverReach E s'"

inductive_cases serverStepE: "serverStep E s s'"

lemma wp_discard: "wp (bind p (\<lambda>_. ret ())) (handled s P) t = wp p (handled s P) t"
  unfolding wp_bind wp_ret by (rule arg_cong [where f = "\<lambda>Q. wp p Q t"]) (auto simp: fun_eq_iff split: outcome.split)

lemma handle_consistent: "consistent s \<Longrightarrow> wp (handle E req) (handled s (\<lambda>_. True)) s"
proof -
  have weaken: "wp p (handled s (\<lambda>_. True)) s" if "wp p (handled s P) s" for p :: "(EtcdServer, 'b) prog" and P
    using that by (rule wp_mono) (simp add: handled_def)
  show "consistent s \<Longrightarrow> wp (handle E req) (handled s (\<lambda>_. True)) s"
    by (cases req) (auto simp: wp_discard intro: GetInfo_spec UpdateEndpoints_spec JoinCluster_spec Reconfigure_spec StopEtcd_spec DoBackup_spec weaken)
qed

lemma serverStep_consistent: "serverStep E s s' \<Longrightarrow> consistent s \<Longrightarrow> consistent s'"
proof (induction rule: serverStep.induct)
  case (request req s r s')
  then show ?case using wpD [OF handle_consistent] by (auto simp: handled_def)
next
  case (loop s r s')
  then show ?case using wpD [OF runOnce_spec] by (auto simp: handled_def)
next
  case (restart s s')
  then show ?case using wpD [OF NewEtcdServer_spec, of "rebooted s"] by (auto simp: handled_def rebooted_def)
qed simp


end
