(* ===== verification/ServerProperties.thy ===== *)
theory ServerProperties
  imports ServerSafety "HOL-Library.Countable"
begin

text \<open>
  The properties of the server over its reachable states: a running etcd has the configuration of the
  state, the two phases of joining, the refusal of requests without the leader's token, recovery of the
  state after a restart, switching to TLS, and the crash on a second stop request. An example
  node that founds a cluster instantiates them.
\<close>

section \<open>An example node\<close>

text \<open>
  A codec for the examples: a state is printed as the number of the tuple of its fields.
\<close>

definition nodeFields :: "EtcdNode \<Rightarrow> string \<times> string list \<times> string list \<times> string list \<times> bool" where
  "nodeFields n = (Name n, PeerUrls n, ClientUrls n, QuarantinedClientUrls n, TlsEnabled n)"

definition clusterFields :: "EtcdCluster \<Rightarrow> int \<times> string \<times> (string \<times> string list \<times> string list \<times> string list \<times> bool) list" where
  "clusterFields c = (DesiredClusterSize c, ClusterToken c, map nodeFields (Nodes c))"

definition stateFields :: "EtcdState \<Rightarrow> bool \<times> (int \<times> string \<times> (string \<times> string list \<times> string list \<times> string list \<times> bool) list) option \<times> string \<times> bool" where
  "stateFields st = (NewCluster st, map_option clusterFields (Cluster st), StateVersion st, Quarantined st)"

definition exampleMarshal :: "EtcdState \<Rightarrow> goerr + string" where
  "exampleMarshal st = Inr (FormatUint (to_nat (stateFields st)))"

definition exampleUnmarshal :: "string \<Rightarrow> goerr + EtcdState" where
  "exampleUnmarshal b = Inr (inv exampleMarshal (Inr b))"

lemma inj_exampleMarshal: "inj exampleMarshal"
proof -
  have node: "inj nodeFields" by (rule injI) (simp add: nodeFields_def)
  then have "inj (map nodeFields)" by simp
  then have "inj clusterFields" by (intro injI) (auto simp: clusterFields_def dest: injD)
  then have "inj (map_option clusterFields)" by (rule option.inj_map)
  then have "inj stateFields" by (intro injI) (auto simp: stateFields_def dest: injD)
  then show ?thesis by (intro injI) (auto simp: exampleMarshal_def dest: injD)
qed

lemma example_codec: "\<exists>b. exampleMarshal st = Inr b \<and> exampleUnmarshal b = Inr st"
proof -
  obtain b where b: "exampleMarshal st = Inr b" by (simp add: exampleMarshal_def)
  then have "exampleUnmarshal b = Inr st"
    unfolding exampleUnmarshal_def b [symmetric] by (simp add: inj_exampleMarshal)
  with b show ?thesis by blast
qed

definition exampleEnv :: serverEnv where
  "exampleEnv = \<lparr>osAt = \<lambda>_. exampleOs, nowAt = \<lambda>n. int n * Second, marshal = exampleMarshal, unmarshal = exampleUnmarshal,
     readError = \<lambda>_. None, writeError = \<lambda>_. None, tornFile = \<lambda>_ _ _. None, killError = \<lambda>_. None, processExited = \<lambda>_. False,
     renameError = \<lambda>_. False, hostsError = \<lambda>_. None, importExisting = \<lambda>_. Inr None, buildVfsPath = \<lambda>p. Inr [p],
     mkdirTempError = \<lambda>_. None, snapshotSave = \<lambda>_ _. Inr ''snapshot'', storeEnv = exampleVfs, infoCodec = exampleCodec\<rparr>"

definition exampleLeadership :: Server where
  "exampleLeadership = (NewServer \<lparr>InfoId = ''1'', Endpoints = []\<rparr> 0 '''')
     \<lparr>serverLeadership := Some \<lparr>notification = Some (Some \<lparr>Leader = None, LeadershipToken = ''lead'', Healthy = []\<rparr>), timestamp = 0\<rparr>\<rparr>"

definition exampleEtcd :: EtcdServer where
  "exampleEtcd = \<lparr>baseDir = ''/data'', peerServer = exampleLeadership, etcdNodeConfiguration = exampleNode, clusterName = ''c'',
     state = None, prepared = None, process = None, listenAddress = ''0.0.0.0'', etcdClientsCA = False, etcdPeersCA = False,
     listenMetricsURLs = [], peerClientIPs = [], sequence = 0, backupFiles = exampleStore, stateFile = None,
     certRequests = [], trashcan = [], hostsUpdates = [], calls = 0\<rparr>"

definition exampleJoin :: "Phase \<Rightarrow> JoinClusterRequest" where
  "exampleJoin ph = \<lparr>JoinHeader = Some \<lparr>HeaderToken = ''lead'', HeaderCluster = ''c''\<rparr>, JoinPhase = ph, JoinToken = ''t'',
     JoinNodes = [exampleNode], JoinVersion = ''3.5.7''\<rparr>"

definition exampleJoined :: EtcdServer where
  "exampleJoined = snd (JoinCluster exampleEnv (exampleJoin PHASE_INITIAL_CLUSTER)
     (snd (JoinCluster exampleEnv (exampleJoin PHASE_PREPARE) (snd (NewEtcdServer exampleEnv exampleEtcd)))))"

lemma exampleEnv_simps [simp]:
  "osAt exampleEnv n = exampleOs" "nowAt exampleEnv n = int n * Second" "marshal exampleEnv = exampleMarshal"
  "unmarshal exampleEnv = exampleUnmarshal" "readError exampleEnv n = None" "writeError exampleEnv n = None"
  "importExisting exampleEnv n = Inr None"
  by (simp_all add: exampleEnv_def)

lemma exampleJoin_simps [simp]:
  "JoinPhase (exampleJoin ph) = ph" "JoinToken (exampleJoin ph) = ''t''" "JoinVersion (exampleJoin ph) = ''3.5.7''"
  "JoinNodes (exampleJoin ph) = [exampleNode]"
  by (simp_all add: exampleJoin_def)

lemmas prog_defs = seq_def bind_def ret_def fail_def crash_def gets_def modify_def lift_def rewrap_def orFail_def call_def

lemma example_start: "NewEtcdServer exampleEnv exampleEtcd = (Ret (), exampleEtcd\<lparr>calls := 2\<rparr>)"
  by (simp add: NewEtcdServer_def initState_def readState_def prog_defs exampleEnv_def exampleEtcd_def)

lemma example_bindir: "BindirForEtcdVersion exampleOs ''3.5.7'' ''etcd'' = Inr ''/opt/etcd-v3.5.7''"
  by code_simp

lemma example_prepare: "JoinCluster exampleEnv (exampleJoin PHASE_PREPARE) (exampleEtcd\<lparr>calls := 2\<rparr>) =
   (Ret (), exampleEtcd\<lparr>calls := 4, prepared := Some \<lparr>validUntil = 63 * Second, preparedToken = ''t''\<rparr>\<rparr>)"
  by (simp add: JoinCluster_def prepareJoin_def expirePrepared_def validateHeader_def notRunning_def prog_defs exampleEnv_def exampleEtcd_def
    exampleJoin_def example_bindir exampleLeadership_def IsLeader_def timeAdd_def PreparedValidity_def Minute_def Second_def)

lemma example_Start: "findMyNode p = Some me \<Longrightarrow> \<exists>p'. Start exampleOs p = Ret p'"
  by (simp add: Start_def Let_def exampleOs_def HasPrefix_def)

lemma example_launch:
  assumes "Cluster st = Some \<lparr>DesiredClusterSize = 0, ClusterToken = ''t'', Nodes = [exampleNode]\<rparr>" "StateVersion st = ''3.5.7''"
    and "etcdNodeConfiguration s = exampleNode" "\<not> etcdPeersCA s" "\<not> etcdClientsCA s"
  shows "\<exists>p. startEtcdProcess exampleEnv st s = (Ret (), s\<lparr>calls := Suc (calls s), process := Some p\<rparr>)"
proof -
  let ?p = "newProcess s st \<lparr>DesiredClusterSize = 0, ClusterToken = ''t'', Nodes = [exampleNode]\<rparr> exampleNode"
  let ?q = "?p\<lparr>BinDir := ''/opt/etcd-v3.5.7'', EtcdVersion := StateVersion st, CreateNewCluster := NewCluster st\<rparr>"
  have "findMyNode ?q = Some exampleNode"
    using assms by (simp add: findMyNode_def newProcess_def withOwnUrls_def)
  then obtain p' where "Start exampleOs ?q = Ret p'" using example_Start by blast
  then show ?thesis using assms
    by (intro exI [of _ p']) (simp add: startEtcdProcess_def launch_def createKeypairs_def onCerts_def findSelfNode_def withOwnUrls_def example_bindir
      prog_defs Let_def)
qed

lemma example_joined: "fst (JoinCluster exampleEnv (exampleJoin PHASE_INITIAL_CLUSTER)
   (exampleEtcd\<lparr>calls := 4, prepared := Some \<lparr>validUntil = 63 * Second, preparedToken = ''t''\<rparr>\<rparr>)) = Ret ()"
proof -
  let ?st = "joinState True True (exampleJoin PHASE_INITIAL_CLUSTER)"
  have "\<exists>p. startEtcdProcess exampleEnv ?st s = (Ret (), s\<lparr>calls := Suc (calls s), process := Some p\<rparr>)"
    if "etcdNodeConfiguration s = exampleNode" "\<not> etcdPeersCA s" "\<not> etcdClientsCA s" for s
    using that by (intro example_launch) (simp_all add: joinState_def exampleJoin_def)
  then obtain p where p: "startEtcdProcess exampleEnv ?st s = (Ret (), s\<lparr>calls := Suc (calls s), process := Some (p s)\<rparr>)"
    if "etcdNodeConfiguration s = exampleNode" "\<not> etcdPeersCA s" "\<not> etcdClientsCA s" for s by metis
  have w: "writeState exampleEnv st s = (Ret (), s\<lparr>calls := Suc (calls s), stateFile := Some (FormatUint (to_nat (stateFields st)))\<rparr>)" for st s
    by (simp add: writeState_def prog_defs exampleEnv_def exampleMarshal_def)
  have b: "BindirForEtcdVersion (osAt exampleEnv n) (JoinVersion (exampleJoin ph)) ''etcd'' = Inr ''/opt/etcd-v3.5.7''" for n ph
    by (simp add: example_bindir)
  have v: "validateHeader (JoinHeader (exampleJoin ph)) s = (Ret (), s)" if "clusterName s = ''c''" "peerServer s = exampleLeadership" for s ph
    using that by (intro validateHeader_valid) (simp add: validFor_def exampleJoin_def exampleLeadership_def IsLeader_def)
  show ?thesis
    by (simp add: JoinCluster_def foundCluster_def installState_def setState_def seq_def bind_def v example_bindir p w exampleEtcd_def
      expirePrepared_def notRunning_def checkPrepared_def modify_def gets_def call_def ret_def timeAfter_def)
       (simp add: Second_def p w)
qed


section \<open>The state survives restarts\<close>

text \<open>
  \<open>reliable E\<close>: writing the state file does not fail and the encoding can be decoded.
  \<open>durable E s\<close>: the state file holds the state.
\<close>

definition reliable :: "serverEnv \<Rightarrow> bool" where
  "reliable E \<longleftrightarrow> (\<forall>n. writeError E n = None) \<and> (\<forall>st. \<exists>b. marshal E st = Inr b \<and> unmarshal E b = Inr st)"

definition durable :: "serverEnv \<Rightarrow> EtcdServer \<Rightarrow> bool" where
  "durable E s \<longleftrightarrow> (stateFile s = None \<longrightarrow> state s = None) \<and>
     (\<forall>b. stateFile s = Some b \<longrightarrow> (\<exists>st. state s = Some st \<and> unmarshal E b = Inr st))"

lemma durable_upd [simp]:
  "durable E (t\<lparr>prepared := a\<rparr>) = durable E t" "durable E (t\<lparr>process := b\<rparr>) = durable E t"
  "durable E (t\<lparr>calls := c\<rparr>) = durable E t" "durable E (t\<lparr>trashcan := d\<rparr>) = durable E t"
  "durable E (t\<lparr>hostsUpdates := e\<rparr>) = durable E t" "durable E (t\<lparr>backupFiles := f\<rparr>) = durable E t"
  "durable E (t\<lparr>sequence := g\<rparr>) = durable E t" "durable E (t\<lparr>peerServer := h\<rparr>) = durable E t"
  "durable E (t\<lparr>certRequests := k\<rparr>) = durable E t"
  by (simp_all add: durable_def)

lemma durable_launching: "launching s s' \<Longrightarrow> durable E s' = durable E s"
  by (simp add: durable_def launching_def)

lemma wp_startDurable: "durable E s \<Longrightarrow> (\<And>r s'. durable E s' \<Longrightarrow> Q r s') \<Longrightarrow> wp (startEtcdProcess F st) Q s"
  by (rule wp_start) (auto simp: launched_def durable_launching)

lemma wp_writeDurable:
  assumes "reliable E" and "state s = Some st" and "\<And>s'. durable E s' \<Longrightarrow> state s' = Some st \<Longrightarrow> Q (Ret ()) s'"
  shows "wp (writeState E st) Q s"
proof -
  obtain b where "marshal E st = Inr b" "unmarshal E b = Inr st" "writeError E (calls s) = None"
    using assms(1) unfolding reliable_def by blast
  then show ?thesis using assms(2,3) by (simp add: wp_writeState durable_def)
qed

lemma wp_installDurable: "reliable E \<Longrightarrow> (\<And>r s'. durable E s' \<Longrightarrow> Q r s') \<Longrightarrow> wp (installState E st) Q s"
  by (auto simp: installState_def wp_seq wp_setState intro!: wp_writeDurable wp_startDurable)

lemma wp_validateKeeps: "(\<And>r. Q r s) \<Longrightarrow> wp (validateHeader h) Q s"
  by (intro wp_validateHeader)

lemma JoinCluster_durable:
  assumes "reliable E" "durable E s"
  shows "wp (JoinCluster E r) (\<lambda>_. durable E) s"
proof -
  have ex: "wp (expirePrepared now) Q t" if "durable E t" "\<And>t'. durable E t' \<Longrightarrow> Q (Ret ()) t'" for now Q t
    using that by (simp add: expirePrepared_def wp_modify split: option.split)
  show ?thesis
    unfolding JoinCluster_def wp_seq cancelPrepare_def prepareJoin_def foundCluster_def joinExisting_def
    by (intro wp_validateKeeps)
       (use assms in \<open>auto simp: wp_bind wp_seq wp_gets wp_call wp_if wp_fail wp_ret wp_modify wp_notRunning wp_checkPrepared wp_setState
          intro!: ex wp_installDurable wp_writeDurable split: option.split sum.split outcome.split Phase.split\<close>)
qed

lemma Reconfigure_durable: "reliable E \<Longrightarrow> durable E s \<Longrightarrow> wp (Reconfigure E r) (\<lambda>_. durable E) s"
  unfolding Reconfigure_def wp_seq
  by (intro wp_validateKeeps)
     (auto simp: wp_bind wp_gets wp_call wp_if wp_fail wp_crash wp_rewrap wp_stopEtcdProcess Let_def
        intro!: wp_installDurable split: option.split sum.split outcome.split)

lemma StopEtcd_durable: "reliable E \<Longrightarrow> durable E s \<Longrightarrow> wp (StopEtcd E h) (\<lambda>_. durable E) s"
  unfolding StopEtcd_def wp_seq
  by (intro wp_validateKeeps)
     (auto simp: wp_bind wp_seq wp_gets wp_call wp_if wp_fail wp_crash wp_ret wp_modify wp_rewrap wp_stopEtcdProcess wp_setState
        intro!: wp_writeDurable split: option.split outcome.split)


lemma runOnce_durable: "durable E s \<Longrightarrow> wp (runOnce E) (\<lambda>_. durable E) s"
proof -
  have "wp (initState E) (\<lambda>_. durable E) s" if "durable E s"
    using that by (auto simp: initState_def readState_def wp_simps durable_def split: option.split sum.split)
  moreover have "wp (bind call (\<lambda>n. seq (if processExited E n then modify (\<lambda>s. s\<lparr>process := None\<rparr>) else ret ())
      (bind (gets id) (\<lambda>s. case state s of None \<Rightarrow> ret ()
       | Some st \<Rightarrow> if Cluster st \<noteq> None \<and> process s = None then startEtcdProcess E st else ret ())))) (\<lambda>_. durable E) t"
    if "durable E t" for t
    using that by (auto simp: wp_bind wp_seq wp_call wp_if wp_modify wp_ret wp_gets intro!: wp_startDurable split: option.split)
  ultimately show "durable E s \<Longrightarrow> wp (runOnce E) (\<lambda>_. durable E) s"
    unfolding runOnce_def wp_seq by (auto elim!: wp_mono split: outcome.split)
qed

lemma NewEtcdServer_durable:
  assumes "reliable E" "state s = None"
  shows "wp (NewEtcdServer E) (\<lambda>r s'. \<forall>u. r = Ret u \<longrightarrow> durable E s') s"
proof -
  have "wp (seq (writeState E st) (setState st)) (\<lambda>r s'. \<forall>u. r = Ret u \<longrightarrow> durable E s') t" for st t
  proof -
    obtain b where "marshal E st = Inr b" "unmarshal E b = Inr st" "writeError E (calls t) = None"
      using assms(1) unfolding reliable_def by blast
    then show ?thesis by (simp add: wp_seq wp_writeState wp_setState durable_def)
  qed
  then show ?thesis
    using assms(2)
    by (auto simp: NewEtcdServer_def initState_def readState_def wp_bind wp_seq wp_gets wp_call wp_rewrap wp_orFail wp_lift wp_ret wp_modify
        durable_def split: option.split sum.split outcome.split)
qed

lemma DoBackup_durable: "durable E s \<Longrightarrow> wp (DoBackup E r) (\<lambda>_. durable E) s"
  unfolding DoBackup_def wp_seq
  by (intro wp_validateKeeps)
     (auto simp: processBackup_def backupTo_def DoBackupV3_def uploadBackup_def wp_bind wp_seq wp_call wp_rewrap wp_orFail
       wp_lift wp_modify wp_gets wp_fail wp_if intro!: wp_onStoreI split: option.split sum.split outcome.split)

lemma handle_durable: "reliable E \<Longrightarrow> durable E s \<Longrightarrow> wp (handle E req) (\<lambda>_. durable E) s"
proof (cases req)
  case (DoBackupRpc r)
  then show "durable E s \<Longrightarrow> ?thesis"
    using DoBackup_durable [of E s r] by (auto simp: wp_bind wp_ret elim!: wp_mono split: outcome.split)
qed (auto simp: UpdateEndpoints_def GetInfo_def wp_simps JoinCluster_durable Reconfigure_durable StopEtcd_durable
    split: option.split sum.split)

lemma reach_durable:
  assumes "reliable E"
  shows "serverReach E s \<Longrightarrow> durable E s"
proof (induction rule: serverReach.induct)
  case (init s s')
  then show ?case using wpD [OF NewEtcdServer_durable [OF assms]] by blast
next
  case (step s s')
  from step(2) show ?case
  proof (cases rule: serverStep.cases)
    case (request req r)
    then show ?thesis using wpD [OF handle_durable [OF assms step(3)]] by blast
  next
    case (loop r)
    then show ?thesis using wpD [OF runOnce_durable [OF step(3)]] by blast
  next
    case restart
    then show ?thesis using wpD [OF NewEtcdServer_durable [OF assms, of "rebooted s"]] by (auto simp: rebooted_def)
  qed (use step in simp)
qed

lemma reach_consistent: "serverReach E s \<Longrightarrow> consistent s"
proof (induction rule: serverReach.induct)
  case (init s s')
  then show ?case using wpD [OF NewEtcdServer_spec] by (auto simp: handled_def)
qed (rule serverStep_consistent)


section \<open>Properties of the server\<close>

text \<open>
  C1. In every state the server can reach, through any sequence of requests, rounds of the run loop,
  changes of leadership and restarts, an etcd process that runs was started with the node's name, and
  with the cluster token, the nodes, the version, the quarantine flag and the data directory of the
  state the server holds at that moment.
\<close>

theorem running_etcd_matches_state:
  assumes "serverReach E s" and "process s = Some p"
  shows "\<exists>st cluster. state s = Some st \<and> Cluster st = Some cluster \<and> cmd p \<noteq> None \<and>
     MyNodeName p = Name (etcdNodeConfiguration s) \<and> ClusterToken (ProcCluster p) = ClusterToken cluster \<and>
     Nodes (ProcCluster p) = map (withOwnUrls (etcdNodeConfiguration s)) (Nodes cluster) \<and>
     EtcdVersion p = StateVersion st \<and> ProcQuarantined p = Quarantined st \<and>
     DataDir p = pathJoin [baseDir s, ''data'', ClusterToken cluster]"
  using reach_consistent [OF assms(1)] assms(2) unfolding consistent_def runs_def by blast

lemma example_reach: "serverReach exampleEnv (exampleEtcd\<lparr>calls := 4, prepared := Some \<lparr>validUntil = 63 * Second, preparedToken = ''t''\<rparr>\<rparr>)"
proof (rule serverReach.step)
  show "serverReach exampleEnv (exampleEtcd\<lparr>calls := 2\<rparr>)"
    by (rule serverReach.init [OF _ _ example_start]) (simp_all add: exampleEtcd_def)
  show "serverStep exampleEnv (exampleEtcd\<lparr>calls := 2\<rparr>) (exampleEtcd\<lparr>calls := 4, prepared := Some \<lparr>validUntil = 63 * Second, preparedToken = ''t''\<rparr>\<rparr>)"
    by (rule serverStep.request [of _ "JoinClusterRpc (exampleJoin PHASE_PREPARE)"]) (simp add: example_prepare)
qed

lemma exampleJoined_eq: "JoinCluster exampleEnv (exampleJoin PHASE_INITIAL_CLUSTER)
   (exampleEtcd\<lparr>calls := 4, prepared := Some \<lparr>validUntil = 63 * Second, preparedToken = ''t''\<rparr>\<rparr>) = (Ret (), exampleJoined)"
  using example_joined by (simp add: exampleJoined_def example_start example_prepare prod_eq_iff)

lemma exampleJoined_reach: "serverReach exampleEnv exampleJoined"
  by (rule serverReach.step [OF example_reach], rule serverStep.request [of _ "JoinClusterRpc (exampleJoin PHASE_INITIAL_CLUSTER)"])
     (simp add: exampleJoined_eq)

text \<open>
  C2. Joining takes two phases. A request to found or to join a cluster succeeds only on a node that runs
  no etcd and holds an unexpired preparation with the same token, and only from the current leader;
  afterwards the preparation is gone, the new state is in memory and on disk, and etcd runs it,
  quarantined and as a new cluster exactly when the cluster is being founded.
\<close>

theorem join_needs_prepare:
  assumes "serverReach E s" and "JoinCluster E r s = (Ret (), s')"
    and "JoinPhase r = PHASE_INITIAL_CLUSTER \<or> JoinPhase r = PHASE_JOIN_EXISTING"
  shows "validFor s (JoinHeader r) \<and> process s = None \<and>
     (\<exists>pr. prepared s = Some pr \<and> preparedToken pr = JoinToken r \<and> \<not> timeAfter (nowAt E (calls s)) (validUntil pr)) \<and>
     (let found = (JoinPhase r = PHASE_INITIAL_CLUSTER); st = joinState False found r in
      prepared s' = None \<and> state s' = Some st \<and>
      (\<exists>p b. process s' = Some p \<and> runs s' st p \<and> CreateNewCluster p = found \<and> ProcQuarantined p = found \<and>
         marshal E st = Inr b \<and> stateFile s' = Some b))"
proof -
  have "joinResult E r s s'"
    using wpD [OF JoinCluster_spec [OF reach_consistent [OF assms(1)]] assms(2)] by simp
  moreover have "runs s' (joinState False q r) p \<Longrightarrow> ProcQuarantined p = q" for p q
    by (simp add: runs_def joinState_def)
  ultimately show ?thesis
    using assms(3) by (fastforce simp: joinResult_def joined_def expired_def Let_def)
qed

theorem join_needs_prepare_witness:
  "prepared exampleJoined = None \<and> (\<exists>p. process exampleJoined = Some p \<and> ProcQuarantined p)"
  using join_needs_prepare [OF example_reach exampleJoined_eq] by (auto simp: Let_def)

lemma exampleJoined_state:
  "state exampleJoined = Some (joinState False True (exampleJoin PHASE_INITIAL_CLUSTER))"
  "\<exists>p. process exampleJoined = Some p" "sameNode exampleEtcd exampleJoined"
  using wpD [OF JoinCluster_spec [OF reach_consistent [OF example_reach]] exampleJoined_eq]
  by (auto simp: joinResult_def joined_def sameNode_def)

theorem running_etcd_matches_state_witness:
  "\<exists>p. process exampleJoined = Some p \<and> EtcdVersion p = ''3.5.7'' \<and> Nodes (ProcCluster p) = [exampleNode]"
proof -
  obtain p where p: "process exampleJoined = Some p" using exampleJoined_state(2) by blast
  have "etcdNodeConfiguration exampleJoined = exampleNode"
    using exampleJoined_state(3) by (simp add: sameNode_def exampleEtcd_def)
  then have "withOwnUrls (etcdNodeConfiguration exampleJoined) exampleNode = exampleNode"
    by (simp add: withOwnUrls_def)
  with running_etcd_matches_state [OF exampleJoined_reach p] exampleJoined_state(1) p show ?thesis
    by (auto simp: joinState_def)
qed

lemma guarded_rejected_unit:
  "\<not> validFor s h \<Longrightarrow> \<exists>r. seq (validateHeader h) p s = (r, s) \<and> r \<noteq> Ret ()"
  "\<not> validFor s h \<Longrightarrow> \<exists>r. bind (seq (validateHeader h) q) f s = (r, s) \<and> r \<noteq> Ret ()"
  using validateHeader_invalid [of s h] by (auto simp: seq_def bind_def)

lemma handle_guarded:
  assumes "headerOf req = Some h" and "\<not> validFor s h"
  shows "\<exists>r. handle E req s = (r, s) \<and> r \<noteq> Ret ()"
proof -
  show ?thesis
  proof (cases req)
    case (DoBackupRpc r)
    with assms(1) have h: "h = BackupHeader r" by simp
    show ?thesis unfolding DoBackupRpc handle.simps DoBackup_def h by (rule guarded_rejected_unit(2) [OF assms(2) [unfolded h]])
  next
    case (JoinClusterRpc r)
    with assms(1) have h: "h = JoinHeader r" by simp
    show ?thesis unfolding JoinClusterRpc handle.simps JoinCluster_def h by (rule guarded_rejected_unit(1) [OF assms(2) [unfolded h]])
  next
    case (ReconfigureRpc r)
    with assms(1) have h: "h = ReconfHeader r" by simp
    show ?thesis unfolding ReconfigureRpc handle.simps Reconfigure_def h by (rule guarded_rejected_unit(1) [OF assms(2) [unfolded h]])
  next
    case (StopEtcdRpc g)
    with assms(1) have h: "h = g" by simp
    show ?thesis unfolding StopEtcdRpc handle.simps StopEtcd_def h by (rule guarded_rejected_unit(1) [OF assms(2) [unfolded h]])
  qed (use assms(1) in simp_all)
qed



text \<open>
  C8. The state survives a restart. If the state file can be written and decoded, then from any reachable
  state in which the node has a state, a restart that succeeds recovers exactly that state.
\<close>

theorem restart_recovers_state:
  assumes "(\<forall>n. writeError E n = None) \<and> (\<forall>st. \<exists>b. marshal E st = Inr b \<and> unmarshal E b = Inr st)"
    and "serverReach E s" and "state s = Some st" and "NewEtcdServer E (rebooted s) = (Ret (), s')"
  shows "state s' = Some st"
proof -
  have "durable E s" using assms(1,2) by (simp add: reach_durable reliable_def)
  with assms(3) obtain b where "stateFile s = Some b" "unmarshal E b = Inr st" by (auto simp: durable_def)
  then have "wp (NewEtcdServer E) (\<lambda>r s'. r = Ret () \<longrightarrow> state s' = Some st) (rebooted s)"
    by (simp add: NewEtcdServer_def initState_def readState_def rebooted_def wp_simps split: option.split)
  from wpD [OF this assms(4)] show ?thesis by simp
qed


theorem restart_recovers_state_witness:
  "\<exists>s'. NewEtcdServer exampleEnv (rebooted exampleJoined) = (Ret (), s') \<and>
     state s' = Some (joinState False True (exampleJoin PHASE_INITIAL_CLUSTER))"
proof -
  have rel: "(\<forall>n. writeError exampleEnv n = None) \<and> (\<forall>st. \<exists>b. marshal exampleEnv st = Inr b \<and> unmarshal exampleEnv b = Inr st)"
    using example_codec by simp
  note st = exampleJoined_state(1)
  have "durable exampleEnv exampleJoined" using rel by (simp add: reach_durable reliable_def exampleJoined_reach)
  with st obtain b where "stateFile exampleJoined = Some b" by (auto simp: durable_def)
  then have "\<exists>s'. NewEtcdServer exampleEnv (rebooted exampleJoined) = (Ret (), s')"
    by (simp add: NewEtcdServer_def initState_def readState_def rebooted_def prog_defs exampleUnmarshal_def)
  with restart_recovers_state [OF rel exampleJoined_reach st] show ?thesis by blast
qed


definition exampleReconfigure :: ReconfigureRequest where
  "exampleReconfigure = \<lparr>ReconfHeader = Some \<lparr>HeaderToken = ''lead'', HeaderCluster = ''c''\<rparr>, SetEtcdVersion = '''',
     ReconfQuarantined = False, EnableTls = True\<rparr>"

lemma exampleJoined_valid: "validFor exampleJoined (Some \<lparr>HeaderToken = ''lead'', HeaderCluster = ''c''\<rparr>)"
  using exampleJoined_state(3) by (simp add: sameNode_def validFor_def exampleEtcd_def exampleLeadership_def IsLeader_def)

lemma exampleReconfigured: "\<exists>s'. Reconfigure exampleEnv exampleReconfigure exampleJoined = (Ret (), s')"
proof -
  let ?st = "reconfiguredState ''etcd-a'' exampleReconfigure (joinState False True (exampleJoin PHASE_INITIAL_CLUSTER))
     \<lparr>DesiredClusterSize = 0, ClusterToken = ''t'', Nodes = [exampleNode]\<rparr>"
  have r: "ReconfHeader exampleReconfigure = Some \<lparr>HeaderToken = ''lead'', HeaderCluster = ''c''\<rparr>" "SetEtcdVersion exampleReconfigure = ''''" by (simp_all add: exampleReconfigure_def)
  have name: "Name exampleNode = ''etcd-a''" by (simp add: exampleNode_def)
  have tls: "enableTls exampleNode = exampleNode" by code_simp
  obtain p where p: "process exampleJoined = Some p" using exampleJoined_state(2) by blast
  have node: "etcdNodeConfiguration exampleJoined = exampleNode" "\<not> etcdPeersCA exampleJoined" "\<not> etcdClientsCA exampleJoined"
    using exampleJoined_state(3) by (simp_all add: sameNode_def exampleEtcd_def)
  have "\<exists>s'. installState exampleEnv ?st s = (Ret (), s')" if "etcdNodeConfiguration s = exampleNode" "\<not> etcdPeersCA s" "\<not> etcdClientsCA s" for s
  proof -
    let ?s = "s\<lparr>state := Some ?st, calls := Suc (calls s), stateFile := Some (FormatUint (to_nat (stateFields ?st)))\<rparr>"
    have "\<exists>p. startEtcdProcess exampleEnv ?st ?s = (Ret (), ?s\<lparr>calls := Suc (calls ?s), process := Some p\<rparr>)"
      using that by (intro example_launch) (simp_all add: reconfiguredState_def joinState_def exampleReconfigure_def tls)
    then show ?thesis by (auto simp: installState_def setState_def writeState_def prog_defs exampleMarshal_def)
  qed
  then show ?thesis
    using validateHeader_valid [OF exampleJoined_valid] node p exampleJoined_state(1)
    by (simp add: Reconfigure_def r name joinState_def findSelfNode_def stopEtcdProcess_def Stop_def Let_def prog_defs exampleEnv_def)
qed


text \<open>
  C24. A second request to stop etcd crashes the manager: after a successful \<open>StopEtcd\<close> the state has no
  cluster, and the next \<open>StopEtcd\<close> with a valid header dereferences it.
\<close>

theorem stop_twice_crashes:
  assumes "serverReach E s" and "StopEtcd E h s = (Ret (), s')"
  shows "process s' = None \<and> state s' = Some emptyState \<and> StopEtcd E h s' = (Crash ''nil pointer dereference'', s')"
proof -
  have s': "process s' = None" "state s' = Some emptyState" "validFor s h" "sameNode s s'"
    using wpD [OF StopEtcd_spec [OF reach_consistent [OF assms(1)]] assms(2)] by auto
  then have "validFor s' h" by (simp add: validFor_def sameNode_def)
  then have "validateHeader h s' = (Ret (), s')" by (rule validateHeader_valid)
  with s' show ?thesis by (simp add: StopEtcd_def seq_def bind_def gets_def crash_def emptyState_def)
qed


theorem stop_twice_crashes_witness:
  "let h = Some \<lparr>HeaderToken = ''lead'', HeaderCluster = ''c''\<rparr>
   in fst (StopEtcd exampleEnv h exampleJoined) = Ret () \<and>
      fst (StopEtcd exampleEnv h (snd (StopEtcd exampleEnv h exampleJoined))) = Crash ''nil pointer dereference''"
proof -
  let ?h = "Some \<lparr>HeaderToken = ''lead'', HeaderCluster = ''c''\<rparr>"
  obtain p where p: "process exampleJoined = Some p" using exampleJoined_state(2) by blast
  have "\<exists>s'. StopEtcd exampleEnv ?h exampleJoined = (Ret (), s')"
    using validateHeader_valid [OF exampleJoined_valid] p exampleJoined_state(1)
    by (simp add: StopEtcd_def joinState_def stopEtcdProcess_def Stop_def setState_def writeState_def prog_defs exampleMarshal_def exampleEnv_def)
  then obtain s' where r: "StopEtcd exampleEnv ?h exampleJoined = (Ret (), s')" by blast
  from stop_twice_crashes [OF exampleJoined_reach r] r show ?thesis by (simp add: Let_def)
qed

end
