(* ===== verification/EtcdClient.thy ===== *)
theory EtcdClient
  imports EtcdApi Backup "HOL-Library.Word" "HOL-Library.Sublist"
begin

text \<open>
  The client of an etcd cluster (\<open>pkg/etcdclient\<close>) and the sinks of a dump (\<open>pkg/etcd/dump\<close>). The
  etcd API is a parameter, \<open>etcdService\<close>, over an arbitrary state of the world; a client is the
  service of its endpoints. \<open>CopyTo\<close> reads the whole key space in batches; its loop ends only if
  the server answers as documented, so it takes fuel and gives \<open>None\<close> when that is used up.
\<close>

section \<open>The client\<close>

record EtcdProcessMember =
  MemberName :: string
  PeerURLs :: "string list"
  ClientURLs :: "string list"
  memberVersion :: string
  MemberID :: string
  idv3 :: "64 word"

text \<open>The members as the cluster API reports them, and what a status call gives.\<close>

record raftMember =
  RaftID :: "64 word"
  RaftName :: string
  RaftPeerURLs :: "string list"
  RaftClientURLs :: "string list"

record etcdStatus =
  StatusLeader :: "64 word"
  StatusMemberId :: "64 word"

type_synonym keyValue = "string \<times> string"

record 's etcdService =
  kvGet :: "string \<Rightarrow> ('s, keyValue list) prog"
  kvGetFrom :: "string \<Rightarrow> nat \<Rightarrow> ('s, keyValue list) prog"
  kvPut :: "string \<Rightarrow> string \<Rightarrow> ('s, unit) prog"
  kvCreate :: "string \<Rightarrow> string \<Rightarrow> ('s, bool) prog"
  memberList :: "('s, raftMember list) prog"
  memberAdd :: "string list \<Rightarrow> ('s, unit) prog"
  memberUpdate :: "64 word \<Rightarrow> string list \<Rightarrow> ('s, unit) prog"
  memberRemove :: "64 word \<Rightarrow> ('s, unit) prog"
  statusOf :: "string \<Rightarrow> ('s, etcdStatus) prog"
  httpVersion :: "string \<Rightarrow> ('s, string) prog"

text \<open>\<open>httpVersion\<close> is the request for the URL, reading and decoding the answer; a failure goes to the next endpoint.\<close>

definition versionURL :: "string \<Rightarrow> string" where
  "versionURL endpoint = (if HasSuffix endpoint ''/'' then endpoint else endpoint @ ''/'') @ ''version''"

definition ServerVersion :: "'s etcdService \<Rightarrow> string list \<Rightarrow> ('s, string) prog" where
  "ServerVersion svc endpoints =
     bind (forReturn endpoints (\<lambda>endpoint.
         bind (attempt (httpVersion svc (versionURL endpoint))) (\<lambda>r. case r of
             Inl _ \<Rightarrow> ret None
           | Inr v \<Rightarrow> ret (Some v))))
       (\<lambda>r. case r of None \<Rightarrow> fail (Errorf ''could not fetch server version'') | Some v \<Rightarrow> ret v)"

definition Get :: "'s etcdService \<Rightarrow> string \<Rightarrow> ('s, string option) prog" where
  "Get svc key = bind (kvGet svc key) (\<lambda>kvs. ret (case kvs of [] \<Rightarrow> None | (_, v) # _ \<Rightarrow> Some v))"

definition Create :: "'s etcdService \<Rightarrow> string \<Rightarrow> string \<Rightarrow> ('s, unit) prog" where
  "Create svc key v = bind (kvCreate svc key v) (\<lambda>succeeded.
     if succeeded then ret () else fail (Errorf ''key already exists''))"

definition Put :: "'s etcdService \<Rightarrow> string \<Rightarrow> string \<Rightarrow> ('s, unit) prog" where
  "Put svc key v = kvPut svc key v"

definition toMember :: "raftMember \<Rightarrow> EtcdProcessMember" where
  "toMember m = \<lparr>MemberName = RaftName m, PeerURLs = RaftPeerURLs m, ClientURLs = RaftClientURLs m, memberVersion = ''3.x'',
     MemberID = FormatUint (unat (RaftID m)), idv3 = RaftID m\<rparr>"

definition ListMembers :: "'s etcdService \<Rightarrow> ('s, EtcdProcessMember list) prog" where
  "ListMembers svc = bind (memberList svc) (\<lambda>ms. ret (map toMember ms))"

definition LeaderID :: "'s etcdService \<Rightarrow> string list \<Rightarrow> ('s, string) prog" where
  "LeaderID svc endpoints =
     (case endpoints of
        [] \<Rightarrow> crash ''index out of range''
      | e # _ \<Rightarrow> bind (statusOf svc e) (\<lambda>st.
          ret (if StatusLeader st = 0 then '''' else FormatUint (unat (StatusLeader st)))))"

definition AddMember :: "'s etcdService \<Rightarrow> string list \<Rightarrow> ('s, unit) prog" where
  "AddMember svc urls = memberAdd svc urls"

definition SetPeerURLs :: "'s etcdService \<Rightarrow> EtcdProcessMember \<Rightarrow> string list \<Rightarrow> ('s, unit) prog" where
  "SetPeerURLs svc m urls = memberUpdate svc (idv3 m) urls"

definition RemoveMember :: "'s etcdService \<Rightarrow> EtcdProcessMember \<Rightarrow> ('s, unit) prog" where
  "RemoveMember svc m = memberRemove svc (idv3 m)"

text \<open>
  \<open>LocalNodeInfo\<close> asks the endpoints in turn for the first answer; with no answer it returns the last
  error, which is nil when there are no endpoints: \<open>None\<close> is that nil result.
\<close>

fun LocalNodeInfo :: "'s etcdService \<Rightarrow> string list \<Rightarrow> goerr option \<Rightarrow> ('s, bool option) prog" where
  "LocalNodeInfo svc [] lastErr = (case lastErr of Some e \<Rightarrow> fail e | None \<Rightarrow> ret None)"
| "LocalNodeInfo svc (e # es) lastErr =
     bind (attempt (statusOf svc e)) (\<lambda>r. case r of
         Inl err \<Rightarrow> LocalNodeInfo svc es (Some err)
       | Inr st \<Rightarrow> ret (Some (StatusMemberId st = StatusLeader st)))"

section \<open>Copying the key space\<close>

fun copyBatch :: "(string \<Rightarrow> string \<Rightarrow> ('s, unit) prog) \<Rightarrow> keyValue list \<Rightarrow> string \<times> bool \<times> nat \<Rightarrow> ('s, string \<times> bool \<times> nat) prog" where
  "copyBatch sink [] acc = ret acc"
| "copyBatch sink ((key, v) # kvs) (lastKey, gotMore, copied) =
     (if key = lastKey then copyBatch sink kvs (lastKey, gotMore, copied)
      else seq (rewrap (Wrapf ''error writing key to destination'') (sink key v))
             (copyBatch sink kvs (key, True, Suc copied)))"

definition copyLimit :: nat where "copyLimit = 1000"

fun copyLoop :: "nat \<Rightarrow> (string \<Rightarrow> nat \<Rightarrow> ('s, keyValue list) prog) \<Rightarrow> (string \<Rightarrow> string \<Rightarrow> ('s, unit) prog) \<Rightarrow>
    string \<Rightarrow> nat \<Rightarrow> ('s, nat option) prog" where
  "copyLoop 0 source sink lastKey copied = ret None"
| "copyLoop (Suc n) source sink lastKey copied =
     bind (source (if lastKey = '''' then [CHR 0x00] else lastKey) copyLimit) (\<lambda>kvs.
       bind (copyBatch sink kvs (lastKey, False, copied)) (\<lambda>(lastKey', gotMore, copied').
         if gotMore then copyLoop n source sink lastKey' copied' else ret (Some copied')))"

definition CopyTo :: "nat \<Rightarrow> 's etcdService \<Rightarrow> (string \<Rightarrow> string \<Rightarrow> ('s, unit) prog) \<Rightarrow> ('s, nat option) prog" where
  "CopyTo fuel svc sink = copyLoop fuel (kvGetFrom svc) sink '''' 0"

section \<open>Sinks\<close>

text \<open>
  The writer behind a sink: every write may fail, after some of the text was written.
\<close>

record writer =
  written :: string
  wtick :: nat

definition writeText :: "(nat \<Rightarrow> (nat \<times> goerr) option) \<Rightarrow> string \<Rightarrow> (writer, unit) prog" where
  "writeText W text = bind (gets wtick) (\<lambda>n. case W n of
     None \<Rightarrow> modify (\<lambda>s. s\<lparr>written := written s @ text, wtick := Suc n\<rparr>)
   | Some (k, e) \<Rightarrow> seq (modify (\<lambda>s. s\<lparr>written := written s @ take k text, wtick := Suc n\<rparr>)) (fail e))"

definition dumpLine :: "string \<Rightarrow> string \<Rightarrow> string" where
  "dumpLine key v = (if key \<noteq> ''/'' then TrimPrefix key ''/'' @ '' => '' @ v @ [CHR 0x0A] else '''')"

definition streamPut :: "(nat \<Rightarrow> (nat \<times> goerr) option) \<Rightarrow> string \<Rightarrow> string \<Rightarrow> (writer, unit) prog" where
  "streamPut W key v =
     (if key \<noteq> ''/'' then rewrap (Wrapf ''error writing to output'') (writeText W (dumpLine key v)) else ret ())"

text \<open>
  The tar sink synthesizes the directories. \<open>ensureDirs\<close> recurses on \<open>path.Dir\<close> until it meets the root; each call
  takes one unit of fuel, the depth of the Go stack, and running out of it is the fatal stack overflow.
\<close>

datatype tarEntry = TarDir string | TarFile string nat | TarData string

record TarDumpSink =
  entries :: "tarEntry list"
  doneDirs :: "string list"
  ttick :: nat

definition tarWrite :: "(nat \<Rightarrow> goerr option) \<Rightarrow> string \<Rightarrow> tarEntry \<Rightarrow> (TarDumpSink, unit) prog" where
  "tarWrite W msg e = bind (gets ttick) (\<lambda>n.
     seq (modify (\<lambda>s. s\<lparr>ttick := Suc n\<rparr>))
      (case W n of Some err \<Rightarrow> fail (Wrapf msg err) | None \<Rightarrow> modify (\<lambda>s. s\<lparr>entries := entries s @ [e]\<rparr>)))"

definition pathDir :: "string \<Rightarrow> string" where
  "pathDir p = (case LastIndexByte (CHR ''/'') p of None \<Rightarrow> ''.'' | Some i \<Rightarrow> pathClean (take (Suc i) p))"

definition dirName :: "string \<Rightarrow> string" where
  "dirName p = TrimPrefix (if HasSuffix p ''/'' then p else p @ ''/'') ''/''"

fun ensureDirs :: "nat \<Rightarrow> (nat \<Rightarrow> goerr option) \<Rightarrow> string \<Rightarrow> (TarDumpSink, unit) prog" where
  "ensureDirs 0 W p = crash ''stack overflow''"
| "ensureDirs (Suc n) W p =
     (if p = '''' \<or> p = ''/'' then ret ()
      else bind (gets doneDirs) (\<lambda>ds.
        if p \<in> set ds then ret ()
        else seq (ensureDirs n W (pathDir p))
              (seq (tarWrite W ''error writing tar header'' (TarDir (dirName p)))
                (modify (\<lambda>s. s\<lparr>doneDirs := p # doneDirs s\<rparr>)))))"

definition tarPut :: "nat \<Rightarrow> (nat \<Rightarrow> goerr option) \<Rightarrow> string \<Rightarrow> string \<Rightarrow> (TarDumpSink, unit) prog" where
  "tarPut depth W key v =
     seq (ensureDirs depth W (pathDir key))
      (seq (tarWrite W ''error writing tar header'' (TarFile (TrimPrefix key ''/'') (length v)))
        (if v \<noteq> '''' then tarWrite W ''error writing tar data'' (TarData v) else ret ()))"


section \<open>Sinks as an interface\<close>

text \<open>
  What \<open>CopyTo\<close> relies on: a sink keeps a log, a put that succeeds appends the rendering of the key and
  the value to it, and nothing is ever taken back.
\<close>

definition rendered :: "(string \<Rightarrow> string \<Rightarrow> 'e list) \<Rightarrow> keyValue list \<Rightarrow> 'e list" where
  "rendered render kvs = concat (map (\<lambda>(k, v). render k v) kvs)"

lemma rendered_simps [simp]: "rendered render [] = []"
  "rendered render ((k, v) # kvs) = render k v @ rendered render kvs"
  "rendered render (xs @ ys) = rendered render xs @ rendered render ys"
  by (simp_all add: rendered_def)

text \<open>The documented answer to a range request: the first keys from the given one on, in order.\<close>

definition rangeFrom :: "keyValue list \<Rightarrow> string \<Rightarrow> nat \<Rightarrow> keyValue list" where
  "rangeFrom store from n = take n (filter (\<lambda>(k, v). from \<le> k) store)"

definition keysOK :: "keyValue list \<Rightarrow> bool" where
  "keysOK store \<longleftrightarrow> sorted_wrt (<) (map fst store) \<and> '''' \<notin> fst ` set store"

lemma nul_least: "k \<noteq> '''' \<Longrightarrow> [CHR 0x00] \<le> k"
proof (cases k)
  case (Cons c cs)
  have "CHR 0x00 \<le> c" by (simp add: less_eq_char_def)
  then have "CHR 0x00 < c \<or> CHR 0x00 = c" by (simp add: le_less)
  then show ?thesis by (auto simp: Cons)
qed simp

lemma range_start: "keysOK store \<Longrightarrow> rangeFrom store [CHR 0x00] n = take n store"
proof -
  assume "keysOK store"
  then have "filter (\<lambda>(k, v). [CHR 0x00] \<le> k) store = store"
    by (intro filter_True) (force simp: keysOK_def intro: nul_least)
  then show ?thesis by (simp add: rangeFrom_def)
qed

lemma range_resume:
  assumes "keysOK (xs @ (k, v) # ys)"
  shows "rangeFrom (xs @ (k, v) # ys) k n = take n ((k, v) # ys)"
proof -
  have "filter (\<lambda>(k', v). k \<le> k') xs = []"
    using assms by (auto simp: keysOK_def sorted_wrt_append filter_empty_conv)
  moreover have "filter (\<lambda>(k', v). k \<le> k') ys = ys"
    using assms by (intro filter_True) (force simp: keysOK_def sorted_wrt_append)
  ultimately show ?thesis by (simp add: rangeFrom_def)
qed

text \<open>The keys that are left are new, and a batch from the last key on holds that key and some of them.\<close>

definition lastOf :: "keyValue list \<Rightarrow> string" where
  "lastOf xs = (if xs = [] then '''' else fst (last xs))"

lemma keys_left:
  assumes "keysOK (xs @ ys)"
  shows "lastOf xs \<notin> fst ` set ys" "distinct (map fst ys)" "xs \<noteq> [] \<longrightarrow> lastOf xs \<noteq> ''''"
proof -
  have nonempty: "k \<noteq> ''''" if "k \<in> fst ` (set xs \<union> set ys)" for k
    using that assms by (metis keysOK_def set_append)
  have less: "a < b" if "a \<in> fst ` set xs" "b \<in> fst ` set ys" for a b
    using that assms by (auto simp: keysOK_def sorted_wrt_append)
  have last: "xs \<noteq> [] \<Longrightarrow> lastOf xs \<in> fst ` set xs" by (simp add: lastOf_def)
  show "lastOf xs \<notin> fst ` set ys"
  proof (cases "xs = []")
    case True
    then show ?thesis using nonempty [of "lastOf xs"] by (auto simp: lastOf_def)
  next
    case False
    then show ?thesis using less [OF last] by blast
  qed
  show "distinct (map fst ys)" using assms by (simp add: keysOK_def sorted_wrt_append strict_sorted_iff)
  show "xs \<noteq> [] \<longrightarrow> lastOf xs \<noteq> ''''" using nonempty [of "lastOf xs"] last by blast
qed

lemma next_batch:
  assumes "keysOK (xs @ ys)" and start: "start = (if lastOf xs = '''' then [CHR 0x00] else lastOf xs)"
  shows "\<exists>m > 0. copyBatch sink (rangeFrom (xs @ ys) start copyLimit) (lastOf xs, False, n) = copyBatch sink (take m ys) (lastOf xs, False, n)"
proof (cases xs rule: rev_cases)
  case Nil
  then have "rangeFrom (xs @ ys) start copyLimit = take 1000 ys"
    using assms by (simp add: range_start copyLimit_def lastOf_def)
  then show ?thesis by (intro exI [of _ 1000]) simp
next
  case (snoc zs kv)
  obtain k v where kv: "kv = (k, v)" by (cases kv)
  have "rangeFrom (xs @ ys) start copyLimit = take 1000 ((k, v) # ys)"
    using range_resume [of zs k v ys 1000] assms keys_left(3) [OF assms(1)] snoc
    by (simp add: kv copyLimit_def lastOf_def del: take_Suc_Cons)
  also have "\<dots> = (k, v) # take 999 ys" by (simp add: take_Cons')
  finally show ?thesis using snoc by (intro exI [of _ 999]) (simp add: kv lastOf_def)
qed

locale node_sink =
  fixes sink :: "string \<Rightarrow> string \<Rightarrow> ('s, unit) prog"
    and log :: "'s \<Rightarrow> 'e list"
    and render :: "string \<Rightarrow> string \<Rightarrow> 'e list"
  assumes sink_put: "wp (sink k v) (\<lambda>r s'. (\<exists>x. log s' = log s @ x) \<and> (\<forall>u. r = Ret u \<longrightarrow> log s' = log s @ render k v)) s"
begin

lemma copyBatch_new:
  assumes "lastKey \<notin> fst ` set kvs" "distinct (map fst kvs)"
  shows "wp (copyBatch sink kvs (lastKey, g, n)) (\<lambda>r s'. (\<exists>x. log s' = log s @ x) \<and>
     (\<forall>a. r = Ret a \<longrightarrow> log s' = log s @ rendered render kvs \<and>
        a = (if kvs = [] then lastKey else fst (last kvs), g \<or> kvs \<noteq> [], n + length kvs))) s"
  using assms
proof (induction kvs arbitrary: lastKey g n s)
  case (Cons kv kvs)
  obtain k v where kv: "kv = (k, v)" by (cases kv)
  have IH: "wp (copyBatch sink kvs (k, True, Suc n)) (\<lambda>r s'. (\<exists>x. log s' = log t @ x) \<and>
     (\<forall>a. r = Ret a \<longrightarrow> log s' = log t @ rendered render kvs \<and>
        a = (if kvs = [] then k else fst (last kvs), True \<or> kvs \<noteq> [], Suc n + length kvs))) t" for t
    using Cons.prems by (intro Cons.IH) (auto simp: kv)
  have new: "k \<noteq> lastKey" using Cons.prems by (auto simp: kv)
  show ?case
    unfolding kv copyBatch.simps if_not_P [OF new] wp_seq wp_rewrap
  proof (rule wp_mono [OF sink_put], goal_cases)
    case (1 r t)
    then obtain x where x: "log t = log s @ x" by blast
    show ?case
    proof (cases r)
      case (Ret u)
      with 1 have t: "log t = log s @ render k v" by simp
      show ?thesis unfolding Ret outcome.case by (rule wp_mono [OF IH]) (auto simp: t)
    qed (simp_all add: x)
  qed
qed (simp add: wp_ret)

lemma copyLoop_spec:
  assumes source: "\<And>from n s. wp (source from n) (\<lambda>r s'. log s' = log s \<and> (\<forall>kvs. r = Ret kvs \<longrightarrow> kvs = rangeFrom store from n)) s"
    and ok: "keysOK store"
  shows "store = xs @ ys \<Longrightarrow> length ys < fuel \<Longrightarrow>
    wp (copyLoop fuel source sink (lastOf xs) (length xs)) (\<lambda>r s'. (\<exists>x. log s' = log s @ x) \<and>
      (\<forall>a. r = Ret a \<longrightarrow> a = Some (length store) \<and> log s' = log s @ rendered render ys)) s"
proof (induction fuel arbitrary: xs ys s)
  case (Suc fuel)
  define start where "start = (if lastOf xs = '''' then [CHR 0x00] else lastOf xs)"
  let ?Q = "\<lambda>s ys r s'. (\<exists>x. log s' = log s @ x) \<and>
      (\<forall>a. r = Ret a \<longrightarrow> a = Some (length store) \<and> log s' = log s @ rendered render ys)"
  note left = keys_left [OF ok [unfolded Suc.prems(1)]]
  obtain m where m: "0 < m" and batch: "copyBatch sink (rangeFrom store start copyLimit) (lastOf xs, False, length xs) =
      copyBatch sink (take m ys) (lastOf xs, False, length xs)"
    using next_batch [OF ok [unfolded Suc.prems(1)] start_def, of sink "length xs"] unfolding Suc.prems(1) by blast
  have split: "rendered render ys = rendered render (take m ys) @ rendered render (drop m ys)"
    by (metis append_take_drop_id rendered_simps(3))
  have continue: "wp (copyLoop fuel source sink (fst (last (take m ys))) (length xs + length (take m ys))) (?Q s ys) t"
    if "ys \<noteq> []" "log t = log s @ rendered render (take m ys)" for t
  proof -
    have "length (drop m ys) < fuel" "take m ys \<noteq> []" using that(1) m Suc.prems(2) by (cases ys; auto)+
    then have "wp (copyLoop fuel source sink (lastOf (xs @ take m ys)) (length (xs @ take m ys))) (?Q t (drop m ys)) t"
      using Suc.prems(1) by (intro Suc.IH) simp_all
    then show ?thesis
      using \<open>take m ys \<noteq> []\<close> by (auto simp: lastOf_def split that(2) elim!: wp_mono)
  qed
  have rest: "wp (copyBatch sink (take m ys) (lastOf xs, False, length xs)) (\<lambda>r t. case r of
      Ret (lastKey', g, n) \<Rightarrow> wp (if g then copyLoop fuel source sink lastKey' n else ret (Some n)) (?Q s ys) t
    | Err e \<Rightarrow> ?Q s ys (Err e) t | Crash e \<Rightarrow> ?Q s ys (Crash e) t) u" if "log u = log s" for u
  proof (rule wp_mono [OF copyBatch_new], goal_cases)
    case (3 r t)
    then show ?case using that continue [of t] Suc.prems(1) m by (cases r; cases "ys = []") (auto simp: wp_ret)
  qed (use left in \<open>auto dest: in_set_takeD simp: take_map [symmetric]\<close>)
  show ?case
    unfolding copyLoop.simps start_def [symmetric] wp_bind
  proof (rule wp_mono [OF source], goal_cases)
    case (1 r u)
    then show ?case using rest [of u] by (cases r) (auto simp: batch split_def elim!: wp_mono split: outcome.split)
  qed
qed simp

end

interpretation stream_sink: node_sink "streamPut W" written dumpLine for W
  by unfold_locales (auto simp: streamPut_def writeText_def dumpLine_def wp_simps split: option.split)

text \<open>The tar sink's log: the files with their contents; directories are extra.\<close>

definition tarFiles :: "TarDumpSink \<Rightarrow> tarEntry list" where
  "tarFiles s = filter (\<lambda>e. \<forall>d. e \<noteq> TarDir d) (entries s)"

definition tarRender :: "string \<Rightarrow> string \<Rightarrow> tarEntry list" where
  "tarRender k v = TarFile (TrimPrefix k ''/'') (length v) # (if v \<noteq> '''' then [TarData v] else [])"

lemma tarFiles_upd [simp]: "tarFiles (s\<lparr>ttick := n\<rparr>) = tarFiles s" "tarFiles (s\<lparr>doneDirs := d\<rparr>) = tarFiles s"
  by (simp_all add: tarFiles_def)

definition sameFiles :: "TarDumpSink \<Rightarrow> TarDumpSink \<Rightarrow> bool" where
  "sameFiles s s' \<longleftrightarrow> tarFiles s' = tarFiles s"

interpretation same_files: state_preorder sameFiles
  by unfold_locales (simp_all add: sameFiles_def)

lemma tarWrite_dir: "keeps sameFiles (tarWrite W m (TarDir d))"
  by (auto simp: keeps_def sameFiles_def tarWrite_def tarFiles_def wp_simps split: option.split)

lemma ensureDirs_files: "keeps sameFiles (ensureDirs n W p)"
  by (induction n arbitrary: p)
     (auto intro!: same_files.keeps_pure same_files.keeps_bind same_files.keeps_seq same_files.keeps_modify tarWrite_dir simp: sameFiles_def)

interpretation tar_sink: node_sink "tarPut depth W" tarFiles tarRender for depth W
proof unfold_locales
  fix k v s
  have wr: "wp (tarWrite W m e) (\<lambda>r s'. (r = Ret () \<and> tarFiles s' = tarFiles t @ [e]) \<or> ((\<forall>u. r \<noteq> Ret u) \<and> tarFiles s' = tarFiles t)) t"
    if "\<forall>d. e \<noteq> TarDir d" for m e t
    using that by (simp add: tarWrite_def tarFiles_def wp_simps split: option.split)
  let ?Q = "\<lambda>t r s'. (\<exists>x. tarFiles s' = tarFiles t @ x) \<and> (\<forall>u. r = Ret u \<longrightarrow> tarFiles s' = tarFiles t @ tarRender k v)"
  have "wp (seq (tarWrite W m (TarFile (TrimPrefix k ''/'') (length v)))
        (if v \<noteq> '''' then tarWrite W m' (TarData v) else ret ())) (?Q t) t" for m m' t
    unfolding wp_seq
    by (rule wp_mono [OF wr]) (auto simp: wp_ret tarRender_def split: outcome.split intro!: wp_mono [OF wr])
  note rest = this
  show "wp (tarPut depth W k v) (?Q s) s"
    unfolding tarPut_def wp_seq [of "ensureDirs _ _ _"]
  proof (rule wp_mono [OF ensureDirs_files [unfolded keeps_def sameFiles_def, rule_format]], goal_cases)
    case (1 r t)
    then show ?case using rest [of _ _ t] by (cases r) simp_all
  qed
qed

section \<open>The depth of directories\<close>

lemma cleanParts_elems:
  "(\<forall>p \<in> set acc. p \<noteq> '''' \<and> CHR ''/'' \<notin> set p) \<Longrightarrow> (\<forall>p \<in> set ps. CHR ''/'' \<notin> set p) \<Longrightarrow>
   p \<in> set (cleanParts r acc ps) \<Longrightarrow> p \<noteq> '''' \<and> CHR ''/'' \<notin> set p"
  by (induction r acc ps rule: cleanParts.induct) (auto split: if_splits list.splits)

lemma cleanParts_step:
  "\<forall>p \<in> set acc. plainElem p \<Longrightarrow> cleanParts True acc (q # ps) =
     (if q = '''' \<or> q = ''.'' then cleanParts True acc ps
      else cleanParts True (if q = ''..'' then tl acc else q # acc) ps)"
  by (cases acc) (simp_all add: plainElem_def)

lemma cleanParts_rooted:
  "\<forall>p \<in> set acc. plainElem p \<Longrightarrow> (\<forall>p \<in> set ps. CHR ''/'' \<notin> set p) \<Longrightarrow> p \<in> set (cleanParts True acc ps) \<Longrightarrow> plainElem p"
proof (induction ps arbitrary: acc)
  case (Cons q ps)
  show ?case
  proof (cases "q = '''' \<or> q = ''.''")
    case True
    then show ?thesis using Cons.IH [of acc] Cons.prems cleanParts_step [OF Cons.prems(1), of q ps] by simp
  next
    case False
    have "set (tl acc) \<subseteq> set acc" by (cases acc) auto
    then have "\<forall>p \<in> set (if q = ''..'' then tl acc else q # acc). plainElem p"
      using Cons.prems(1,2) False by (auto simp: plainElem_def)
    then show ?thesis
      using Cons.IH [OF _ _ Cons.prems(3) [unfolded cleanParts_step [OF Cons.prems(1)] if_not_P [OF False]]] Cons.prems(2) by simp
  qed
qed simp

lemma cleanParts_length: "length (cleanParts r acc ps) \<le> length acc + length ps"
  by (induction r acc ps rule: cleanParts.induct) (force split: list.splits)+

lemma Split_length: "length (Split c s) \<le> Suc (length s)"
  by (induction s) (auto split: list.split)

lemma Join_hd: "w \<noteq> '''' \<Longrightarrow> \<exists>t. Join sep (w # ws) = hd w # t"
  by (cases w; cases ws) auto

lemma clean_relative:
  assumes "s \<noteq> ''''" "\<not> HasPrefix s ''/''"
  shows "pathClean s \<noteq> '''' \<and> \<not> HasPrefix (pathClean s) ''/''"
proof -
  let ?ps = "cleanParts False [] (Split (CHR ''/'') s)"
  have elems: "p \<noteq> '''' \<and> CHR ''/'' \<notin> set p" if "p \<in> set ?ps" for p
    using that by (rule cleanParts_elems [rotated 2]) (auto dest: Split_parts)
  have "Join ''/'' ?ps = '''' \<or> (\<exists>c t. Join ''/'' ?ps = c # t \<and> c \<noteq> CHR ''/'')"
  proof (cases ?ps)
    case (Cons w ws)
    with elems [of w] Join_hd [of w "''/''" ws] show ?thesis by (cases w) auto
  qed simp
  then show ?thesis using assms by (auto simp: pathClean_def Let_def HasPrefix_def)
qed

lemma dir_relative: "\<not> HasPrefix p ''/'' \<Longrightarrow> pathDir p \<noteq> '''' \<and> \<not> HasPrefix (pathDir p) ''/''"
proof (cases "LastIndexByte (CHR ''/'') p")
  case (Some i)
  assume "\<not> HasPrefix p ''/''"
  then have "take (Suc i) p \<noteq> ''''" "\<not> HasPrefix (take (Suc i) p) ''/''"
    using Some by (cases p; auto simp: HasPrefix_def)+
  then show ?thesis using clean_relative Some by (simp add: pathDir_def)
qed (simp add: pathDir_def HasPrefix_def)

lemma relative_overflows:
  assumes "\<forall>d \<in> set (doneDirs s). HasPrefix d ''/''"
  shows "p \<noteq> '''' \<Longrightarrow> \<not> HasPrefix p ''/'' \<Longrightarrow> ensureDirs n W p s = (Crash ''stack overflow'', s)"
proof (induction n arbitrary: p)
  case (Suc n)
  have "p \<notin> set (doneDirs s)" "p \<noteq> ''/''" using assms Suc.prems by (auto simp: HasPrefix_def)
  with Suc dir_relative [OF Suc.prems(2)] show ?case by (simp add: bind_def seq_def gets_def)
qed (simp add: crash_def)

lemma dir_absolute:
  assumes "\<forall>p \<in> set (xs @ [x]). plainElem p"
  shows "pathDir (''/'' @ Join ''/'' (xs @ [x])) = ''/'' @ Join ''/'' xs"
proof (cases "xs = []")
  case True
  have "LastIndexByte (CHR ''/'') ('''' @ CHR ''/'' # x) = Some 0"
    using assms LastIndexByte_append [of "CHR ''/''" x "''''"] by (simp add: plainElem_def)
  then show ?thesis using True by (simp add: pathDir_def pathClean_def HasPrefix_def)
next
  case False
  have "LastIndexByte (CHR ''/'') ((''/'' @ Join ''/'' xs) @ CHR ''/'' # x) = Some (length (''/'' @ Join ''/'' xs))"
    using assms by (intro LastIndexByte_append) (simp add: plainElem_def)
  moreover have "''/'' @ Join ''/'' (xs @ [x]) = (''/'' @ Join ''/'' xs) @ CHR ''/'' # x"
    using False by (simp add: Join_append)
  ultimately have "pathDir (''/'' @ Join ''/'' (xs @ [x])) = pathClean (''/'' @ Join ''/'' xs @ ''/'')"
    by (simp add: pathDir_def)
  also have "Split (CHR ''/'') (''/'' @ Join ''/'' xs @ ''/'') = '''' # xs @ ['''']"
    using Split_Join [of "'''' # xs @ ['''']" "CHR ''/''"] assms False by (simp add: Join_Cons Join_append plainElem_def ball_Un)
  then have "pathClean (''/'' @ Join ''/'' xs @ ''/'') = ''/'' @ Join ''/'' (cleanParts True [] (xs @ ['''']))"
    by (simp add: pathClean_def HasPrefix_def)
  also have "cleanParts True acc (xs @ ['''']) = rev acc @ xs" for acc
    using assms by (induction xs arbitrary: acc) (auto simp: plainElem_def)
  finally show ?thesis by simp
qed


lemma clean_absolute:
  assumes "HasPrefix s ''/''"
  shows "\<exists>xs. pathClean s = ''/'' @ Join ''/'' xs \<and> (\<forall>p \<in> set xs. plainElem p) \<and> length xs \<le> Suc (length s)"
proof (intro exI conjI ballI)
  let ?xs = "cleanParts True [] (Split (CHR ''/'') s)"
  show "pathClean s = ''/'' @ Join ''/'' ?xs" using assms by (auto simp: pathClean_def HasPrefix_def)
  show "plainElem p" if "p \<in> set ?xs" for p
    using that by (rule cleanParts_rooted [rotated 2]) (auto dest: Split_parts)
  show "length ?xs \<le> Suc (length s)"
    using cleanParts_length [of True "[]" "Split (CHR ''/'') s"] Split_length [of "CHR ''/''" s] by simp
qed

lemma absolute_ends:
  "\<forall>p \<in> set xs. plainElem p \<Longrightarrow> length xs < n \<Longrightarrow> wp (ensureDirs n W (''/'' @ Join ''/'' xs)) (\<lambda>r _. \<forall>m. r \<noteq> Crash m) s"
proof (induction n arbitrary: xs s)
  case (Suc n)
  have finish: "wp (seq (tarWrite W m e) (modify f)) (\<lambda>r _. \<forall>m. r \<noteq> Crash m) t" for m e f t
    by (simp add: tarWrite_def wp_simps split: option.split)
  show ?case
  proof (cases xs rule: rev_cases)
    case (snoc ys y)
    have parent: "wp (ensureDirs n W (''/'' @ Join ''/'' ys)) (\<lambda>r _. \<forall>m. r \<noteq> Crash m) t" for t
      using Suc.prems snoc by (intro Suc.IH) auto
    have dir: "pathDir (''/'' @ Join ''/'' xs) = ''/'' @ Join ''/'' ys"
      using Suc.prems(1) unfolding snoc by (rule dir_absolute)
    have "wp (seq (ensureDirs n W (pathDir (''/'' @ Join ''/'' xs))) (seq (tarWrite W m e) (modify f))) (\<lambda>r _. \<forall>m. r \<noteq> Crash m) t"
      for m e f t
      unfolding dir wp_seq [of "ensureDirs _ _ _"] by (rule wp_mono [OF parent]) (auto intro: finish split: outcome.split)
    then show ?thesis by (simp add: wp_bind wp_gets wp_ret wp_if del: wp_seq)
  qed (simp add: wp_ret)
qed simp


section \<open>Properties\<close>

text \<open>
  C25. Copying the key space copies every key exactly once, in order, and ends. For a server that answers
  range requests as documented from a store with sorted, non-empty keys, \<open>CopyTo\<close> with fuel for one
  round per key and one more never runs out of it; if it returns, the count is the number of keys and the
  stream dump has been extended by exactly the lines of the store; whatever happens, the output
  only grows.
\<close>

theorem copy_to_complete:
  assumes source: "\<forall>start n s. wp (kvGetFrom svc start n) (\<lambda>r s'. written s' = written s \<and>
      (\<forall>kvs. r = Ret kvs \<longrightarrow> kvs = take n (filter (\<lambda>(k, v). start \<le> k) store))) s"
    and keys: "sorted_wrt (<) (map fst store)" "'''' \<notin> fst ` set store"
    and fuel: "length store < fuel"
  shows "wp (CopyTo fuel svc (streamPut W)) (\<lambda>r s'. (\<exists>x. written s' = written s @ x) \<and>
      (\<forall>a. r = Ret a \<longrightarrow> a = Some (length store) \<and> written s' = written s @ concat (map (\<lambda>(k, v). dumpLine k v) store))) s"
proof -
  have "wp (copyLoop fuel (kvGetFrom svc) (streamPut W) (lastOf []) (length ([] :: keyValue list))) (\<lambda>r s'. (\<exists>x. written s' = written s @ x) \<and>
      (\<forall>a. r = Ret a \<longrightarrow> a = Some (length store) \<and> written s' = written s @ rendered dumpLine store)) s"
    using source keys fuel by (intro stream_sink.copyLoop_spec) (simp_all add: keysOK_def rangeFrom_def)
  then show ?thesis by (simp add: CopyTo_def lastOf_def rendered_def)
qed

text \<open>
  C26. The tar dump handles exactly the keys that start with a slash. On such a key a recursion depth
  of the length of the key and three more is enough, so it never overflows the stack; on any other key
  the recursion over the parent directories never ends, whatever the depth of the stack.
\<close>

theorem tar_dump_absolute_keys:
  assumes "\<forall>d \<in> set (doneDirs s). HasPrefix d ''/''"
  shows "(HasPrefix key ''/'' \<longrightarrow> length key + 3 \<le> depth \<longrightarrow> (\<forall>m. fst (tarPut depth W key v s) \<noteq> Crash m)) \<and>
     (\<not> HasPrefix key ''/'' \<longrightarrow> tarPut depth W key v s = (Crash ''stack overflow'', s))"
proof (intro conjI impI)
  assume key: "HasPrefix key ''/''" and depth: "length key + 3 \<le> depth"
  have "LastIndexByte (CHR ''/'') key \<noteq> None" using key by (cases key) (auto simp: HasPrefix_def split: option.split)
  then obtain i where i: "LastIndexByte (CHR ''/'') key = Some i" "HasPrefix (take (Suc i) key) ''/''"
    using key by (cases key) (auto simp: HasPrefix_def)
  obtain xs where xs: "pathDir key = ''/'' @ Join ''/'' xs" "\<forall>p \<in> set xs. plainElem p" "length xs \<le> Suc (length (take (Suc i) key))"
    using clean_absolute [OF i(2)] i(1) by (auto simp: pathDir_def)
  have "wp (ensureDirs depth W (pathDir key)) (\<lambda>r _. \<forall>m. r \<noteq> Crash m) s"
    unfolding xs(1) using xs(2,3) depth by (intro absolute_ends) auto
  then have "wp (tarPut depth W key v) (\<lambda>r _. \<forall>m. r \<noteq> Crash m) s"
    unfolding tarPut_def wp_seq [of "ensureDirs _ _ _"]
    by (rule wp_mono) (auto simp: tarWrite_def wp_simps split: outcome.split option.split)
  then show "\<forall>m. fst (tarPut depth W key v s) \<noteq> Crash m" by (auto simp: wp_def split: prod.splits)
next
  assume "\<not> HasPrefix key ''/''"
  then show "tarPut depth W key v s = (Crash ''stack overflow'', s)"
    using relative_overflows [OF assms, of "pathDir key"] dir_relative [of key] by (simp add: tarPut_def seq_def bind_def)
qed

theorem tar_dump_absolute_keys_witness:
  "let s = \<lparr>entries = [], doneDirs = [''/registry''], ttick = 0\<rparr>
   in (\<forall>m. fst (tarPut 20 (\<lambda>_. None) ''/registry/pods'' ''x'' s) \<noteq> Crash m) \<and>
      tarPut 1000000 (\<lambda>_. None) ''registry'' ''x'' s = (Crash ''stack overflow'', s)"
  using tar_dump_absolute_keys [of "\<lparr>entries = [], doneDirs = [''/registry''], ttick = 0\<rparr>" "''/registry/pods''" 20 "\<lambda>_. None" "''x''"]
    tar_dump_absolute_keys [of "\<lparr>entries = [], doneDirs = [''/registry''], ttick = 0\<rparr>" "''registry''" 1000000 "\<lambda>_. None" "''x''"]
  by (simp add: HasPrefix_def Let_def)

text \<open>A service over the writer that serves a fixed store, for the examples.\<close>

definition exampleService :: "keyValue list \<Rightarrow> writer etcdService" where
  "exampleService store = \<lparr>kvGet = \<lambda>k. ret (filter (\<lambda>(k', _). k' = k) store),
     kvGetFrom = \<lambda>start n. ret (take n (filter (\<lambda>(k, _). start \<le> k) store)),
     kvPut = \<lambda>_ _. fail (Errorf ''read only''), kvCreate = \<lambda>_ _. ret False, memberList = ret [],
     memberAdd = \<lambda>_. ret (), memberUpdate = \<lambda>_ _. ret (), memberRemove = \<lambda>_. ret (),
     statusOf = \<lambda>_. ret \<lparr>StatusLeader = 0, StatusMemberId = 0\<rparr>, httpVersion = \<lambda>_. ret ''3.5.7''\<rparr>"

theorem copy_to_complete_witness:
  "let store = [(''/a'', ''1''), (''/b'', ''2'')]; run = CopyTo 3 (exampleService store) (streamPut (\<lambda>_. None)) \<lparr>written = '''', wtick = 0\<rparr>
   in fst run = Ret (Some 2) \<and> written (snd run) = ''a => 1'' @ [CHR 0x0A] @ ''b => 2'' @ [CHR 0x0A]"
proof -
  let ?store = "[(''/a'', ''1''), (''/b'', ''2'')]"
  let ?run = "CopyTo 3 (exampleService ?store) (streamPut (\<lambda>_. None))"
  have ret: "fst (?run \<lparr>written = '''', wtick = 0\<rparr>) = Ret (Some 2)" by code_simp
  have "wp ?run (\<lambda>r s'. (\<exists>x. written s' = written \<lparr>written = '''', wtick = 0\<rparr> @ x) \<and>
      (\<forall>a. r = Ret a \<longrightarrow> a = Some (length ?store) \<and> written s' = written \<lparr>written = '''', wtick = 0\<rparr> @ concat (map (\<lambda>(k, v). dumpLine k v) ?store)))
      \<lparr>written = '''', wtick = 0\<rparr>"
    by (rule copy_to_complete) (simp_all add: exampleService_def wp_ret)
  with ret show ?thesis
    by (simp add: wp_def Let_def split: prod.splits) (simp add: dumpLine_def TrimPrefix_def HasPrefix_def)
qed

end
