(* ===== verification/Restore.thy ===== *)
theory Restore
  imports ServerProperties EtcdClient
begin

text \<open>
  Restoring a backup (\<open>pkg/etcd/restore.go\<close>): a temporary etcd is started from the snapshot and its
  keys are copied into the running cluster. The world is the node together with the rest of the
  system, which holds the etcd clusters; \<open>restoreEnv\<close> has what lies outside the node's server: the file
  system of the temporary directory, the decompression, and the etcd services behind the clients.
\<close>

section \<open>The model\<close>

record 'w restoreWorld =
  node :: EtcdServer
  helpers :: "etcdProcess list"
  tempDirs :: "string list"
  outside :: 'w

record 'w restoreEnv =
  osTempDir :: string
  mkdirAllError :: "nat \<Rightarrow> goerr option"
  removeAllError :: "nat \<Rightarrow> bool"
  newCAError :: "nat \<Rightarrow> goerr option"
  downloadFault :: "nat \<Rightarrow> goerr option \<times> goerr option \<times> goerr option"
  expandGz :: "string \<Rightarrow> goerr + string"
  sourceService :: "string \<Rightarrow> 'w restoreWorld etcdService"
  targetService :: "string list \<Rightarrow> 'w restoreWorld etcdService"
  sourceExited :: "nat \<Rightarrow> goerr option"
  helperKillError :: "nat \<Rightarrow> goerr option"

definition onNode :: "(EtcdServer, 'a) prog \<Rightarrow> ('w restoreWorld, 'a) prog" where
  "onNode p = (\<lambda>w. case p (node w) of (r, s) \<Rightarrow> (r, w\<lparr>node := s\<rparr>))"

text \<open>A deferred call runs when the function returns, whatever the outcome.\<close>

definition deferred :: "('s, unit) prog \<Rightarrow> ('s, 'a) prog \<Rightarrow> ('s, 'a) prog" where
  "deferred d p = (\<lambda>s. case p s of (r, s') \<Rightarrow> (r, snd (d s')))"

definition restoreVersion :: "string \<Rightarrow> string" where
  "restoreVersion backupVersion = (let v = EtcdVersionForRestore backupVersion in if v \<noteq> '''' then v else backupVersion)"

definition restoreNode :: EtcdNode where
  "restoreNode = \<lparr>Name = ''restore'', PeerUrls = [''unixs://127.0.0.1:8003''], ClientUrls = [''unixs://127.0.0.1:8002''],
     QuarantinedClientUrls = [], TlsEnabled = False\<rparr>"

definition restoreProcess :: "string \<Rightarrow> string \<Rightarrow> string \<Rightarrow> etcdProcess" where
  "restoreProcess basedir binDir etcdVersion =
     \<lparr>BinDir = binDir, DataDir = pathJoin [basedir, ''data''], CurrentDir = basedir, PKIPeersDir = '''', PKIClientsDir = '''',
      etcdClientTLSConfig = False, EtcdVersion = etcdVersion, CreateNewCluster = True, ForceNewCluster = True,
      ProcCluster = \<lparr>DesiredClusterSize = 0, ClusterToken = ''data'', Nodes = [restoreNode]\<rparr>,
      MyNodeName = ''restore'', ProcQuarantined = False, DisableTLS = False, cmd = None, ListenAddress = ''127.0.0.1'',
      ListenMetricsURLs = [], IgnoreListenMetricsURLs = True\<rparr>"

definition runRestored :: "nodeos \<Rightarrow> string \<Rightarrow> etcdProcess \<Rightarrow> string \<Rightarrow> ('w restoreWorld, etcdProcess \<times> string) prog" where
  "runRestored os snapshotFile p snapshot =
     (case RestoreV3Snapshot os snapshotFile p of
        Some e \<Rightarrow> fail e
      | None \<Rightarrow> (case Start os p of
          Err e \<Rightarrow> fail (Wrapf ''error starting etcd'' e)
        | Crash m \<Rightarrow> crash m
        | Ret p' \<Rightarrow> seq (modify (\<lambda>w. w\<lparr>helpers := helpers w @ [p']\<rparr>)) (ret (p', snapshot))))"

definition restoreArchive :: "nodeos \<Rightarrow> 'w restoreEnv \<Rightarrow> string \<Rightarrow> string \<Rightarrow> etcdProcess \<Rightarrow> ('w restoreWorld, etcdProcess \<times> string) prog" where
  "restoreArchive os X basedir archive p =
     bind (onNode (onCerts (createKeypairs os True True (pathJoin [basedir, ''pki'']) restoreNode [] p))) (\<lambda>p'.
     bind (rewrap (Wrapf ''error expanding snapshot'') (lift (expandGz X archive))) (\<lambda>snapshot.
       runRestored os (pathJoin [basedir, ''download'', ''snapshot.db'']) p' snapshot))"

text \<open>
  \<open>RunEtcdFromBackup\<close> gives the process and, for reference, the contents of the expanded snapshot it was
  restored from.
\<close>

definition RunEtcdFromBackup ::
    "serverEnv \<Rightarrow> 'w restoreEnv \<Rightarrow> vpath \<Rightarrow> string \<Rightarrow> string \<Rightarrow> ('w restoreWorld, etcdProcess \<times> string) prog" where
  "RunEtcdFromBackup E X base backupName basedir =
     bind (onNode (onStore (LoadInfo (storeEnv E) (infoCodec E) base backupName))) (\<lambda>info.
     if HasPrefix (BackupVersion info) ''2.'' then fail (Errorf ''this version of etcd-manager does not support etcd v2'')
     else bind (onNode call) (\<lambda>n.
       bind (rewrap (Wrapf ''error restoring backup'')
              (onNode (onStore (DownloadBackup (storeEnv E) base (downloadFault X n) backupName)))) (\<lambda>archive.
       let os = osAt E n; etcdVersion = restoreVersion (BackupVersion info) in
       bind (lift (BindirForEtcdVersion os etcdVersion ''etcd'')) (\<lambda>binDir.
       seq (rewrap (Wrapf ''error building CA'') (onNode (orFail (newCAError X n))))
       (seq (rewrap (Wrapf ''error building CA'') (onNode (orFail (newCAError X (Suc n)))))
         (restoreArchive os X basedir archive (restoreProcess basedir binDir etcdVersion)))))))"

definition stopHelper :: "serverEnv \<Rightarrow> 'w restoreEnv \<Rightarrow> etcdProcess \<Rightarrow> ('w restoreWorld, unit) prog" where
  "stopHelper E X p = bind (onNode call) (\<lambda>n.
     case Stop (helperKillError X n) (sourceExited X n \<noteq> None) p of
       Some _ \<Rightarrow> ret ()
     | None \<Rightarrow> modify (\<lambda>w. w\<lparr>helpers := removeAll p (helpers w)\<rparr>))"

text \<open>Waiting for the temporary etcd to answer: at most sixty attempts, then copying is tried anyway.\<close>

definition awaitSource :: "'w restoreEnv \<Rightarrow> 'w restoreWorld etcdService \<Rightarrow> ('w restoreWorld, unit) prog" where
  "awaitSource X svc =
     bind (forReturn [0..<60] (\<lambda>i :: nat.
         bind (attempt (Get svc ''/'')) (\<lambda>r. case r of
             Inr _ \<Rightarrow> ret (Some ())
           | Inl err \<Rightarrow> bind (onNode call) (\<lambda>n. case sourceExited X n of
               Some e \<Rightarrow> fail (Wrapf ''source etcd process exited'' e)
             | None \<Rightarrow> ret None))))
       (\<lambda>_. ret ())"

definition copyEtcd :: "nat \<Rightarrow> serverEnv \<Rightarrow> 'w restoreEnv \<Rightarrow> etcdProcess \<Rightarrow> string \<Rightarrow> (string \<Rightarrow> string \<Rightarrow> ('w restoreWorld, unit) prog) \<Rightarrow>
    ('w restoreWorld, nat option) prog" where
  "copyEtcd fuel E X source snapshot dest =
     bind (onNode call) (\<lambda>n.
     bind (rewrap (Wrapf ''error building etcd client'') (lift (fst (NewClient (osAt E n) source)))) (\<lambda>_.
       seq (awaitSource X (sourceService X snapshot))
        (rewrap (Wrapf ''error copying keys'') (CopyTo fuel (sourceService X snapshot) dest))))"

definition restoreInto :: "nat \<Rightarrow> serverEnv \<Rightarrow> 'w restoreEnv \<Rightarrow> vpath \<Rightarrow> string \<Rightarrow> string \<Rightarrow> etcdProcess \<Rightarrow> ('w restoreWorld, nat option) prog" where
  "restoreInto fuel E X base backupName tempDir p =
     bind (RunEtcdFromBackup E X base backupName tempDir) (\<lambda>(source, snapshot).
       deferred (stopHelper E X source)
        (bind (onNode call) (\<lambda>m.
         case NewClient (osAt E m) p of (client, p') \<Rightarrow>
           seq (modify (\<lambda>w. w\<lparr>node := (node w)\<lparr>process := Some p'\<rparr>\<rparr>))
            (bind (rewrap (Wrapf ''error building etcd client for target'') (lift client)) (\<lambda>urls.
              copyEtcd fuel E X source snapshot (Put (targetService X urls)))))))"

definition removeTemp :: "'w restoreEnv \<Rightarrow> string \<Rightarrow> ('w restoreWorld, unit) prog" where
  "removeTemp X tempDir = bind (onNode call) (\<lambda>m.
     if removeAllError X m then ret () else modify (\<lambda>w. w\<lparr>tempDirs := removeAll tempDir (tempDirs w)\<rparr>))"

definition DoRestore :: "nat \<Rightarrow> serverEnv \<Rightarrow> 'w restoreEnv \<Rightarrow> DoRestoreRequest \<Rightarrow> ('w restoreWorld, nat option) prog" where
  "DoRestore fuel E X r =
     seq (onNode (validateHeader (RestoreHeader r)))
     (bind (gets (\<lambda>w. process (node w))) (\<lambda>po. case po of
        None \<Rightarrow> fail (Errorf ''etcd not running'')
      | Some p \<Rightarrow>
          if RestoreStorage r = '''' then fail (Errorf ''request Storage is required'')
          else if BackupName r = '''' then fail (Errorf ''request BackupName is required'')
          else bind (lift (buildVfsPath E (RestoreStorage r))) (\<lambda>base.
            bind (onNode call) (\<lambda>n.
            let tempDir = pathJoin [osTempDir X, ''restore-etcd-'' @ Itoa (unixNanoOfTime (nowAt E n))] in
            seq (rewrap (Wrapf ''error creating tempdir'') (onNode (orFail (mkdirAllError X n))))
            (seq (modify (\<lambda>w. w\<lparr>tempDirs := tempDirs w @ [tempDir]\<rparr>))
              (deferred (removeTemp X tempDir) (restoreInto fuel E X base (BackupName r) tempDir p)))))))"

section \<open>What restoring changes on the node\<close>

lemma wp_onNode [wp_simps]: "wp (onNode p) Q w = wp p (\<lambda>r s. Q r (w\<lparr>node := s\<rparr>)) (node w)"
  by (simp add: onNode_def wp_def split: prod.split)

lemma wp_deferred: "wp (deferred d p) Q w = wp p (\<lambda>r w'. wp d (\<lambda>_. Q r) w') w"
  by (simp add: deferred_def wp_def split: prod.split)

lemma LoadInfo_files: "wp (LoadInfo V J base name) (\<lambda>r v'. files v' = files v) v"
  by (simp add: LoadInfo_def vfs_defs wp_simps wp_vfsCall split: option.split sum.split)

lemma DownloadBackup_spec: "wp (DownloadBackup V base faults name) (\<lambda>r v'. files v' = files v \<and>
    (\<forall>c. r = Ret c \<longrightarrow> map_of (files v) (base @ [name, DataFilename]) = Some c)) v"
  by (cases faults) (simp add: DownloadBackup_def vfs_defs wp_simps wp_vfsCall split: option.split)


text \<open>\<open>untouched s s'\<close>: the server keeps its state, its process and its files; only counters and certificates may differ.\<close>

definition untouched :: "EtcdServer \<Rightarrow> EtcdServer \<Rightarrow> bool" where
  "untouched s s' \<longleftrightarrow> sameNode s s' \<and> state s' = state s \<and> prepared s' = prepared s \<and> process s' = process s \<and>
     stateFile s' = stateFile s \<and> files (backupFiles s') = files (backupFiles s)"

lemma untouched_simps [simp]:
  "untouched s s" "untouched s (t\<lparr>calls := n\<rparr>) = untouched s t" "untouched s (t\<lparr>certRequests := cs\<rparr>) = untouched s t"
  "files v = files (backupFiles t) \<Longrightarrow> untouched s (t\<lparr>backupFiles := v\<rparr>) = untouched s t"
  by (simp_all add: untouched_def) (simp add: sameNode_def)

lemma untouched_trans: "untouched s t \<Longrightarrow> untouched t u \<Longrightarrow> untouched s u"
  by (simp add: untouched_def sameNode_def)

lemma wp_onCertsI: "(\<And>r cs. Q r (s\<lparr>certRequests := cs\<rparr>)) \<Longrightarrow> wp (onCerts p) Q s"
  unfolding wp_onCerts by (rule wpI)

lemma wp_loadI: "(\<And>r v. files v = files (backupFiles s) \<Longrightarrow> Q r (s\<lparr>backupFiles := v\<rparr>)) \<Longrightarrow> wp (onStore (LoadInfo V J base name)) Q s"
  unfolding wp_onStore by (rule wp_mono [OF LoadInfo_files])

lemma wp_downloadI:
  "(\<And>r v. files v = files (backupFiles s) \<Longrightarrow> (\<And>c. r = Ret c \<Longrightarrow> map_of (files (backupFiles s)) (base @ [name, DataFilename]) = Some c) \<Longrightarrow>
      Q r (s\<lparr>backupFiles := v\<rparr>)) \<Longrightarrow> wp (onStore (DownloadBackup V base faults name)) Q s"
  unfolding wp_onStore by (rule wp_mono [OF DownloadBackup_spec]) blast

text \<open>
  What a run of \<open>RunEtcdFromBackup\<close> did: the node is untouched, and a process that was started is among the
  helpers and was restored from the expanded contents of the backup, with a version that suits it.
\<close>

definition ranFrom :: "serverEnv \<Rightarrow> 'w restoreEnv \<Rightarrow> vpath \<Rightarrow> string \<Rightarrow> 'w restoreWorld \<Rightarrow> (etcdProcess \<times> string) outcome \<Rightarrow> 'w restoreWorld \<Rightarrow> bool" where
  "ranFrom E X base name w r w' \<longleftrightarrow> untouched (node w) (node w') \<and> outside w' = outside w \<and> tempDirs w' = tempDirs w \<and>
     (case r of
        Ret (p, snapshot) \<Rightarrow> helpers w' = helpers w @ [p] \<and>
          (\<exists>archive. map_of (files (backupFiles (node w))) (base @ [name, DataFilename]) = Some archive \<and> expandGz X archive = Inr snapshot)
      | _ \<Rightarrow> helpers w' = helpers w)"

lemma ranFrom_failed [simp]:
  "ranFrom E X base name w (Err e) w' \<longleftrightarrow> untouched (node w) (node w') \<and> outside w' = outside w \<and> tempDirs w' = tempDirs w \<and> helpers w' = helpers w"
  "ranFrom E X base name w (Crash m) w' \<longleftrightarrow> untouched (node w) (node w') \<and> outside w' = outside w \<and> tempDirs w' = tempDirs w \<and> helpers w' = helpers w"
  by (simp_all add: ranFrom_def)

lemma runRestored_spec:
  assumes "untouched (node w) (node t)" "outside t = outside w" "tempDirs t = tempDirs w" "helpers t = helpers w"
    and "map_of (files (backupFiles (node w))) (base @ [name, DataFilename]) = Some archive" "expandGz X archive = Inr snapshot"
  shows "wp (runRestored os f p snapshot) (ranFrom E X base name w) t"
  using assms by (simp add: runRestored_def wp_simps ranFrom_def [of _ _ _ _ _ "Ret _"] split: option.split outcome.split)

lemma restoreArchive_spec:
  assumes "untouched (node w) (node t)" "outside t = outside w" "tempDirs t = tempDirs w" "helpers t = helpers w"
    and "map_of (files (backupFiles (node w))) (base @ [name, DataFilename]) = Some archive"
  shows "wp (restoreArchive os X basedir archive p) (ranFrom E X base name w) t"
  unfolding restoreArchive_def wp_bind wp_onNode
  using assms by (intro wp_onCertsI) (auto simp: wp_bind wp_rewrap wp_lift intro!: runRestored_spec split: outcome.split sum.split)

lemma RunEtcdFromBackup_spec: "wp (RunEtcdFromBackup E X base name basedir) (ranFrom E X base name w) w"
  unfolding RunEtcdFromBackup_def wp_bind wp_onNode
proof (rule wp_loadI, goal_cases)
  case (1 r v)
  then show ?case
    by (cases r) (auto simp: wp_bind wp_if wp_fail wp_onNode wp_call wp_rewrap Let_def wp_lift wp_seq wp_orFail
      split: outcome.split option.split sum.split intro!: wp_downloadI restoreArchive_spec)
qed

text \<open>The client URLs of a process without a working directory are never rewritten.\<close>

lemma absoluteSocket_noDir: "absoluteSocket '''' u = Inr v \<Longrightarrow> v = u"
  by (auto simp: absoluteSocket_def Let_def split: if_splits)

lemma absoluteSockets_noDir: "snd (absoluteSockets '''' us) = us"
  by (induction us) (auto split: sum.split prod.split dest: absoluteSocket_noDir)

lemma updateLast_same: "(\<And>x. x \<in> set xs \<Longrightarrow> P x \<Longrightarrow> x = last (filter P xs) \<Longrightarrow> f x = x) \<Longrightarrow> updateLast P f xs = xs"
proof (induction xs)
  case (Cons x xs)
  show ?case
  proof (cases "P x \<and> \<not> list_ex P xs")
    case True
    then have "filter P xs = []" by (auto simp: list_ex_iff filter_empty_conv)
    then show ?thesis using True Cons.prems [of x] by simp
  next
    case False
    have "updateLast P f xs = xs"
    proof (rule Cons.IH)
      fix y assume y: "y \<in> set xs" "P y" "y = last (filter P xs)"
      then have "filter P xs \<noteq> []" by (auto simp: filter_empty_conv)
      then show "f y = y" using y Cons.prems [of y] by (cases "P x") simp_all
    qed
    with False show ?thesis by auto
  qed
qed simp

lemma fold_last: "fold (\<lambda>x acc. if P x then Some x else acc) xs a = (if filter P xs = [] then a else Some (last (filter P xs)))"
  by (induction xs arbitrary: a) simp_all

lemma NewClient_noDir: "CurrentDir p = '''' \<Longrightarrow> snd (NewClient os p) = p"
proof (cases "findMyNode p")
  case (Some me)
  assume dir: "CurrentDir p = ''''"
  obtain r where r: "absoluteSockets '''' (activeClientUrls p me) = (r, activeClientUrls p me)"
    using absoluteSockets_noDir [of "activeClientUrls p me"] by (metis prod.collapse)
  have "updateLast (\<lambda>n. Name n = MyNodeName p) (setActiveClientUrls p (activeClientUrls p me)) (Nodes (ProcCluster p)) = Nodes (ProcCluster p)"
    using Some by (intro updateLast_same) (auto simp: findMyNode_def fold_last setActiveClientUrls_def activeClientUrls_def split: if_splits)
  then show ?thesis using dir Some r by (simp add: NewClient_def Let_def)
qed (simp add: NewClient_def)


section \<open>Copying from the backup\<close>

text \<open>
  What is assumed of the etcd services: a put to the target appends to the log of the target's writes,
  reads of the source serve the keys of the snapshot, and neither touches the node, its helpers or
  its directories. \<open>quiet\<close> relates the worlds before and after a step that writes nothing to the target.
\<close>

definition sameHost :: "'w restoreWorld \<Rightarrow> 'w restoreWorld \<Rightarrow> bool" where
  "sameHost w w' \<longleftrightarrow> untouched (node w) (node w') \<and> helpers w' = helpers w \<and> tempDirs w' = tempDirs w"

definition quiet :: "('w \<Rightarrow> keyValue list) \<Rightarrow> 'w restoreWorld \<Rightarrow> 'w restoreWorld \<Rightarrow> bool" where
  "quiet log w w' \<longleftrightarrow> sameHost w w' \<and> log (outside w') = log (outside w)"

interpretation quiet: state_preorder "quiet log" for log
  by unfold_locales (auto simp: quiet_def sameHost_def dest: untouched_trans)

interpretation same_host: state_preorder sameHost
  by unfold_locales (auto simp: sameHost_def dest: untouched_trans)

definition etcdBehaves :: "'w restoreEnv \<Rightarrow> ('w \<Rightarrow> keyValue list) \<Rightarrow> (string \<Rightarrow> keyValue list) \<Rightarrow> bool" where
  "etcdBehaves X log keysIn \<longleftrightarrow>
     (\<forall>urls k v w. wp (kvPut (targetService X urls) k v) (\<lambda>r w'. sameHost w w' \<and> (\<exists>x. log (outside w') = log (outside w) @ x) \<and>
        (\<forall>u. r = Ret u \<longrightarrow> log (outside w') = log (outside w) @ [(k, v)])) w) \<and>
     (\<forall>snapshot start n w. wp (kvGetFrom (sourceService X snapshot) start n) (\<lambda>r w'. quiet log w w' \<and>
        (\<forall>kvs. r = Ret kvs \<longrightarrow> kvs = rangeFrom (keysIn snapshot) start n)) w) \<and>
     (\<forall>snapshot k w. wp (kvGet (sourceService X snapshot) k) (\<lambda>_ w'. quiet log w w') w) \<and>
     (\<forall>snapshot. keysOK (keysIn snapshot))"

lemma etcdBehavesD:
  assumes "etcdBehaves X log keysIn"
  shows "wp (kvPut (targetService X urls) k v) (\<lambda>r w'. sameHost w w' \<and> (\<exists>x. log (outside w') = log (outside w) @ x) \<and>
      (\<forall>u. r = Ret u \<longrightarrow> log (outside w') = log (outside w) @ [(k, v)])) w"
    and "wp (kvGetFrom (sourceService X snapshot) start n) (\<lambda>r w'. quiet log w w' \<and>
      (\<forall>kvs. r = Ret kvs \<longrightarrow> kvs = rangeFrom (keysIn snapshot) start n)) w"
    and "wp (kvGet (sourceService X snapshot) k) (\<lambda>_ w'. quiet log w w') w"
    and "keysOK (keysIn snapshot)"
  using assms unfolding etcdBehaves_def by blast+

lemma onNode_call_quiet: "keeps (quiet log) (onNode call)"
  by (simp add: keeps_def wp_onNode wp_call quiet_def sameHost_def)

lemma awaitSource_quiet: "etcdBehaves X log keysIn \<Longrightarrow> keeps (quiet log) (awaitSource X (sourceService X snapshot))"
proof -
  assume "etcdBehaves X log keysIn"
  then have "keeps (quiet log) (kvGet (sourceService X snapshot) k)" for k
    by (auto simp: keeps_def intro: etcdBehavesD(3))
  then show ?thesis
    unfolding awaitSource_def Get_def
    by (intro quiet.keeps_bind quiet.keeps_forReturn quiet.keeps_attempt quiet.keeps_pure)
       (auto intro!: quiet.keeps_bind quiet.keeps_pure onNode_call_quiet split: sum.split option.split)
qed

lemma copy_sameHost:
  assumes "etcdBehaves X log keysIn"
  shows "keeps sameHost (copyLoop fuel (kvGetFrom (sourceService X snapshot)) (Put (targetService X urls)) lastKey n)"
proof -
  have sink: "keeps sameHost (Put (targetService X urls) k v)" for k v
    unfolding keeps_def Put_def by (intro allI, rule wp_mono [OF etcdBehavesD(1) [OF assms]]) blast
  have source: "keeps sameHost (kvGetFrom (sourceService X snapshot) start m)" for start m
    unfolding keeps_def by (intro allI, rule wp_mono [OF etcdBehavesD(2) [OF assms]]) (simp add: quiet_def)
  have batch: "keeps sameHost (copyBatch (Put (targetService X urls)) kvs acc)" for kvs acc
    by (induction "Put (targetService X urls)" kvs acc rule: copyBatch.induct)
       (auto intro!: same_host.keeps_pure same_host.keeps_seq same_host.keeps_rewrap sink)
  show ?thesis
    by (induction fuel arbitrary: lastKey n)
       (auto intro!: same_host.keeps_pure same_host.keeps_bind source batch)
qed


lemma copy_logs:
  assumes X: "etcdBehaves X log keysIn" and fuel: "length (keysIn snapshot) < fuel"
  shows "wp (CopyTo fuel (sourceService X snapshot) (Put (targetService X urls))) (\<lambda>r w'. \<forall>a. r = Ret a \<longrightarrow>
      a = Some (length (keysIn snapshot)) \<and> log (outside w') = log (outside w) @ keysIn snapshot) w"
proof -
  have sink: "node_sink (Put (targetService X urls)) (\<lambda>w. log (outside w)) (\<lambda>k v. [(k, v)])"
    unfolding Put_def by unfold_locales (rule wp_mono [OF etcdBehavesD(1) [OF X]], blast)
  have source: "wp (kvGetFrom (sourceService X snapshot) start n) (\<lambda>r w'. log (outside w') = log (outside w) \<and>
      (\<forall>kvs. r = Ret kvs \<longrightarrow> kvs = rangeFrom (keysIn snapshot) start n)) w" for start n w
    by (rule wp_mono [OF etcdBehavesD(2) [OF X]]) (simp add: quiet_def)
  have "rendered (\<lambda>k v. [(k, v)]) kvs = kvs" for kvs :: "keyValue list" by (induction kvs) auto
  then show ?thesis
    using node_sink.copyLoop_spec [OF sink source etcdBehavesD(4) [OF X], of "[]" "keysIn snapshot" fuel w] fuel
    by (simp add: CopyTo_def lastOf_def) (rule wp_mono, assumption, simp)
qed

text \<open>The outcome of a restore: whatever happens the node is untouched; a success has written all keys.\<close>

definition restored :: "('w \<Rightarrow> keyValue list) \<Rightarrow> (string \<Rightarrow> keyValue list) \<Rightarrow> nat \<Rightarrow> 'w restoreWorld \<Rightarrow> string \<Rightarrow> nat option outcome \<Rightarrow> 'w restoreWorld \<Rightarrow> bool" where
  "restored log keysIn fuel w snapshot r w' \<longleftrightarrow> sameHost w w' \<and> (\<forall>a. r = Ret a \<longrightarrow> length (keysIn snapshot) < fuel \<longrightarrow>
     a = Some (length (keysIn snapshot)) \<and> log (outside w') = log (outside w) @ keysIn snapshot)"

lemma restored_failed [simp]: "restored log keysIn fuel w snapshot (Err e) w' = sameHost w w'" "restored log keysIn fuel w snapshot (Crash m) w' = sameHost w w'"
  by (simp_all add: restored_def)

lemma CopyTo_restored:
  assumes X: "etcdBehaves X log keysIn" and "quiet log w t"
  shows "wp (CopyTo fuel (sourceService X snapshot) (Put (targetService X urls))) (restored log keysIn fuel w snapshot) t"
proof -
  have host: "wp (CopyTo fuel (sourceService X snapshot) (Put (targetService X urls))) (\<lambda>_. sameHost t) t"
    using copy_sameHost [OF X, of fuel snapshot urls "''''" 0] by (simp add: keeps_def CopyTo_def)
  have "wp (CopyTo fuel (sourceService X snapshot) (Put (targetService X urls))) (\<lambda>r w'. \<forall>a. r = Ret a \<longrightarrow> length (keysIn snapshot) < fuel \<longrightarrow>
     a = Some (length (keysIn snapshot)) \<and> log (outside w') = log (outside t) @ keysIn snapshot) t"
    using copy_logs [OF X, of snapshot fuel urls t] by (cases "length (keysIn snapshot) < fuel") (auto simp: wp_def split: prod.split)
  from wp_conj [OF host this] show ?thesis
    by (rule wp_mono) (use assms(2) in \<open>auto simp: restored_def quiet_def intro: same_host.kept_trans\<close>)
qed

lemma copyEtcd_restored:
  assumes X: "etcdBehaves X log keysIn" and w: "quiet log w t"
  shows "wp (copyEtcd fuel E X source snapshot (Put (targetService X urls))) (restored log keysIn fuel w snapshot) t"
proof -
  have call: "quiet log w u'" if "quiet log w u" "onNode call u = (r, u')" for u r u'
    using keepsD [OF onNode_call_quiet that(2)] that(1) quiet.kept_trans by blast
  have await: "quiet log w u'" if "quiet log w u" "awaitSource X (sourceService X snapshot) u = (r, u')" for u r u'
    using keepsD [OF awaitSource_quiet [OF X] that(2)] that(1) quiet.kept_trans by blast
  have copy: "wp (seq (awaitSource X (sourceService X snapshot))
      (rewrap (Wrapf m) (CopyTo fuel (sourceService X snapshot) (Put (targetService X urls))))) (restored log keysIn fuel w snapshot) u"
    if u: "quiet log w u" for u m
    unfolding wp_seq
  proof (rule wpI, goal_cases)
    case (1 r u')
    have q: "quiet log w u'" by (rule await [OF u 1])
    then show ?case
      by (cases r) (auto simp: wp_rewrap quiet_def split: outcome.split intro!: wp_mono [OF CopyTo_restored [OF X q]])
  qed
  show ?thesis
    unfolding copyEtcd_def wp_bind
  proof (rule wpI, goal_cases)
    case (1 r u)
    have q: "quiet log w u" by (rule call [OF w 1])
    then show ?case by (cases r) (auto simp: wp_rewrap wp_lift wp_bind quiet_def intro!: copy split: sum.split)
  qed
qed


section \<open>The restore as a whole\<close>

text \<open>
  \<open>restoreDone\<close>: what \<open>DoRestore\<close> guarantees. The server's state, its etcd and the stored backups are as before
  whatever happens. If it succeeds, the request was valid and named a stored backup, and the keys written to the
  cluster are those of the expanded backup, all of them and in order.
\<close>

definition restoreDone :: "serverEnv \<Rightarrow> 'w restoreEnv \<Rightarrow> ('w \<Rightarrow> keyValue list) \<Rightarrow> (string \<Rightarrow> keyValue list) \<Rightarrow> nat \<Rightarrow> DoRestoreRequest \<Rightarrow>
    'w restoreWorld \<Rightarrow> nat option outcome \<Rightarrow> 'w restoreWorld \<Rightarrow> bool" where
  "restoreDone E X log keysIn fuel r w x w' \<longleftrightarrow> untouched (node w) (node w') \<and> (\<forall>a. x = Ret a \<longrightarrow> validFor (node w) (RestoreHeader r) \<and>
     (\<exists>base archive snapshot. buildVfsPath E (RestoreStorage r) = Inr base \<and>
        map_of (files (backupFiles (node w))) (base @ [BackupName r, DataFilename]) = Some archive \<and> expandGz X archive = Inr snapshot \<and>
        (length (keysIn snapshot) < fuel \<longrightarrow> a = Some (length (keysIn snapshot)) \<and> log (outside w') = log (outside w) @ keysIn snapshot)))"

lemma restoreDone_failed [simp]:
  "restoreDone E X log keysIn fuel r w (Err e) w' = untouched (node w) (node w')"
  "restoreDone E X log keysIn fuel r w (Crash m) w' = untouched (node w) (node w')"
  by (simp_all add: restoreDone_def)

lemma restoreDone_cong: "untouched (node w1) (node w2) \<Longrightarrow> outside w2 = outside w1 \<Longrightarrow>
    restoreDone E X log keysIn fuel r w x w1 \<Longrightarrow> restoreDone E X log keysIn fuel r w x w2"
  by (auto simp: restoreDone_def dest: untouched_trans)

lemma stopHelper_keeps: "wp (stopHelper E X p) (\<lambda>_ w'. untouched (node w) (node w') \<and> outside w' = outside w) w"
  by (simp add: stopHelper_def wp_simps split: option.split)

lemma removeTemp_keeps: "wp (removeTemp X tempDir) (\<lambda>_ w'. untouched (node w) (node w') \<and> outside w' = outside w) w"
  by (simp add: removeTemp_def wp_simps)

lemma wp_deferredI:
  assumes "wp p (restoreDone E X log keysIn fuel r w) t" and "\<And>u. wp d (\<lambda>_ w'. untouched (node u) (node w') \<and> outside w' = outside u) u"
  shows "wp (deferred d p) (restoreDone E X log keysIn fuel r w) t"
  unfolding wp_deferred
  by (rule wp_mono [OF assms(1)], rule wp_mono [OF assms(2)]) (blast intro: restoreDone_cong)

lemma copyPhase_spec:
  assumes X: "etcdBehaves X log keysIn" and p: "process (node w) = Some p" "CurrentDir p = ''''"
    and valid: "validFor (node w) (RestoreHeader r)" "buildVfsPath E (RestoreStorage r) = Inr base"
    and archive: "map_of (files (backupFiles (node w))) (base @ [BackupName r, DataFilename]) = Some archive" "expandGz X archive = Inr snapshot"
    and t: "untouched (node w) (node t)" "outside t = outside w"
  shows "wp (bind (onNode call) (\<lambda>m. case NewClient (osAt E m) p of (client, p') \<Rightarrow>
       seq (modify (\<lambda>w. w\<lparr>node := (node w)\<lparr>process := Some p'\<rparr>\<rparr>))
        (bind (rewrap (Wrapf ''error building etcd client for target'') (lift client)) (\<lambda>urls.
          copyEtcd fuel E X source snapshot (Put (targetService X urls)))))) (restoreDone E X log keysIn fuel r w) t"
proof -
  have restored_done: "restoreDone E X log keysIn fuel r w x w'" if "restored log keysIn fuel u snapshot x w'" "untouched (node w) (node u)" "outside u = outside w" for u x w'
    using that valid archive by (auto simp: restored_def restoreDone_def sameHost_def dest: untouched_trans)
  have copy: "wp (copyEtcd fuel E X source snapshot (Put (targetService X urls))) (restoreDone E X log keysIn fuel r w) u"
    if "untouched (node w) (node u)" "outside u = outside w" for u urls
    by (rule wp_mono [OF copyEtcd_restored [OF X quiet.kept_refl]]) (rule restored_done [OF _ that])
  have client: "p' = p" if "NewClient (osAt E m) p = (c, p')" for m c p'
    using NewClient_noDir [OF p(2), of "osAt E m"] that by simp
  have "untouched (node w) ((node t)\<lparr>calls := n, process := Some p\<rparr>)" for n
    using t(1) p(1) by (simp add: untouched_def sameNode_def)
  then show ?thesis using t
    by (auto simp: wp_bind wp_onNode wp_call wp_seq wp_modify wp_rewrap wp_lift intro!: copy split: sum.split prod.split dest!: client)
qed


lemma restoreInto_spec:
  assumes X: "etcdBehaves X log keysIn" and p: "process (node w) = Some p" "CurrentDir p = ''''"
    and valid: "validFor (node w) (RestoreHeader r)" "buildVfsPath E (RestoreStorage r) = Inr base"
    and t: "untouched (node w) (node t)" "outside t = outside w"
  shows "wp (restoreInto fuel E X base (BackupName r) tempDir p) (restoreDone E X log keysIn fuel r w) t"
  unfolding restoreInto_def wp_bind [of "RunEtcdFromBackup _ _ _ _ _"]
proof (rule wp_mono [OF RunEtcdFromBackup_spec], goal_cases)
  case (1 x u)
  then have u: "untouched (node w) (node u)" "outside u = outside w"
    using t by (auto simp: ranFrom_def dest: untouched_trans)
  show ?case
  proof (cases x)
    case (Ret y)
    obtain source snapshot where y: "y = (source, snapshot)" by (cases y)
    obtain archive where "map_of (files (backupFiles (node w))) (base @ [BackupName r, DataFilename]) = Some archive" "expandGz X archive = Inr snapshot"
      using 1 t(1) by (auto simp: ranFrom_def Ret y untouched_def)
    then show ?thesis
      unfolding Ret y outcome.case prod.case
      by (intro wp_deferredI stopHelper_keeps copyPhase_spec [OF X p valid _ _ u])
  qed (use u in simp_all)
qed

lemma DoRestore_spec:
  assumes X: "etcdBehaves X log keysIn" and node: "consistent (node w)"
  shows "wp (DoRestore fuel E X r) (restoreDone E X log keysIn fuel r w) w"
proof -
  have "CurrentDir p = ''''" if "process (node w) = Some p" for p
    using node that by (auto simp: consistent_def runs_def)
  note into = restoreInto_spec [OF X _ this]
  show ?thesis
    unfolding DoRestore_def wp_seq wp_onNode
    by (rule wp_validateHeader)
       (auto simp: wp_bind wp_gets wp_fail wp_if wp_lift wp_onNode wp_call wp_seq wp_modify wp_rewrap wp_orFail Let_def
         intro!: wp_deferredI removeTemp_keeps into split: option.split sum.split)
qed

section \<open>An example restore\<close>

text \<open>A cluster whose world is the list of the writes it received, and a backup with two keys.\<close>

definition exampleSource :: "keyValue list \<Rightarrow> keyValue list restoreWorld etcdService" where
  "exampleSource store = \<lparr>kvGet = \<lambda>k. ret (filter (\<lambda>(k', _). k' = k) store),
     kvGetFrom = \<lambda>start n. ret (rangeFrom store start n),
     kvPut = \<lambda>k v. modify (\<lambda>w. w\<lparr>outside := outside w @ [(k, v)]\<rparr>), kvCreate = \<lambda>_ _. ret False, memberList = ret [],
     memberAdd = \<lambda>_. ret (), memberUpdate = \<lambda>_ _. ret (), memberRemove = \<lambda>_. ret (),
     statusOf = \<lambda>_. ret \<lparr>StatusLeader = 0, StatusMemberId = 0\<rparr>, httpVersion = \<lambda>_. ret ''3.5.7''\<rparr>"

definition exampleKeys :: "string \<Rightarrow> keyValue list" where
  "exampleKeys snapshot = (if snapshot = ''db'' then [(''/a'', ''1''), (''/b'', ''2'')] else [])"

definition exampleRestoreEnv :: "keyValue list restoreEnv" where
  "exampleRestoreEnv = \<lparr>osTempDir = ''/tmp'', mkdirAllError = \<lambda>_. None, removeAllError = \<lambda>_. False, newCAError = \<lambda>_. None,
     downloadFault = \<lambda>_. (None, None, None), expandGz = \<lambda>gz. if gz = ''db.gz'' then Inr ''db'' else Inl (Errorf ''unexpected EOF''),
     sourceService = \<lambda>snapshot. exampleSource (exampleKeys snapshot), targetService = \<lambda>_. exampleSource [],
     sourceExited = \<lambda>_. None, helperKillError = \<lambda>_. None\<rparr>"

definition exampleRestoreOs :: nodeos where
  "exampleRestoreOs = exampleOs\<lparr>urlParse := \<lambda>s. if HasPrefix s ''unixs://'' then
      (case Cut (CHR '':'') (TrimPrefix s ''unixs://'') of
         (h, port) \<Rightarrow> Some \<lparr>urlScheme = ''unixs'', urlHostname = h,
            urlPort = (case port of None \<Rightarrow> '''' | Some q \<Rightarrow> q), urlWithHost = (\<lambda>hp. ''unixs://'' @ hp)\<rparr>)
      else urlParse exampleOs s\<rparr>"

definition exampleServerEnv :: serverEnv where
  "exampleServerEnv = \<lparr>osAt = \<lambda>_. exampleRestoreOs, nowAt = \<lambda>_. 62135596800 * Second, marshal = \<lambda>_. Inr '''', unmarshal = \<lambda>_. Inl (Errorf ''''),
     readError = \<lambda>_. None, writeError = \<lambda>_. None, tornFile = \<lambda>_ _ _. None, killError = \<lambda>_. None, processExited = \<lambda>_. False,
     renameError = \<lambda>_. False, hostsError = \<lambda>_. None, importExisting = \<lambda>_. Inr None, buildVfsPath = \<lambda>p. Inr [p],
     mkdirTempError = \<lambda>_. None, snapshotSave = \<lambda>_ _. Inr ''snapshot'', storeEnv = exampleVfs\<lparr>vfsFault := \<lambda>_. None\<rparr>, infoCodec = exampleCodec\<rparr>"

definition exampleRunning :: EtcdServer where
  "exampleRunning =
     (let cluster = \<lparr>DesiredClusterSize = 0, ClusterToken = ''t'', Nodes = [exampleNode]\<rparr>;
          st = \<lparr>NewCluster = False, Cluster = Some cluster, StateVersion = ''3.5.7'', Quarantined = False\<rparr>;
          p = (newProcess exampleEtcd st cluster exampleNode)\<lparr>EtcdVersion := ''3.5.7'', cmd := Some \<lparr>cmdPath = ''/opt/etcd-v3.5.7/etcd'', cmdArgs = [], cmdDir = '''', cmdEnv = []\<rparr>\<rparr>
      in exampleEtcd\<lparr>state := Some st, process := Some p,
           backupFiles := \<lparr>files = [([''b'', ''n1'', MetaFilename], ''3.5.7''), ([''b'', ''n1'', DataFilename], ''db.gz'')], vtick = 0\<rparr>\<rparr>)"

definition exampleRestore :: DoRestoreRequest where
  "exampleRestore = \<lparr>RestoreHeader = Some \<lparr>HeaderToken = ''lead'', HeaderCluster = ''c''\<rparr>, RestoreStorage = ''b'', BackupName = ''n1''\<rparr>"

definition exampleWorld :: "keyValue list restoreWorld" where
  "exampleWorld = \<lparr>node = exampleRunning, helpers = [], tempDirs = [], outside = []\<rparr>"

lemma exampleRunning_consistent: "consistent exampleRunning"
  by (simp add: consistent_def runs_def exampleRunning_def exampleEtcd_def newProcess_def Let_def)

lemma exampleRestore_returns: "fst (DoRestore 3 exampleServerEnv exampleRestoreEnv exampleRestore exampleWorld) = Ret (Some 2)"
  by code_simp

lemma exampleRestore_behaves: "etcdBehaves exampleRestoreEnv (\<lambda>l. l) exampleKeys"
  by (auto simp: etcdBehaves_def exampleRestoreEnv_def exampleSource_def wp_ret wp_modify sameHost_def quiet_def keysOK_def exampleKeys_def)

section \<open>Properties\<close>



end
