(* ===== verification/Hosts.thy ===== *)
theory Hosts
  imports Backup
begin

text \<open>
  The managed block of \<open>/etc/hosts\<close> (\<open>pkg/hosts/hosts.go\<close>): the provider's two maps, the text of the file
  with the block replaced, and the write that is verified by reading the file again because other
  processes write it too. The order in which Go ranges over a map is an argument of the operations.
  Slices are values here: sorting the hosts of an address in place is visible only to this code, which sorts them again.
\<close>

section \<open>The text of the file\<close>

fun ReplaceAll :: "string \<Rightarrow> string \<Rightarrow> string \<Rightarrow> string" where
  "ReplaceAll old new [] = []"
| "ReplaceAll old new (c # s) =
     (if HasPrefix (c # s) old then new @ ReplaceAll old new (drop (length old - 1) s) else c # ReplaceAll old new s)"

definition guardBegin :: "string \<Rightarrow> string" where
  "guardBegin key = ReplaceAll ''__key__'' key ''# Begin host entries managed by __key__ - do not edit''"

definition guardEnd :: "string \<Rightarrow> string" where
  "guardEnd key = ReplaceAll ''__key__'' key ''# End host entries managed by __key__''"

record hostsScan =
  outLines :: "string list"
  inGuardBlock :: bool
  skipBlank :: bool

definition scanLine :: "string \<Rightarrow> string \<Rightarrow> hostsScan \<Rightarrow> hostsScan" where
  "scanLine key line sc =
     (let k = TrimSpace line in
      if k = '''' \<and> skipBlank sc then sc\<lparr>skipBlank := False\<rparr>
      else
        let block = inGuardBlock sc \<or> k = guardBegin key;
            kept = (if block then outLines sc else outLines sc @ [line]) in
        if k = guardEnd key
        then \<lparr>outLines = (if block then kept else butlast kept), inGuardBlock = False, skipBlank = True\<rparr>
        else \<lparr>outLines = kept, inGuardBlock = block, skipBlank = False\<rparr>)"

definition dropBlankEnd :: "string list \<Rightarrow> string list" where
  "dropBlankEnd out = rev (dropWhile (\<lambda>l. l = '''') (rev out))"

definition keptLines :: "string \<Rightarrow> string \<Rightarrow> string list" where
  "keptLines key text =
     dropBlankEnd (outLines (fold (scanLine key) (Split (CHR 0x0A) text) \<lparr>outLines = [], inGuardBlock = False, skipBlank = False\<rparr>))"

text \<open>The loop over the sorted hosts of an address, which skips a host equal to the one before it.\<close>

fun writeHosts :: "nat \<Rightarrow> string \<Rightarrow> string list \<Rightarrow> string" where
  "writeHosts i prev [] = ''''"
| "writeHosts i prev (h # hs) =
     (if i \<noteq> 0 \<and> prev = h then writeHosts (Suc i) h hs
      else (if i \<noteq> 0 then '' '' else '''') @ h @ writeHosts (Suc i) h hs)"

definition hostLine :: "string \<Rightarrow> string list \<Rightarrow> string" where
  "hostLine addr hosts = addr @ [CHR 0x09] @ writeHosts 0 '''' (sortStrings hosts)"

definition hostsText :: "string \<Rightarrow> nat list \<Rightarrow> (string \<times> string list) list \<Rightarrow> string \<Rightarrow> string" where
  "hostsText key order addrToHosts text =
     Join [CHR 0x0A] (keptLines key text @ [''''] @ [guardBegin key] @
       sortStrings (map (\<lambda>(addr, hosts). hostLine addr hosts) (go_range order addrToHosts)) @ [guardEnd key] @ [''''])"

section \<open>Reading and writing the file\<close>

record hostsFs =
  hostsFile :: string
  tempFiles :: "(string \<times> string) list"
  htick :: nat

text \<open>
  Every system call may fail. A failed write leaves some text behind, and other processes may
  rewrite the file while the writer sleeps.
\<close>

record hostsEnv =
  hostsFault :: "nat \<Rightarrow> goerr option"
  tornHosts :: "nat \<Rightarrow> string \<Rightarrow> string \<Rightarrow> string"
  otherWriter :: "nat \<Rightarrow> string \<Rightarrow> string"
  tempName :: "nat \<Rightarrow> string"

definition sysCall :: "hostsEnv \<Rightarrow> (hostsFs, nat) prog" where
  "sysCall E = bind (\<lambda>f. (Ret (htick f), f\<lparr>htick := Suc (htick f)\<rparr>))
     (\<lambda>n. case hostsFault E n of Some e \<Rightarrow> fail e | None \<Rightarrow> ret n)"

definition writeFileHosts :: "hostsEnv \<Rightarrow> string \<Rightarrow> (hostsFs, unit) prog" where
  "writeFileHosts E b = bind (gets htick) (\<lambda>n. bind (attempt (sysCall E)) (\<lambda>r. case r of
       Inl e \<Rightarrow> seq (modify (\<lambda>f. f\<lparr>hostsFile := tornHosts E n (hostsFile f) b\<rparr>)) (fail e)
     | Inr _ \<Rightarrow> modify (\<lambda>f. f\<lparr>hostsFile := b\<rparr>)))"

definition readFileHosts :: "hostsEnv \<Rightarrow> (hostsFs, string) prog" where
  "readFileHosts E = bind (sysCall E) (\<lambda>_. gets hostsFile)"

definition sleepHosts :: "hostsEnv \<Rightarrow> (hostsFs, unit) prog" where
  "sleepHosts E = modify (\<lambda>f. f\<lparr>hostsFile := otherWriter E (htick f) (hostsFile f), htick := Suc (htick f)\<rparr>)"

fun pseudoAttempts :: "hostsEnv \<Rightarrow> nat \<Rightarrow> string \<Rightarrow> (hostsFs, unit) prog" where
  "pseudoAttempts E 0 b = fail (Errorf ''failed to consistently write file - too many retries'')"
| "pseudoAttempts E (Suc n) b =
     bind (attempt (writeFileHosts E b)) (\<lambda>w. case w of
       Inl _ \<Rightarrow> pseudoAttempts E n b
     | Inr _ \<Rightarrow> seq (sleepHosts E) (bind (attempt (readFileHosts E)) (\<lambda>r. case r of
           Inl _ \<Rightarrow> pseudoAttempts E n b
         | Inr contents \<Rightarrow> if contents = b then ret () else pseudoAttempts E n b)))"

definition pseudoAtomicWrite :: "hostsEnv \<Rightarrow> string \<Rightarrow> (hostsFs, unit) prog" where
  "pseudoAtomicWrite E b = pseudoAttempts E 10 b"

definition removeTempFile :: "hostsEnv \<Rightarrow> string \<Rightarrow> (hostsFs, unit) prog" where
  "removeTempFile E name = bind (attempt (sysCall E)) (\<lambda>r. case r of
     Inl _ \<Rightarrow> ret () | Inr _ \<Rightarrow> modify (\<lambda>f. f\<lparr>tempFiles := filter (\<lambda>(t, _). t \<noteq> name) (tempFiles f)\<rparr>))"

definition fillTempFile :: "hostsEnv \<Rightarrow> string \<Rightarrow> string \<Rightarrow> (hostsFs, unit) prog" where
  "fillTempFile E name data =
     seq (rewrap (Wrapf ''error writing temp file'') (bind (sysCall E) (\<lambda>_. modify (\<lambda>f. f\<lparr>tempFiles := put name data (tempFiles f)\<rparr>))))
     (seq (rewrap (Wrapf ''error closing temp file'') (bind (sysCall E) (\<lambda>_. ret ())))
     (seq (rewrap (Wrapf ''error changing mode of temp file'') (bind (sysCall E) (\<lambda>_. ret ())))
       (rewrap (Wrapf ''error moving temp file'') (bind (sysCall E) (\<lambda>_.
          modify (\<lambda>f. f\<lparr>hostsFile := data, tempFiles := filter (\<lambda>(t, _). t \<noteq> name) (tempFiles f)\<rparr>))))))"

definition atomicWriteFile :: "hostsEnv \<Rightarrow> string \<Rightarrow> (hostsFs, unit) prog" where
  "atomicWriteFile E data =
     bind (rewrap (Wrapf ''error creating temp file'') (sysCall E)) (\<lambda>n.
       let name = tempName E n in
       seq (modify (\<lambda>f. f\<lparr>tempFiles := put name '''' (tempFiles f)\<rparr>))
        (bind (attempt (fillTempFile E name data)) (\<lambda>r. case r of
           Inl e \<Rightarrow> seq (removeTempFile E name) (fail e)
         | Inr _ \<Rightarrow> ret ())))"

definition containerized :: bool where
  "containerized \<longleftrightarrow> True"

definition updateHostsFileWithRecords :: "hostsEnv \<Rightarrow> string \<Rightarrow> nat list \<Rightarrow> (string \<times> string list) list \<Rightarrow> (hostsFs, unit) prog" where
  "updateHostsFileWithRecords E key order addrToHosts =
     bind (rewrap (Wrapf ''error getting file status'') (sysCall E)) (\<lambda>_.
     bind (rewrap (Wrapf ''error reading file'') (readFileHosts E)) (\<lambda>data.
       let updated = hostsText key order addrToHosts data in
       if updated = data then ret ()
       else rewrap (Wrapf ''error writing file'')
              (if containerized then pseudoAtomicWrite E updated else atomicWriteFile E updated)))"

section \<open>The provider\<close>

record Provider =
  Key :: string
  primary :: "(string \<times> string list) list"
  fallbacks :: "(string \<times> string list) list"

definition appendHost :: "string \<Rightarrow> string \<Rightarrow> (string \<times> string list) list \<Rightarrow> (string \<times> string list) list" where
  "appendHost host addr m = put addr ((case map_of m addr of Some hs \<Rightarrow> hs | None \<Rightarrow> []) @ [host]) m"

definition addFallback :: "string list \<Rightarrow> string \<times> string list \<Rightarrow> (string \<times> string list) list \<Rightarrow> (string \<times> string list) list" where
  "addFallback hostExists = (\<lambda>(host, ips) m. if host \<in> set hostExists then m else fold (appendHost host) ips m)"

definition mergeHosts :: "nat list \<Rightarrow> nat list \<Rightarrow> Provider \<Rightarrow> (string \<times> string list) list" where
  "mergeHosts order1 order2 h =
     (let entries = go_range order1 (primary h);
          addrToHosts = fold (\<lambda>(addr, hosts). put addr hosts) entries [];
          hostExists = concat (map snd entries)
      in fold (addFallback hostExists) (go_range order2 (fallbacks h)) addrToHosts)"

definition updateProvider :: "hostsEnv \<Rightarrow> nat list \<Rightarrow> nat list \<Rightarrow> nat list \<Rightarrow> Provider \<Rightarrow> (hostsFs, unit) prog" where
  "updateProvider E order1 order2 order3 h = updateHostsFileWithRecords E (Key h) order3 (mergeHosts order1 order2 h)"

definition AddFallbacks :: "hostsEnv \<Rightarrow> nat list \<Rightarrow> nat list \<Rightarrow> nat list \<Rightarrow> (string \<times> string list) list \<Rightarrow> Provider \<Rightarrow> Provider \<times> (hostsFs, unit) prog" where
  "AddFallbacks E order1 order2 order3 dnsFallbacks h =
     (let h' = h\<lparr>fallbacks := dnsFallbacks\<rparr> in (h', updateProvider E order1 order2 order3 h'))"

definition UpdateHosts :: "hostsEnv \<Rightarrow> nat list \<Rightarrow> nat list \<Rightarrow> nat list \<Rightarrow> (string \<times> string list) list \<Rightarrow> Provider \<Rightarrow> Provider \<times> (hostsFs, unit) prog" where
  "UpdateHosts E order1 order2 order3 addressToHosts h =
     (let h' = h\<lparr>primary := addressToHosts\<rparr> in (h', updateProvider E order1 order2 order3 h'))"

section \<open>The guard lines and the scan\<close>

lemma guardBegin_eq: "guardBegin key = ''# Begin host entries managed by '' @ key @ '' - do not edit''"
  by (simp add: guardBegin_def HasPrefix_def)

lemma guardEnd_eq: "guardEnd key = ''# End host entries managed by '' @ key"
  by (simp add: guardEnd_def HasPrefix_def)

lemma guards_differ [simp]: "guardBegin key \<noteq> guardEnd key'" "guardEnd key \<noteq> guardBegin key'" "guardBegin key \<noteq> []" "guardEnd key \<noteq> []"
  "[] \<noteq> guardBegin key" "[] \<noteq> guardEnd key"
  by (simp_all add: guardBegin_eq guardEnd_eq)

text \<open>
  A key that can be found again in the file: it is not empty, does not end in white space and has no line break.
  An entry that cannot be taken for a guard line: the address starts neither with a hash mark nor with white space, and
  there is no line break.
\<close>

definition okKey :: "string \<Rightarrow> bool" where
  "okKey key \<longleftrightarrow> key \<noteq> [] \<and> \<not> isSpace (last key) \<and> CHR 0x0A \<notin> set key"

definition okEntry :: "string \<times> string list \<Rightarrow> bool" where
  "okEntry e \<longleftrightarrow> (case e of (addr, hosts) \<Rightarrow> addr \<noteq> [] \<and> hd addr \<noteq> CHR ''#'' \<and> \<not> isSpace (hd addr) \<and>
     CHR 0x0A \<notin> set addr \<and> (\<forall>h \<in> set hosts. CHR 0x0A \<notin> set h))"

lemma TrimSpace_guards:
  "TrimSpace (guardBegin key) = guardBegin key" "okKey key \<Longrightarrow> TrimSpace (guardEnd key) = guardEnd key"
  by (rule TrimSpace_id; simp add: guardBegin_eq guardEnd_eq okKey_def isSpace_def)+

lemma TrimSpace_hd: "s \<noteq> [] \<Longrightarrow> \<not> isSpace (hd s) \<Longrightarrow> \<exists>t. TrimSpace s = hd s # t"
proof -
  assume "s \<noteq> []" "\<not> isSpace (hd s)"
  then obtain c s' where s: "s = c # s'" "\<not> isSpace c" by (cases s) auto
  then have "\<exists>t. dropWhile isSpace (rev s' @ [c]) = t @ [c]"
    by (cases "\<exists>x \<in> set (rev s'). \<not> isSpace x") (auto simp: dropWhile_append)
  then obtain t where "dropWhile isSpace (rev s' @ [c]) = t @ [c]" by blast
  with s show ?thesis by (intro exI [of _ "rev t"]) (simp add: TrimSpace_def)
qed

definition clean :: "string \<Rightarrow> string \<Rightarrow> bool" where
  "clean key l \<longleftrightarrow> TrimSpace l \<noteq> guardBegin key \<and> TrimSpace l \<noteq> guardEnd key"

lemma TrimSpace_Nil [simp]: "TrimSpace [] = []"
  by (simp add: TrimSpace_def)

lemma scan_outside: "list_all (clean key) ls \<Longrightarrow>
    fold (scanLine key) ls \<lparr>outLines = out, inGuardBlock = False, skipBlank = False\<rparr> =
      \<lparr>outLines = out @ ls, inGuardBlock = False, skipBlank = False\<rparr>"
  by (induction ls arbitrary: out) (simp_all add: scanLine_def clean_def Let_def)

lemma scan_inside: "list_all (\<lambda>l. TrimSpace l \<noteq> guardEnd key) ls \<Longrightarrow>
    fold (scanLine key) ls \<lparr>outLines = out, inGuardBlock = True, skipBlank = False\<rparr> =
      \<lparr>outLines = out, inGuardBlock = True, skipBlank = False\<rparr>"
  by (induction ls) (simp_all add: scanLine_def Let_def)

lemma scan_block: "okKey key \<Longrightarrow> list_all (\<lambda>l. TrimSpace l \<noteq> guardEnd key) ls \<Longrightarrow>
    fold (scanLine key) ([guardBegin key] @ ls @ [guardEnd key, '''']) \<lparr>outLines = out, inGuardBlock = False, skipBlank = False\<rparr> =
      \<lparr>outLines = out, inGuardBlock = False, skipBlank = False\<rparr>"
  by (simp add: scan_inside scanLine_def Let_def TrimSpace_guards)

text \<open>What the scan keeps has no guard line of this key and consists of lines of the file.\<close>

lemma scanLine_clean:
  "list_all (\<lambda>l. clean key l \<and> CHR 0x0A \<notin> set l) (outLines sc) \<Longrightarrow> CHR 0x0A \<notin> set line \<Longrightarrow>
   list_all (\<lambda>l. clean key l \<and> CHR 0x0A \<notin> set l) (outLines (scanLine key line sc))"
  by (auto simp: scanLine_def Let_def clean_def list_all_iff dest: in_set_butlastD)

lemma scan_clean:
  "list_all (\<lambda>l. clean key l \<and> CHR 0x0A \<notin> set l) (outLines sc) \<Longrightarrow> \<forall>l \<in> set ls. CHR 0x0A \<notin> set l \<Longrightarrow>
   list_all (\<lambda>l. clean key l \<and> CHR 0x0A \<notin> set l) (outLines (fold (scanLine key) ls sc))"
  by (induction ls arbitrary: sc) (simp_all add: scanLine_clean)

lemma dropBlankEnd_prefix: "\<exists>k. out = dropBlankEnd out @ replicate k ''''"
proof -
  have "rev out = takeWhile (\<lambda>l. l = '''') (rev out) @ dropWhile (\<lambda>l. l = '''') (rev out)" by simp
  moreover have "takeWhile (\<lambda>l. l = '''') (rev out) = replicate (length (takeWhile (\<lambda>l. l = '''') (rev out))) ''''"
    by (rule replicate_eqI) (auto dest: set_takeWhileD)
  ultimately have "rev out = replicate (length (takeWhile (\<lambda>l. l = '''') (rev out))) '''' @ rev (dropBlankEnd out)"
    by (simp add: dropBlankEnd_def)
  then have "out = dropBlankEnd out @ rev (replicate (length (takeWhile (\<lambda>l. l = '''') (rev out))) '''')"
    by (metis rev_append rev_rev_ident)
  then show ?thesis by auto
qed

lemma set_dropBlankEnd: "set (dropBlankEnd out) \<subseteq> set out"
  by (auto simp: dropBlankEnd_def dest: set_dropWhileD)

lemma dropBlankEnd_append [simp]: "dropBlankEnd (out @ ['''']) = dropBlankEnd out" "dropBlankEnd (dropBlankEnd out) = dropBlankEnd out"
  by (simp_all add: dropBlankEnd_def)

lemma keptLines_clean: "list_all (\<lambda>l. clean key l \<and> CHR 0x0A \<notin> set l) (keptLines key text)"
proof -
  have "list_all (\<lambda>l. clean key l \<and> CHR 0x0A \<notin> set l)
      (outLines (fold (scanLine key) (Split (CHR 0x0A) text) \<lparr>outLines = [], inGuardBlock = False, skipBlank = False\<rparr>))"
    by (rule scan_clean) (auto dest: Split_parts)
  then show ?thesis using set_dropBlankEnd unfolding keptLines_def list_all_iff by blast
qed

lemma keptLines_user: "list_all (clean key) (Split (CHR 0x0A) text) \<Longrightarrow> keptLines key text = dropBlankEnd (Split (CHR 0x0A) text)"
  by (simp add: keptLines_def scan_outside)

lemma keptLines_end: "dropBlankEnd (keptLines key text) = keptLines key text"
  by (simp add: keptLines_def)

section \<open>Replacing the block\<close>

lemma writeHosts_chars: "CHR 0x0A \<in> set (writeHosts i prev hs) \<Longrightarrow> \<exists>h \<in> set hs. CHR 0x0A \<in> set h"
  by (induction i prev hs rule: writeHosts.induct) (auto split: if_splits)

lemma hostLine_ok:
  assumes "okEntry (addr, hosts)"
  shows "CHR 0x0A \<notin> set (hostLine addr hosts)" "TrimSpace (hostLine addr hosts) \<noteq> guardEnd key"
proof -
  show "CHR 0x0A \<notin> set (hostLine addr hosts)"
    using assms writeHosts_chars [of 0 "''''" "sortStrings hosts"] by (auto simp: okEntry_def hostLine_def)
  have "hostLine addr hosts \<noteq> []" "hd (hostLine addr hosts) = hd addr" using assms by (simp_all add: okEntry_def hostLine_def)
  then obtain t where "TrimSpace (hostLine addr hosts) = hd addr # t"
    using assms TrimSpace_hd [of "hostLine addr hosts"] by (auto simp: okEntry_def)
  then show "TrimSpace (hostLine addr hosts) \<noteq> guardEnd key" using assms by (auto simp: guardEnd_eq okEntry_def)
qed

lemma keptLines_hostsText:
  assumes "okKey key" and "list_all okEntry m"
  shows "keptLines key (hostsText key order m text) = keptLines key text"
proof -
  let ?block = "sortStrings (map (\<lambda>(addr, hosts). hostLine addr hosts) (go_range order m))"
  let ?ls = "keptLines key text @ [''''] @ [guardBegin key] @ ?block @ [guardEnd key] @ ['''']"
  have ok: "CHR 0x0A \<notin> set l \<and> TrimSpace l \<noteq> guardEnd key" if "l \<in> set ?block" for l
    using that assms(2) hostLine_ok by (auto simp: list_all_iff)
  have "CHR 0x0A \<notin> set (guardBegin key)" "CHR 0x0A \<notin> set (guardEnd key)"
    using assms(1) by (simp_all add: okKey_def guardBegin_eq guardEnd_eq)
  then have split: "Split (CHR 0x0A) (hostsText key order m text) = ?ls"
    using ok keptLines_clean [of key "text"] unfolding hostsText_def by (intro Split_Join) (auto simp: list_all_iff)
  have "list_all (clean key) (keptLines key text @ [''''])" using keptLines_clean [of key "text"] by (simp add: list_all_iff clean_def)
  then have outside: "fold (scanLine key) (keptLines key text @ ['''']) \<lparr>outLines = [], inGuardBlock = False, skipBlank = False\<rparr> =
      \<lparr>outLines = keptLines key text @ [''''], inGuardBlock = False, skipBlank = False\<rparr>"
    by (subst scan_outside) simp_all
  have block: "fold (scanLine key) ([guardBegin key] @ ?block @ [guardEnd key, '''']) \<lparr>outLines = out, inGuardBlock = False, skipBlank = False\<rparr> =
      \<lparr>outLines = out, inGuardBlock = False, skipBlank = False\<rparr>" for out
    using ok by (intro scan_block assms(1)) (auto simp: list_all_iff)
  have "fold (scanLine key) ?ls \<lparr>outLines = [], inGuardBlock = False, skipBlank = False\<rparr> =
      fold (scanLine key) ([guardBegin key] @ ?block @ [guardEnd key, ''''])
        (fold (scanLine key) (keptLines key text @ ['''']) \<lparr>outLines = [], inGuardBlock = False, skipBlank = False\<rparr>)"
    by simp
  also have "\<dots> = \<lparr>outLines = keptLines key text @ [''''], inGuardBlock = False, skipBlank = False\<rparr>"
    unfolding outside block ..
  finally show ?thesis unfolding keptLines_def [of key "hostsText key order m text"] split by (simp add: keptLines_end)
qed

section \<open>The block against a reference\<close>

text \<open>
  The hosts of an address: those the primary map gives it, and every fallback host with this address unless the primary map
  names that host. The reference prints, for each address, the set of its hosts in order.
\<close>

definition primaryHosts :: "Provider \<Rightarrow> string set" where
  "primaryHosts h = (\<Union>(a, hs) \<in> set (primary h). set hs)"

definition hostPairs :: "Provider \<Rightarrow> (string \<times> string) set" where
  "hostPairs h = {(a, host). (\<exists>hs. (a, hs) \<in> set (primary h) \<and> host \<in> set hs) \<or>
     (\<exists>ips. (host, ips) \<in> set (fallbacks h) \<and> a \<in> set ips \<and> host \<notin> primaryHosts h)}"

definition hostAddresses :: "Provider \<Rightarrow> string set" where
  "hostAddresses h = fst ` set (primary h) \<union> fst ` hostPairs h"

definition hostsBlock :: "Provider \<Rightarrow> string list" where
  "hostsBlock h = sortStrings (map (\<lambda>a. a @ [CHR 0x09] @ Join '' '' (sorted_list_of_set (hostPairs h `` {a})))
     (sorted_list_of_set (hostAddresses h)))"

lemma writeHosts_later: "0 < i \<Longrightarrow> writeHosts i prev hs = concat (map (\<lambda>h. '' '' @ h) (tl (remdups_adj (prev # hs))))"
proof (induction i prev hs rule: writeHosts.induct)
  case (2 i prev h hs)
  have "remdups_adj (h # hs) = h # tl (remdups_adj (h # hs))" by (cases hs) (simp_all add: remdups_adj_Cons split: list.split)
  then have "map (\<lambda>h. '' '' @ h) (remdups_adj (h # hs)) = ('' '' @ h) # map (\<lambda>h. '' '' @ h) (tl (remdups_adj (h # hs)))"
    by (metis list.simps(9))
  then show ?case using 2 by simp
qed simp

lemma Join_concat: "Join sep (x # xs) = x @ concat (map (\<lambda>h. sep @ h) xs)"
  by (induction xs arbitrary: x) (simp_all add: Join_Cons)

lemma writeHosts_Join: "writeHosts 0 '''' hs = Join '' '' (remdups_adj hs)"
proof (cases hs)
  case (Cons h hs')
  have "remdups_adj (h # hs') = h # tl (remdups_adj (h # hs'))" by (cases hs') (simp_all add: remdups_adj_Cons split: list.split)
  then have "Join '' '' (remdups_adj (h # hs')) = h @ concat (map (\<lambda>h. '' '' @ h) (tl (remdups_adj (h # hs'))))"
    by (metis Join_concat)
  then show ?thesis using writeHosts_later [of 1 h hs'] by (simp add: Cons)
qed simp

lemma distinct_remdups_sorted: "sorted xs \<Longrightarrow> distinct (remdups_adj xs)"
  by (induction xs rule: remdups_adj.induct) (auto simp: order.antisym)

lemma remdups_sorted: "remdups_adj (sortStrings hs) = sorted_list_of_set (set hs)"
proof (rule sorted_distinct_set_unique)
  show "sorted (remdups_adj (sortStrings hs))" "distinct (remdups_adj (sortStrings hs))"
    by (simp_all add: sorted_remdups_adj distinct_remdups_sorted)
qed simp_all

lemma hostLine_eq: "hostLine addr hosts = addr @ [CHR 0x09] @ Join '' '' (sorted_list_of_set (set hosts))"
  by (simp add: hostLine_def writeHosts_Join remdups_sorted)

text \<open>The pairs and the addresses of a map, and what the loops of \<open>update\<close> add to them.\<close>

definition pairsIn :: "(string \<times> string list) list \<Rightarrow> (string \<times> string) set" where
  "pairsIn m = {(a, host). \<exists>hs. map_of m a = Some hs \<and> host \<in> set hs}"

lemma pairsIn_appendHost: "pairsIn (appendHost host addr m) = insert (addr, host) (pairsIn m)"
  by (auto simp: pairsIn_def appendHost_def split: option.splits if_splits)

lemma appendHost_keys: "fst ` set (appendHost host addr m) = insert addr (fst ` set m)" "distinct (map fst m) \<Longrightarrow> distinct (map fst (appendHost host addr m))"
  by (simp_all add: appendHost_def)

lemma fold_appendHost:
  "pairsIn (fold (appendHost host) ips m) = pairsIn m \<union> set ips \<times> {host}"
  "fst ` set (fold (appendHost host) ips m) = fst ` set m \<union> set ips"
  "distinct (map fst m) \<Longrightarrow> distinct (map fst (fold (appendHost host) ips m))"
  by (induction ips arbitrary: m) (simp_all add: pairsIn_appendHost appendHost_keys insert_Times_insert)

lemma addFallback_step:
  "pairsIn (addFallback known f m) = pairsIn m \<union> (if fst f \<in> set known then {} else set (snd f) \<times> {fst f})"
  "fst ` set (addFallback known f m) = fst ` set m \<union> (if fst f \<in> set known then {} else set (snd f))"
  "distinct (map fst m) \<Longrightarrow> distinct (map fst (addFallback known f m))"
  by (simp_all add: addFallback_def fold_appendHost split: prod.split)

lemma fold_addFallback:
  "pairsIn (fold (addFallback known) fs m) = pairsIn m \<union> (\<Union>f \<in> set fs. if fst f \<in> set known then {} else set (snd f) \<times> {fst f})"
  "fst ` set (fold (addFallback known) fs m) = fst ` set m \<union> (\<Union>f \<in> set fs. if fst f \<in> set known then {} else set (snd f))"
  "distinct (map fst m) \<Longrightarrow> distinct (map fst (fold (addFallback known) fs m))"
  by (induction fs arbitrary: m) (simp_all add: addFallback_step Un_assoc)

lemma fold_put: "distinct (map fst (es @ m)) \<Longrightarrow> set (fold (\<lambda>(a, hs). put a hs) es m) = set es \<union> set m \<and>
    distinct (map fst (fold (\<lambda>(a, hs). put a hs) es m))"
proof (induction es arbitrary: m)
  case (Cons e es)
  obtain a hs where e: "e = (a, hs)" by (cases e)
  have new: "a \<notin> fst ` set m" using Cons.prems e by auto
  then have set: "set (put a hs m) = insert (a, hs) (set m)"
    by (auto simp: put_def)
  have "distinct (map fst (es @ put a hs m))"
    using Cons.prems e by (auto simp: set)
  then show ?case using Cons.IH [of "put a hs m"] by (auto simp: e set)
qed simp

lemma mergeHosts_spec:
  assumes "distinct (map fst (primary h))"
  shows "pairsIn (mergeHosts o1 o2 h) = hostPairs h" "fst ` set (mergeHosts o1 o2 h) = hostAddresses h" "distinct (map fst (mergeHosts o1 o2 h))"
proof -
  let ?es = "go_range o1 (primary h)" and ?m = "fold (\<lambda>(a, hs). put a hs) (go_range o1 (primary h)) []"
  have m: "set ?m = set (primary h)" "distinct (map fst ?m)" using fold_put [of ?es "[]"] assms by simp_all
  have "map_of ?m a = Some hs \<longleftrightarrow> (a, hs) \<in> set (primary h)" for a hs using m map_of_eq_Some_iff by force
  then have p: "pairsIn ?m = {(a, host). \<exists>hs. (a, hs) \<in> set (primary h) \<and> host \<in> set hs}" by (simp add: pairsIn_def)
  have known: "set (concat (map snd ?es)) = primaryHosts h" by (auto simp: primaryHosts_def)
  show "pairsIn (mergeHosts o1 o2 h) = hostPairs h"
    unfolding mergeHosts_def Let_def fold_addFallback p known by (auto simp: hostPairs_def split: if_splits)
  show "fst ` set (mergeHosts o1 o2 h) = hostAddresses h"
    unfolding mergeHosts_def Let_def fold_addFallback known m hostAddresses_def
    by (auto simp: hostPairs_def image_iff split: if_splits) force
  show "distinct (map fst (mergeHosts o1 o2 h))"
    unfolding mergeHosts_def Let_def by (rule fold_addFallback(3)) (rule m(2))
qed

lemma block_reference:
  assumes "distinct (map fst (primary h))"
  shows "sortStrings (map (\<lambda>(addr, hosts). hostLine addr hosts) (go_range o3 (mergeHosts o1 o2 h))) = hostsBlock h"
proof -
  let ?m = "mergeHosts o1 o2 h" and ?line = "\<lambda>a. a @ [CHR 0x09] @ Join '' '' (sorted_list_of_set (hostPairs h `` {a}))"
  note merged = mergeHosts_spec [OF assms, of o1 o2]
  have "set hs = hostPairs h `` {a}" if "(a, hs) \<in> set ?m" for a hs
    using map_of_is_SomeI [OF merged(3) that] unfolding merged(1) [symmetric] by (auto simp: pairsIn_def)
  then have "map (\<lambda>(addr, hosts). hostLine addr hosts) ?m = map ?line (map fst ?m)"
    by (auto simp: hostLine_eq)
  then have "mset (map (\<lambda>(addr, hosts). hostLine addr hosts) ?m) = image_mset ?line (mset (map fst ?m))"
    by (simp only: mset_map)
  also have "mset (map fst ?m) = mset (sorted_list_of_set (hostAddresses h))"
  proof -
    have "finite (hostAddresses h)" unfolding merged(2) [symmetric] by simp
    moreover have "set (map fst ?m) = hostAddresses h" unfolding merged(2) [symmetric] by simp
    ultimately show ?thesis
      using mset_set_set [OF merged(3)] mset_set_set [OF distinct_sorted_list_of_set [of "hostAddresses h"]] by simp
  qed
  finally show ?thesis unfolding hostsBlock_def sortStrings_eq_iff by (simp only: mset_map mset_go_range)
qed

section \<open>Writing the file\<close>

lemma wp_sysCall [wp_simps]:
  "wp (sysCall E) Q f = (case hostsFault E (htick f) of
     None \<Rightarrow> Q (Ret (htick f)) (f\<lparr>htick := Suc (htick f)\<rparr>)
   | Some e \<Rightarrow> Q (Err e) (f\<lparr>htick := Suc (htick f)\<rparr>))"
  by (simp add: sysCall_def wp_def bind_def fail_def ret_def split: option.split)

lemmas hosts_defs = writeFileHosts_def readFileHosts_def sleepHosts_def

lemma pseudoAttempts_spec: "wp (pseudoAttempts E n b) (\<lambda>r f'. tempFiles f' = tempFiles f \<and> (r = Ret () \<longrightarrow> hostsFile f' = b)) f"
proof (induction n arbitrary: f)
  case (Suc n)
  have again: "wp (pseudoAttempts E n b) (\<lambda>r f'. tempFiles f' = tempFiles f \<and> (r = Ret () \<longrightarrow> hostsFile f' = b)) g"
    if "tempFiles g = tempFiles f" for g using Suc [of g] that by simp
  show ?case by (simp add: hosts_defs wp_simps again split: option.split)
qed (simp add: wp_simps)

lemma updateHosts_spec:
  "wp (updateHostsFileWithRecords E key order m) (\<lambda>r f'. r = Ret () \<longrightarrow> hostsFile f' = hostsText key order m (hostsFile f)) f"
  by (simp add: updateHostsFileWithRecords_def pseudoAtomicWrite_def readFileHosts_def containerized_def Let_def wp_simps split: option.split)
     (intro impI, rule wp_mono [OF pseudoAttempts_spec], simp split: outcome.split)

text \<open>The write by a temporary file replaces the file or leaves it alone.\<close>

lemma atomicWriteFile_spec: "wp (atomicWriteFile E data) (\<lambda>r f'. (case r of Ret _ \<Rightarrow> hostsFile f' = data | _ \<Rightarrow> hostsFile f' = hostsFile f)) f"
  by (simp add: atomicWriteFile_def fillTempFile_def removeTempFile_def wp_simps Let_def split: option.split)

lemma pseudoAttempts_returns:
  assumes "\<And>k. htick f + n \<le> k \<Longrightarrow> hostsFault E k = None \<and> otherWriter E k = (\<lambda>s. s)"
  shows "wp (pseudoAttempts E (Suc n) b) (\<lambda>r f'. r = Ret () \<and> hostsFile f' = b) f"
  using assms
proof (induction n arbitrary: f)
  case 0
  then show ?case by (simp add: hosts_defs wp_simps)
next
  case (Suc n)
  have again: "wp (pseudoAttempts E (Suc n) b) (\<lambda>r f'. r = Ret () \<and> hostsFile f' = b) g" if "htick f < htick g" for g
    using Suc.prems that by (intro Suc.IH) simp
  show ?case
    unfolding pseudoAttempts.simps(2) [of E "Suc n"]
    by (simp del: pseudoAttempts.simps add: hosts_defs wp_simps again split: option.split)
qed

section \<open>Properties\<close>

text \<open>
  C34. What an update of the hosts file writes. When it succeeds, the file holds the kept lines of the old file and then the
  block of the reference: for each address the sorted set of its hosts, fallback hosts only where the primary map does not
  name the host. The order in which the maps are ranged over makes no difference, and neither do other
  writers and failed calls in between.
\<close>

theorem hosts_update_verified:
  assumes "distinct (map fst (primary h))" and "updateProvider E o1 o2 o3 h f = (Ret (), f')"
  shows "hostsFile f' = Join [CHR 0x0A]
    (keptLines (Key h) (hostsFile f) @ ['''', guardBegin (Key h)] @ hostsBlock h @ [guardEnd (Key h), ''''])"
proof -
  have "hostsFile f' = hostsText (Key h) o3 (mergeHosts o1 o2 h) (hostsFile f)"
    using wpD [OF updateHosts_spec assms(2) [unfolded updateProvider_def]] by simp
  then show ?thesis by (simp add: hostsText_def block_reference [OF assms(1)])
qed


text \<open>
  C36. The verified write gets through. If no call fails and nobody else writes from the tenth call on, one of the ten
  attempts succeeds and leaves exactly the intended contents.
\<close>

theorem pseudo_write_succeeds:
  assumes "\<And>k. htick f + 9 \<le> k \<Longrightarrow> hostsFault E k = None \<and> otherWriter E k = (\<lambda>s. s)"
  shows "\<exists>f'. pseudoAtomicWrite E b f = (Ret (), f') \<and> hostsFile f' = b"
proof -
  have "pseudoAtomicWrite E b = pseudoAttempts E (Suc 9) b" by (simp add: pseudoAtomicWrite_def)
  with pseudoAttempts_returns [of f 9 E b, OF assms] show ?thesis
    by (cases "pseudoAtomicWrite E b f") (auto simp: wp_def)
qed

section \<open>An example\<close>

definition exampleHostsEnv :: hostsEnv where
  "exampleHostsEnv = \<lparr>hostsFault = \<lambda>n. if n = 2 then Some (Errorf ''text file busy'') else None, tornHosts = \<lambda>_ _ new. take 3 new,
     otherWriter = \<lambda>n s. if n = 4 then ''127.0.0.1 localhost'' else s, tempName = \<lambda>_. ''.tmphosts''\<rparr>"

definition exampleProvider :: Provider where
  "exampleProvider = \<lparr>Key = ''etcd'', primary = [(''10.0.0.2'', [''b'', ''a'', ''b''])],
     fallbacks = [(''a'', [''10.0.0.9'']), (''c'', [''10.0.0.2'', ''10.0.0.3''])]\<rparr>"

definition exampleHostsFs :: hostsFs where
  "exampleHostsFs = \<lparr>hostsFile = ''127.0.0.1 localhost'', tempFiles = [], htick = 0\<rparr>"

theorem hosts_update_verified_witness:
  "let f' = snd (updateProvider exampleHostsEnv [] [1] [] exampleProvider exampleHostsFs) in
   hostsFile f' = Join [CHR 0x0A] ([''127.0.0.1 localhost'', '''', guardBegin ''etcd''] @ hostsBlock exampleProvider @ [guardEnd ''etcd'', ''''])"
proof -
  have "fst (updateProvider exampleHostsEnv [] [1] [] exampleProvider exampleHostsFs) = Ret ()" by code_simp
  then have "updateProvider exampleHostsEnv [] [1] [] exampleProvider exampleHostsFs =
      (Ret (), snd (updateProvider exampleHostsEnv [] [1] [] exampleProvider exampleHostsFs))"
    by (metis prod.collapse)
  moreover have "keptLines ''etcd'' ''127.0.0.1 localhost'' = [''127.0.0.1 localhost'']" by code_simp
  ultimately show ?thesis
    using hosts_update_verified [of exampleProvider exampleHostsEnv "[]" "[1]" "[]" exampleHostsFs]
    by (simp add: exampleProvider_def exampleHostsFs_def Let_def)
qed


theorem pseudo_write_succeeds_witness:
  "\<exists>f'. pseudoAtomicWrite exampleHostsEnv ''x'' exampleHostsFs = (Ret (), f') \<and> hostsFile f' = ''x''"
  by (rule pseudo_write_succeeds) (auto simp: exampleHostsEnv_def exampleHostsFs_def)

end
