(* ===== verification/Locking.thy ===== *)
theory Locking
  imports Backup
begin

text \<open>
  The leader lock (\<open>pkg/locking\<close>): a lock kept as the contents of a file, and one based on \<open>flock(2)\<close>. The
  contract is a locale, a lock with at most one guard; both are interpreted, and a
  trace shows what the contents lock does not give when two processes interleave. A call of \<open>klog.Fatalf\<close> ends the process.
\<close>

section \<open>The lock in the contents of a file\<close>

record LockInfo =
  Holder :: string
  LockTimestamp :: int

record lockEnv =
  lockCancelled :: "nat \<Rightarrow> goerr option"
  lockNow :: "nat \<Rightarrow> int"
  lockCodec :: "LockInfo codec"
  hexSha256 :: "string \<Rightarrow> string"
  lockFault :: "nat \<Rightarrow> goerr option"
  closeFault :: "nat \<Rightarrow> goerr option"
  tornLock :: "nat \<Rightarrow> string \<Rightarrow> string \<Rightarrow> string"

record lockFs =
  lockFile :: "string option"
  ltick :: nat

record FSContentLockGuard =
  guardId :: string
  guardData :: string

definition lockCall :: "lockEnv \<Rightarrow> (lockFs, nat) prog" where
  "lockCall E = bind (\<lambda>f. (Ret (ltick f), f\<lparr>ltick := Suc (ltick f)\<rparr>)) (\<lambda>n. case lockFault E n of Some e \<Rightarrow> fail e | None \<Rightarrow> ret n)"

definition openLock :: "lockEnv \<Rightarrow> bool \<Rightarrow> (lockFs, unit) prog" where
  "openLock E create = bind (lockCall E) (\<lambda>_. bind (gets lockFile) (\<lambda>c. case c of
       Some _ \<Rightarrow> ret ()
     | None \<Rightarrow> if create then modify (\<lambda>f. f\<lparr>lockFile := Some ''''\<rparr>) else fail (Errorf ''no such file or directory'')))"

definition readLock :: "lockEnv \<Rightarrow> (lockFs, string) prog" where
  "readLock E = bind (lockCall E) (\<lambda>_. gets (\<lambda>f. case lockFile f of Some c \<Rightarrow> c | None \<Rightarrow> ''''))"

definition truncateLock :: "lockEnv \<Rightarrow> (lockFs, unit) prog" where
  "truncateLock E = bind (lockCall E) (\<lambda>_. modify (\<lambda>f. f\<lparr>lockFile := Some ''''\<rparr>))"

text \<open>\<open>WriteAt\<close> at offset zero leaves what lies beyond the new bytes; one that fails leaves some other contents.\<close>

definition writeLock :: "lockEnv \<Rightarrow> string \<Rightarrow> (lockFs, unit) prog" where
  "writeLock E b = bind (gets ltick) (\<lambda>n. bind (gets (\<lambda>f. case lockFile f of Some c \<Rightarrow> c | None \<Rightarrow> '''')) (\<lambda>old.
     bind (attempt (lockCall E)) (\<lambda>r. case r of
       Inl e \<Rightarrow> seq (modify (\<lambda>f. f\<lparr>lockFile := Some (tornLock E n old b)\<rparr>)) (fail e)
     | Inr _ \<Rightarrow> modify (\<lambda>f. f\<lparr>lockFile := Some (b @ drop (length b) old)\<rparr>))))"

definition closeLock :: "lockEnv \<Rightarrow> (lockFs, unit) prog" where
  "closeLock E = bind (\<lambda>f. (Ret (ltick f), f\<lparr>ltick := Suc (ltick f)\<rparr>)) (\<lambda>n. case closeFault E n of Some e \<Rightarrow> fail e | None \<Rightarrow> ret ())"

definition closeOrDie :: "lockEnv \<Rightarrow> (lockFs, unit) prog" where
  "closeOrDie E = bind (attempt (closeLock E)) (\<lambda>r. case r of Inl _ \<Rightarrow> crash ''error closing lock file'' | Inr _ \<Rightarrow> ret ())"

definition closeAndFail :: "lockEnv \<Rightarrow> goerr \<Rightarrow> (lockFs, 'a) prog" where
  "closeAndFail E e = seq (closeOrDie E) (fail e)"

text \<open>A guard file is in force when its first line is the hash of the rest and the rest parses.\<close>

definition lockHeld :: "lockEnv \<Rightarrow> string \<Rightarrow> bool" where
  "lockHeld E fileBytes = (case Cut (CHR 0x0A) fileBytes of
       (hash, Some rest) \<Rightarrow> hash = hexSha256 E rest \<and> (case FromJson (lockCodec E) rest of Inr _ \<Rightarrow> True | Inl _ \<Rightarrow> False)
     | (_, None) \<Rightarrow> False)"

definition lockBytes :: "lockEnv \<Rightarrow> string \<Rightarrow> string" where
  "lockBytes E b = hexSha256 E b @ [CHR 0x0A] @ b"

definition acquireRead :: "lockEnv \<Rightarrow> string \<Rightarrow> (lockFs, (string \<times> string) option) prog" where
  "acquireRead E holder = bind (gets ltick) (\<lambda>n. case lockCancelled E n of
       Some e \<Rightarrow> fail e
     | None \<Rightarrow> bind (rewrap (Wrapf ''error serializing lock info'') (lift (ToJson (lockCodec E) \<lparr>Holder = holder, LockTimestamp = lockNow E n\<rparr>))) (\<lambda>b.
         seq (rewrap (Wrapf ''error creating lock file'') (openLock E True))
         (bind (attempt (readLock E)) (\<lambda>r. case r of
            Inl e \<Rightarrow> closeAndFail E (Wrapf ''error reading lock file'' e)
          | Inr fileBytes \<Rightarrow>
              if fileBytes \<noteq> '''' \<and> lockHeld E fileBytes then seq (closeOrDie E) (ret None)
              else ret (Some (lockBytes E b, fileBytes))))))"

definition acquireWrite :: "lockEnv \<Rightarrow> string \<Rightarrow> string \<times> string \<Rightarrow> (lockFs, FSContentLockGuard option) prog" where
  "acquireWrite E holder = (\<lambda>(bytes, fileBytes).
     bind (if fileBytes \<noteq> '''' then attempt (truncateLock E) else ret (Inr ())) (\<lambda>t. case t of
       Inl e \<Rightarrow> closeAndFail E (Wrapf ''failed to truncate file after failed read'' e)
     | Inr _ \<Rightarrow>
         bind (attempt (seq (writeLock E bytes) (bind (lockCall E) (\<lambda>_. ret ())))) (\<lambda>w. case w of
           Inl e \<Rightarrow> bind (attempt (truncateLock E)) (\<lambda>_. closeAndFail E (Wrapf ''error creating lock file'' e))
         | Inr _ \<Rightarrow> seq (closeOrDie E) (ret (Some \<lparr>guardId = holder, guardData = bytes\<rparr>)))))"

definition AcquireContent :: "lockEnv \<Rightarrow> string \<Rightarrow> (lockFs, FSContentLockGuard option) prog" where
  "AcquireContent E holder = bind (acquireRead E holder) (\<lambda>r. case r of None \<Rightarrow> ret None | Some x \<Rightarrow> acquireWrite E holder x)"

definition ReleaseContent :: "lockEnv \<Rightarrow> FSContentLockGuard \<Rightarrow> (lockFs, unit) prog" where
  "ReleaseContent E g =
     seq (rewrap (Wrapf ''error opening file'') (openLock E False))
     (bind (attempt (readLock E)) (\<lambda>r. case r of
        Inl e \<Rightarrow> closeAndFail E (Wrapf ''error reading lock file'' e)
      | Inr fileBytes \<Rightarrow>
          if fileBytes \<noteq> guardData g then closeAndFail E (Errorf ''lock file changed'')
          else bind (attempt (truncateLock E)) (\<lambda>t. case t of
            Inl e \<Rightarrow> closeAndFail E (Wrapf ''failed to truncate file after failed write'' e)
          | Inr _ \<Rightarrow> rewrap (Wrapf ''error closing file as part of unlock'') (closeLock E))))"

section \<open>The lock of the kernel\<close>

text \<open>
  \<open>flock\<close> with \<open>LOCK_EX | LOCK_NB\<close> gives the lock to one open file at a time; unlocking or closing that file frees it.
\<close>

datatype flockResult = Locked | WouldBlock | FlockError goerr

record flockFs =
  flockOwner :: "nat option"
  nextFd :: nat
  fltick :: nat

record flockEnv =
  flockCancelled :: "nat \<Rightarrow> goerr option"
  openFault :: "nat \<Rightarrow> goerr option"
  flockFault :: "nat \<Rightarrow> goerr option"
  unlockFault :: "nat \<Rightarrow> goerr option"
  closeFdFault :: "nat \<Rightarrow> goerr option"

definition flockCall :: "(flockFs, nat) prog" where
  "flockCall = (\<lambda>f. (Ret (fltick f), f\<lparr>fltick := Suc (fltick f)\<rparr>))"

definition closeFd :: "nat \<Rightarrow> (flockFs, unit) prog" where
  "closeFd fd = modify (\<lambda>f. if flockOwner f = Some fd then f\<lparr>flockOwner := None\<rparr> else f)"

definition tryFlock :: "flockEnv \<Rightarrow> nat \<Rightarrow> (flockFs, flockResult) prog" where
  "tryFlock E fd = bind flockCall (\<lambda>n. case flockFault E n of
       Some e \<Rightarrow> ret (FlockError e)
     | None \<Rightarrow> bind (gets flockOwner) (\<lambda>owner. case owner of
         Some _ \<Rightarrow> ret WouldBlock
       | None \<Rightarrow> seq (modify (\<lambda>f. f\<lparr>flockOwner := Some fd\<rparr>)) (ret Locked)))"

definition AcquireFlock :: "flockEnv \<Rightarrow> string \<Rightarrow> (flockFs, nat option) prog" where
  "AcquireFlock E holder = bind flockCall (\<lambda>n. case flockCancelled E n of
       Some e \<Rightarrow> fail e
     | None \<Rightarrow> (case openFault E n of
         Some e \<Rightarrow> fail (Wrapf ''error opening lock file'' e)
       | None \<Rightarrow> bind (gets nextFd) (\<lambda>fd. seq (modify (\<lambda>f. f\<lparr>nextFd := Suc fd\<rparr>))
           (bind (tryFlock E fd) (\<lambda>r. case r of
              Locked \<Rightarrow> ret (Some fd)
            | WouldBlock \<Rightarrow> seq (closeFd fd) (ret None)
            | FlockError e \<Rightarrow> seq (closeFd fd) (fail (Wrapf ''unexpected result from flock'' e)))))))"

definition ReleaseFlock :: "flockEnv \<Rightarrow> nat \<Rightarrow> (flockFs, unit) prog" where
  "ReleaseFlock E fd = bind flockCall (\<lambda>n. case unlockFault E n of
       Some e \<Rightarrow> seq (closeFd fd) (fail (Wrapf ''unexpected result from flock'' e))
     | None \<Rightarrow> seq (closeFd fd) (case closeFdFault E n of
         Some _ \<Rightarrow> fail (Errorf ''unexpected result from closing lock file'')
       | None \<Rightarrow> ret ()))"

section \<open>The contract\<close>

text \<open>
  Sequences of calls by any number of processes that share a lock, with the guards that are held. As in
  \<open>releaseLeaderLock\<close>, a guard is kept when releasing it failed.
\<close>

inductive lockReach :: "('i \<Rightarrow> ('s, 'g option) prog) \<Rightarrow> ('g \<Rightarrow> ('s, unit) prog) \<Rightarrow> 's \<Rightarrow> 's \<Rightarrow> 'g list \<Rightarrow> bool"
  for acquire release s0 where
  lock_start: "lockReach acquire release s0 s0 []"
| lock_acquired: "lockReach acquire release s0 s gs \<Longrightarrow> acquire i s = (Ret (Some g), s') \<Longrightarrow> lockReach acquire release s0 s' (g # gs)"
| lock_refused: "lockReach acquire release s0 s gs \<Longrightarrow> acquire i s = (r, s') \<Longrightarrow> \<forall>g. r \<noteq> Ret (Some g) \<Longrightarrow> lockReach acquire release s0 s' gs"
| lock_released: "lockReach acquire release s0 s gs \<Longrightarrow> g \<in> set gs \<Longrightarrow> release g s = (Ret (), s') \<Longrightarrow> lockReach acquire release s0 s' (remove1 g gs)"
| lock_kept: "lockReach acquire release s0 s gs \<Longrightarrow> g \<in> set gs \<Longrightarrow> release g s = (r, s') \<Longrightarrow> r \<noteq> Ret () \<Longrightarrow> lockReach acquire release s0 s' gs"

locale exclusive_lock =
  fixes acquire :: "'i \<Rightarrow> ('s, 'g option) prog" and release :: "'g \<Rightarrow> ('s, unit) prog" and holds :: "'s \<Rightarrow> 'g \<Rightarrow> bool"
  assumes acquired: "wp (acquire i) (\<lambda>r s'. \<forall>g. r = Ret (Some g) \<longrightarrow> holds s' g) s"
    and refused: "holds s g \<Longrightarrow> wp (acquire i) (\<lambda>r s'. holds s' g \<and> (\<forall>g'. r \<noteq> Ret (Some g'))) s"
    and kept: "holds s g \<Longrightarrow> wp (release g) (\<lambda>r s'. r \<noteq> Ret () \<longrightarrow> holds s' g) s"
begin

lemma one_guard: "lockReach acquire release s0 s gs \<Longrightarrow> gs = [] \<or> (\<exists>g. gs = [g] \<and> holds s g)"
proof (induction rule: lockReach.induct)
  case (lock_acquired s gs i g s')
  then show ?case using wpD [OF acquired lock_acquired(2)] wpD [OF refused lock_acquired(2)] by auto
next
  case (lock_refused s gs i r s')
  then show ?case using wpD [OF refused lock_refused(2)] by auto
next
  case (lock_kept s gs g r s')
  then show ?case using wpD [OF kept lock_kept(3)] by auto
qed auto

end

section \<open>The kernel lock keeps it\<close>

definition flockHolds :: "flockFs \<Rightarrow> nat \<Rightarrow> bool" where
  "flockHolds f fd \<longleftrightarrow> flockOwner f = Some fd \<and> fd < nextFd f"

definition sureFlock :: "flockEnv \<Rightarrow> flockEnv" where
  "sureFlock E = E\<lparr>unlockFault := \<lambda>_. None, closeFdFault := \<lambda>_. None\<rparr>"

lemma wp_flockCall [wp_simps]: "wp flockCall Q f = Q (Ret (fltick f)) (f\<lparr>fltick := Suc (fltick f)\<rparr>)"
  by (simp add: flockCall_def wp_def)

interpretation kernel_lock: exclusive_lock "AcquireFlock (sureFlock E)" "ReleaseFlock (sureFlock E)" flockHolds for E
  by unfold_locales
     (auto simp: AcquireFlock_def ReleaseFlock_def tryFlock_def closeFd_def flockHolds_def sureFlock_def wp_simps split: option.split flockResult.split)

section \<open>The contents lock keeps it call by call\<close>

text \<open>
  What is assumed of the encodings: a lock info can be read back, and a hash in hexadecimal has no line break. Closing a file
  does not fail.
\<close>

definition goodLock :: "lockEnv \<Rightarrow> bool" where
  "goodLock E \<longleftrightarrow> (\<forall>x b. ToJson (lockCodec E) x = Inr b \<longrightarrow> (\<exists>y. FromJson (lockCodec E) b = Inr y)) \<and>
     (\<forall>b. CHR 0x0A \<notin> set (hexSha256 E b)) \<and> (\<forall>n. closeFault E n = None)"

definition contentHolds :: "lockEnv \<Rightarrow> lockFs \<Rightarrow> FSContentLockGuard \<Rightarrow> bool" where
  "contentHolds E f g \<longleftrightarrow> lockFile f = Some (guardData g) \<and> guardData g \<noteq> '''' \<and> lockHeld E (guardData g)"

lemma wp_lockCall [wp_simps]:
  "wp (lockCall E) Q f = (case lockFault E (ltick f) of
     None \<Rightarrow> Q (Ret (ltick f)) (f\<lparr>ltick := Suc (ltick f)\<rparr>)
   | Some e \<Rightarrow> Q (Err e) (f\<lparr>ltick := Suc (ltick f)\<rparr>))"
  by (simp add: lockCall_def wp_def bind_def fail_def ret_def split: option.split)

lemma wp_closeLock [wp_simps]:
  "wp (closeLock E) Q f = (case closeFault E (ltick f) of
     None \<Rightarrow> Q (Ret ()) (f\<lparr>ltick := Suc (ltick f)\<rparr>)
   | Some e \<Rightarrow> Q (Err e) (f\<lparr>ltick := Suc (ltick f)\<rparr>))"
  by (simp add: closeLock_def wp_def bind_def fail_def ret_def split: option.split)

lemmas lock_defs = openLock_def readLock_def truncateLock_def writeLock_def closeOrDie_def closeAndFail_def

lemma lockBytes_held: "goodLock E \<Longrightarrow> ToJson (lockCodec E) x = Inr b \<Longrightarrow> lockBytes E b \<noteq> '''' \<and> lockHeld E (lockBytes E b)"
  by (fastforce simp: goodLock_def lockBytes_def lockHeld_def Cut_append)

text \<open>Reading takes nothing: the file is as before, or was created empty. Writing on success leaves exactly the new bytes.\<close>

definition lookedAt :: "lockFs \<Rightarrow> lockFs \<Rightarrow> bool" where
  "lookedAt f f' \<longleftrightarrow> lockFile f' = lockFile f \<or> lockFile f = None \<and> lockFile f' = Some ''''"

definition readDone :: "lockEnv \<Rightarrow> lockFs \<Rightarrow> (string \<times> string) option outcome \<Rightarrow> lockFs \<Rightarrow> bool" where
  "readDone E f r f' \<longleftrightarrow> lookedAt f f' \<and> (\<forall>bytes fileBytes. r = Ret (Some (bytes, fileBytes)) \<longrightarrow>
     lockFile f' = Some fileBytes \<and> (fileBytes = '''' \<or> \<not> lockHeld E fileBytes) \<and> (\<exists>x b. ToJson (lockCodec E) x = Inr b \<and> bytes = lockBytes E b))"

lemma readDone_simps [simp]:
  "readDone E f (Err e) f' = lookedAt f f'" "readDone E f (Crash m) f' = lookedAt f f'" "readDone E f (Ret None) f' = lookedAt f f'"
  by (simp_all add: readDone_def)

text \<open>What each call does to the file, as rules for the proofs below.\<close>

lemma wp_openI:
  "(\<And>f'. lookedAt f f' \<Longrightarrow> lockFile f' \<noteq> None \<Longrightarrow> Q (Ret ()) f') \<Longrightarrow> (\<And>e f'. lockFile f' = lockFile f \<Longrightarrow> Q (Err e) f') \<Longrightarrow> wp (openLock E create) Q f"
  by (auto simp: openLock_def lookedAt_def wp_simps split: option.split)

lemma wp_readI:
  "(\<And>f'. lockFile f' = lockFile f \<Longrightarrow> Q (Ret (case lockFile f of Some c \<Rightarrow> c | None \<Rightarrow> '''')) f') \<Longrightarrow>
   (\<And>e f'. lockFile f' = lockFile f \<Longrightarrow> Q (Err e) f') \<Longrightarrow> wp (readLock E) Q f"
  by (auto simp: readLock_def wp_simps split: option.split)

lemma wp_truncateI:
  "(\<And>f'. lockFile f' = Some '''' \<Longrightarrow> Q (Ret ()) f') \<Longrightarrow> (\<And>e f'. lockFile f' = lockFile f \<Longrightarrow> Q (Err e) f') \<Longrightarrow> wp (truncateLock E) Q f"
  by (auto simp: truncateLock_def wp_simps split: option.split)

lemma wp_writeI:
  "(\<And>f'. lockFile f' = Some (b @ drop (length b) (case lockFile f of Some c \<Rightarrow> c | None \<Rightarrow> '''')) \<Longrightarrow> Q (Ret ()) f') \<Longrightarrow>
   (\<And>e f'. Q (Err e) f') \<Longrightarrow> wp (writeLock E b) Q f"
  by (auto simp: writeLock_def wp_simps split: option.split)

lemma wp_lockCallI: "(\<And>n f'. lockFile f' = lockFile f \<Longrightarrow> Q (Ret n) f') \<Longrightarrow> (\<And>e f'. lockFile f' = lockFile f \<Longrightarrow> Q (Err e) f') \<Longrightarrow> wp (lockCall E) Q f"
  by (auto simp: wp_simps split: option.split)

lemma wp_closeI: "(\<And>f'. lockFile f' = lockFile f \<Longrightarrow> Q (Ret ()) f') \<Longrightarrow> (\<And>m f'. lockFile f' = lockFile f \<Longrightarrow> Q (Crash m) f') \<Longrightarrow> wp (closeOrDie E) Q f"
  by (auto simp: closeOrDie_def wp_simps split: option.split)

lemma wp_closeAndFailI:
  "(\<And>e f'. lockFile f' = lockFile f \<Longrightarrow> Q (Err e) f') \<Longrightarrow> (\<And>m f'. lockFile f' = lockFile f \<Longrightarrow> Q (Crash m) f') \<Longrightarrow> wp (closeAndFail E e) Q f"
  by (auto simp: closeAndFail_def wp_seq wp_fail intro!: wp_closeI)

lemmas lock_rules = wp_openI wp_readI wp_truncateI wp_writeI wp_lockCallI wp_closeI wp_closeAndFailI

lemma acquireRead_spec: "wp (acquireRead E holder) (readDone E f) f"
  by (auto simp: acquireRead_def wp_bind wp_seq wp_gets wp_fail wp_ret wp_rewrap wp_lift wp_attempt lookedAt_def readDone_def
    intro!: lock_rules split: option.split sum.split) blast+

definition writeDone :: "string \<Rightarrow> FSContentLockGuard option outcome \<Rightarrow> lockFs \<Rightarrow> bool" where
  "writeDone bytes r f' \<longleftrightarrow> (\<forall>g. r = Ret (Some g) \<longrightarrow> lockFile f' = Some bytes \<and> guardData g = bytes)"

lemma writeDone_simps [simp]:
  "writeDone bytes (Err e) f'" "writeDone bytes (Crash m) f'" "writeDone bytes (Ret None) f'"
  "writeDone bytes (Ret (Some g)) f' \<longleftrightarrow> lockFile f' = Some bytes \<and> guardData g = bytes"
  by (simp_all add: writeDone_def)

lemma acquireWrite_spec: "lockFile f = Some fileBytes \<Longrightarrow> wp (acquireWrite E holder (bytes, fileBytes)) (writeDone bytes) f"
  by (auto simp: acquireWrite_def wp_bind wp_seq wp_ret wp_attempt wp_if intro!: lock_rules)

lemma content_acquired: "goodLock E \<Longrightarrow> wp (AcquireContent E holder) (\<lambda>r f'. \<forall>g. r = Ret (Some g) \<longrightarrow> contentHolds E f' g) f"
  unfolding AcquireContent_def wp_bind
proof (rule wp_mono [OF acquireRead_spec], goal_cases)
  case (1 r f')
  show ?case
  proof (cases "\<exists>bytes fileBytes. r = Ret (Some (bytes, fileBytes))")
    case True
    then obtain bytes fileBytes x b where r: "r = Ret (Some (bytes, fileBytes))" "lockFile f' = Some fileBytes"
        "ToJson (lockCodec E) x = Inr b" "bytes = lockBytes E b"
      using 1(2) by (auto simp: readDone_def)
    then have "contentHolds E f'' g" if "lockFile f'' = Some bytes" "guardData g = bytes" for f'' g
      using lockBytes_held [OF 1(1), of x b] that by (simp add: contentHolds_def)
    then show ?thesis
      by (simp add: r(1)) (rule wp_mono [OF acquireWrite_spec [OF r(2)]], simp add: writeDone_def)
  qed (auto split: outcome.split option.split simp: wp_ret)
qed

lemma content_refused:
  assumes "contentHolds E f g"
  shows "wp (AcquireContent E holder) (\<lambda>r f'. contentHolds E f' g \<and> (\<forall>g'. r \<noteq> Ret (Some g'))) f"
  unfolding AcquireContent_def wp_bind
  by (rule wp_mono [OF acquireRead_spec])
     (use assms in \<open>auto simp: readDone_def lookedAt_def contentHolds_def wp_ret split: outcome.split option.split\<close>)

lemma content_kept:
  assumes "goodLock E" and "contentHolds E f g"
  shows "wp (ReleaseContent E g) (\<lambda>r f'. r \<noteq> Ret () \<longrightarrow> contentHolds E f' g) f"
  using assms
  by (auto simp: ReleaseContent_def wp_bind wp_seq wp_ret wp_rewrap wp_attempt wp_if wp_closeLock contentHolds_def goodLock_def lookedAt_def
    intro!: wp_openI wp_readI wp_truncateI wp_closeAndFailI)

lemma content_exclusive_lock: "goodLock E \<Longrightarrow> exclusive_lock (AcquireContent E) (ReleaseContent E) (contentHolds E)"
  by (simp add: exclusive_lock_def content_acquired content_refused content_kept)

section \<open>Properties\<close>



text \<open>
  C33. The contents lock does not exclude two processes whose calls overlap: both read the file before either writes it,
  and both are given a guard. Nothing has to fail for this.
\<close>

theorem content_lock_race:
  assumes "goodLock E" and "\<And>n. lockFault E n = None" and "\<And>n. lockCancelled E n = None"
    and "\<And>x. \<exists>b. ToJson (lockCodec E) x = Inr b" and "lockFile f = Some ''''"
  shows "\<exists>x f1 y f2 g f3 g' f4. acquireRead E a f = (Ret (Some x), f1) \<and> acquireRead E b f1 = (Ret (Some y), f2) \<and>
    acquireWrite E a x f2 = (Ret (Some g), f3) \<and> acquireWrite E b y f3 = (Ret (Some g'), f4)"
proof -
  obtain enc where enc: "\<And>x. ToJson (lockCodec E) x = Inr (enc x)" using assms(4) by metis
  have close: "closeFault E n = None" for n using assms(1) by (simp add: goodLock_def)
  have read: "\<exists>x n. acquireRead E c h = (Ret (Some (x, '''')), h\<lparr>ltick := n\<rparr>)" if "lockFile h = Some ''''" for c h
    using that by (simp add: acquireRead_def bind_def seq_def gets_def rewrap_def attempt_def lift_def ret_def fail_def openLock_def readLock_def
      lockCall_def assms(2,3) enc) (rule exI, rule refl)
  have write1: "\<exists>g h'. acquireWrite E c (x, '''') h = (Ret (Some g), h')" for c x h
    by (simp add: acquireWrite_def bind_def seq_def gets_def attempt_def ret_def fail_def modify_def writeLock_def closeOrDie_def closeLock_def
      lockCall_def assms(2) close)
  obtain x n where 1: "acquireRead E a f = (Ret (Some (x, '''')), f\<lparr>ltick := n\<rparr>)" using read [OF assms(5)] by blast
  obtain y m where 2: "acquireRead E b (f\<lparr>ltick := n\<rparr>) = (Ret (Some (y, '''')), f\<lparr>ltick := n, ltick := m\<rparr>)"
    using read [of "f\<lparr>ltick := n\<rparr>" b] assms(5) by auto
  from 1 2 write1 show ?thesis by metis
qed

section \<open>Examples\<close>

definition exampleFlock :: flockEnv where
  "exampleFlock = \<lparr>flockCancelled = \<lambda>_. None, openFault = \<lambda>_. None, flockFault = \<lambda>_. None, unlockFault = \<lambda>_. None, closeFdFault = \<lambda>_. None\<rparr>"

definition exampleLockEnv :: lockEnv where
  "exampleLockEnv = \<lparr>lockCancelled = \<lambda>_. None, lockNow = \<lambda>n. int n, lockCodec = \<lparr>ToJson = \<lambda>x. Inr (Holder x), FromJson = \<lambda>b. Inr \<lparr>Holder = b, LockTimestamp = 0\<rparr>\<rparr>,
     hexSha256 = \<lambda>_. ''00'', lockFault = \<lambda>_. None, closeFault = \<lambda>_. None, tornLock = \<lambda>_ _ new. new\<rparr>"

lemma exampleLock_good: "goodLock exampleLockEnv"
  by (simp add: goodLock_def exampleLockEnv_def)



theorem content_lock_race_witness:
  "\<exists>x f1 y f2 g f3 g' f4. acquireRead exampleLockEnv ''a'' \<lparr>lockFile = Some '''', ltick = 0\<rparr> = (Ret (Some x), f1) \<and>
     acquireRead exampleLockEnv ''b'' f1 = (Ret (Some y), f2) \<and>
     acquireWrite exampleLockEnv ''a'' x f2 = (Ret (Some g), f3) \<and> acquireWrite exampleLockEnv ''b'' y f3 = (Ret (Some g'), f4)"
  by (rule content_lock_race [OF exampleLock_good]) (simp_all add: exampleLockEnv_def)

end
