(* ===== verification/ClusterState.thy ===== *)
theory ClusterState
  imports EtcdClient PrivateApi Commands EtcdProcess
begin

text \<open>
  What the controller sees and touches (\<open>pkg/controller\<close>): its own state, the interfaces it is built on (peers, lock,
  control store, backup store, the calls to the other managers and to etcd), and the cluster state it collects in every
  iteration. The interfaces are operations over a world of their own; \<open>history\<close> lists what the controller asked
  for and whether it succeeded. The order in which Go ranges over a map comes from the environment.
  A peer's answer to \<open>GetInfo\<close> and the information of a listed peer are never nil.
\<close>

section \<open>The controller and its world\<close>

record leadershipState =
  leaderToken :: string
  ackedPeers :: "PeerId list"

record EtcdController =
  ctlClusterName :: string
  dnsSuffix :: string
  controlRefreshInterval :: duration
  backupInterval :: duration
  hasLeaderLock :: bool
  leaderLockGuard :: "nat option"
  leadershipOf :: "leadershipState option"
  peerState :: "(string \<times> time) list"
  lastBackup :: time
  controlCommands :: "vfsCommand list"
  controlLastRead :: time
  controlClusterSpec :: "ClusterSpec option"
  disableEtcdTLS :: bool

datatype action =
    JoinSent PeerId JoinClusterRequest bool
  | ReconfigureSent PeerId ReconfigureRequest bool
  | StopSent PeerId "CommonRequestHeader option" bool
  | BackupSent PeerId DoBackupRequest bool
  | RestoreSent PeerId DoRestoreRequest bool
  | EndpointsSent PeerId "MemberMapInfo list" bool
  | MemberAdded "string list" bool
  | MemberRemoved string bool
  | PeerURLsSet string "string list" bool
  | SpecSet ClusterSpec bool
  | CreatedMarked bool
  | CommandAdded Command bool
  | CommandRemoved vfsCommand bool

record 'w ctlWorld =
  ctl :: EtcdController
  history :: "action list"
  ctlTick :: nat
  system :: 'w

record 'w ctlEnv =
  myPeerId :: PeerId
  peersOf :: "('w, PeerInfo list) prog"
  becomeLeader :: "('w, PeerId list \<times> string) prog"
  assertLeadership :: "string \<Rightarrow> ('w, unit) prog"
  acquireLock :: "string \<Rightarrow> ('w, nat option) prog"
  releaseLock :: "nat \<Rightarrow> ('w, unit) prog"
  storeList :: "('w, vfsCommand list) prog"
  storeGetSpec :: "('w, ClusterSpec option) prog"
  storeSetSpec :: "ClusterSpec \<Rightarrow> ('w, unit) prog"
  storeIsNew :: "('w, bool) prog"
  storeMark :: "('w, unit) prog"
  storeAdd :: "Command \<Rightarrow> ('w, unit) prog"
  storeRemove :: "vfsCommand \<Rightarrow> ('w, unit) prog"
  backupSpec :: string
  backupInfo :: "string \<Rightarrow> ('w, BackupInfo) prog"
  backupMaintenance :: "('w, unit) prog"
  callGetInfo :: "PeerId \<Rightarrow> ('w, GetInfoResponse) prog"
  callUpdateEndpoints :: "PeerId \<Rightarrow> MemberMapInfo list \<Rightarrow> ('w, unit) prog"
  callJoinCluster :: "PeerId \<Rightarrow> JoinClusterRequest \<Rightarrow> ('w, unit) prog"
  callReconfigure :: "PeerId \<Rightarrow> ReconfigureRequest \<Rightarrow> ('w, unit) prog"
  callStopEtcd :: "PeerId \<Rightarrow> CommonRequestHeader option \<Rightarrow> ('w, unit) prog"
  callDoBackup :: "PeerId \<Rightarrow> DoBackupRequest \<Rightarrow> ('w, string) prog"
  callDoRestore :: "PeerId \<Rightarrow> DoRestoreRequest \<Rightarrow> ('w, unit) prog"
  clientFor :: "string list \<Rightarrow> goerr + 'w etcdService"
  ctlNow :: "nat \<Rightarrow> time"
  mapOrder :: "nat \<Rightarrow> nat list"
  tokenAt :: "nat \<Rightarrow> string option"
  randIntn :: "nat \<Rightarrow> nat \<Rightarrow> nat"
  ctlOs :: nodeos

definition inSystem :: "('w, 'a) prog \<Rightarrow> ('w ctlWorld, 'a) prog" where
  "inSystem p = (\<lambda>w. case p (system w) of (r, s) \<Rightarrow> (r, w\<lparr>system := s\<rparr>))"

definition noted :: "(bool \<Rightarrow> action) \<Rightarrow> ('w, 'a) prog \<Rightarrow> ('w ctlWorld, 'a) prog" where
  "noted act p = (\<lambda>w. case inSystem p w of
     (r, w') \<Rightarrow> (r, w'\<lparr>history := history w' @ [act (case r of Ret _ \<Rightarrow> True | _ \<Rightarrow> False)]\<rparr>))"

definition tickC :: "('w ctlWorld, nat) prog" where
  "tickC = (\<lambda>w. (Ret (ctlTick w), w\<lparr>ctlTick := Suc (ctlTick w)\<rparr>))"

definition rangeOver :: "'w ctlEnv \<Rightarrow> 'x list \<Rightarrow> ('w ctlWorld, 'x list) prog" where
  "rangeOver E m = bind tickC (\<lambda>n. ret (go_range (mapOrder E n) m))"

definition nowC :: "'w ctlEnv \<Rightarrow> ('w ctlWorld, time) prog" where
  "nowC E = bind tickC (\<lambda>n. ret (ctlNow E n))"

definition updCtl :: "(EtcdController \<Rightarrow> EtcdController) \<Rightarrow> ('w ctlWorld, unit) prog" where
  "updCtl f = modify (\<lambda>w. w\<lparr>ctl := f (ctl w)\<rparr>)"

fun collect :: "('x \<Rightarrow> ('s, 'a) prog) \<Rightarrow> 'x list \<Rightarrow> ('s, 'a list) prog" where
  "collect f [] = ret []"
| "collect f (x # xs) = bind (f x) (\<lambda>y. bind (collect f xs) (\<lambda>ys. ret (y # ys)))"

section \<open>The cluster state\<close>

record etcdClusterPeerInfo =
  clusterPeer :: PeerInfo
  info :: GetInfoResponse

type_synonym memberTable = "(string \<times> EtcdProcessMember) list"

record etcdClusterState =
  members :: memberTable
  clusterPeers :: "(PeerId \<times> etcdClusterPeerInfo) list"
  healthyMembers :: memberTable

text \<open>The id of a \<open>peer\<close> of the controller is the id of its info.\<close>

abbreviation PeerIdOf :: "etcdClusterPeerInfo \<Rightarrow> PeerId" where
  "PeerIdOf p \<equiv> InfoId (clusterPeer p)"

definition firstNamed :: "string \<Rightarrow> memberTable \<Rightarrow> EtcdProcessMember option" where
  "firstNamed name ms = map_option snd (List.find (\<lambda>(_, m). MemberName m = name) ms)"

definition FindMember :: "'w ctlEnv \<Rightarrow> etcdClusterState \<Rightarrow> PeerId \<Rightarrow> ('w ctlWorld, EtcdProcessMember option) prog" where
  "FindMember E cs pid = bind (rangeOver E (members cs)) (\<lambda>ms. ret (firstNamed pid ms))"

definition FindHealthyMember :: "'w ctlEnv \<Rightarrow> etcdClusterState \<Rightarrow> PeerId \<Rightarrow> ('w ctlWorld, EtcdProcessMember option) prog" where
  "FindHealthyMember E cs pid = bind (rangeOver E (healthyMembers cs)) (\<lambda>ms. ret (firstNamed pid ms))"

definition FindPeer :: "'w ctlEnv \<Rightarrow> etcdClusterState \<Rightarrow> EtcdProcessMember \<Rightarrow> ('w ctlWorld, etcdClusterPeerInfo option) prog" where
  "FindPeer E cs member = bind (rangeOver E (clusterPeers cs)) (\<lambda>ps.
     ret (map_option snd (List.find (\<lambda>(pid, _). MemberName member = pid) ps)))"

definition activeUrls :: "EtcdNode \<Rightarrow> EtcdState option \<Rightarrow> string list" where
  "activeUrls node st = (case st of
     Some s \<Rightarrow> if Quarantined s then QuarantinedClientUrls node else ClientUrls node
   | None \<Rightarrow> ClientUrls node)"

definition newEtcdClient :: "'w ctlEnv \<Rightarrow> etcdClusterState \<Rightarrow> EtcdProcessMember \<Rightarrow> ('w ctlWorld, goerr + 'w etcdService) prog" where
  "newEtcdClient E cs member = bind (rangeOver E (clusterPeers cs)) (\<lambda>ps.
     let node = fold (\<lambda>(_, p) found. case NodeConfiguration (info p) of
           Some n \<Rightarrow> if Name n = MemberName member then Some (n, InfoState (info p)) else found
         | None \<Rightarrow> found) ps None
     in ret (clientFor E (case node of None \<Rightarrow> ClientURLs member | Some (n, st) \<Rightarrow> activeUrls n st)))"

text \<open>Ask the members in turn until one does it.\<close>

definition viaMember :: "'w ctlEnv \<Rightarrow> etcdClusterState \<Rightarrow> (bool \<Rightarrow> action) \<Rightarrow> ('w etcdService \<Rightarrow> ('w, unit) prog) \<Rightarrow> EtcdProcessMember \<Rightarrow> ('w ctlWorld, unit option) prog" where
  "viaMember E cs act request member = bind (newEtcdClient E cs member) (\<lambda>c. case c of
     Inl _ \<Rightarrow> ret None
   | Inr svc \<Rightarrow> bind (attempt (noted act (request svc))) (\<lambda>r. case r of Inl _ \<Rightarrow> ret None | Inr _ \<Rightarrow> ret (Some ())))"

definition etcdAddMember :: "'w ctlEnv \<Rightarrow> etcdClusterState \<Rightarrow> EtcdNode \<Rightarrow> ('w ctlWorld, unit) prog" where
  "etcdAddMember E cs nodeInfo = bind (rangeOver E (members cs)) (\<lambda>ms.
     bind (forReturn ms (\<lambda>(_, member). viaMember E cs (MemberAdded (PeerUrls nodeInfo)) (\<lambda>svc. AddMember svc (PeerUrls nodeInfo)) member))
       (\<lambda>r. case r of None \<Rightarrow> fail (Errorf ''unable to reach any cluster member, when trying to add new member'') | Some _ \<Rightarrow> ret ()))"

definition etcdRemoveMember :: "'w ctlEnv \<Rightarrow> etcdClusterState \<Rightarrow> EtcdProcessMember \<Rightarrow> ('w ctlWorld, unit) prog" where
  "etcdRemoveMember E cs victim = bind (rangeOver E (members cs)) (\<lambda>ms.
     bind (forReturn ms (\<lambda>(_, member). viaMember E cs (MemberRemoved (MemberID victim)) (\<lambda>svc. RemoveMember svc victim) member))
       (\<lambda>r. case r of None \<Rightarrow> fail (Errorf ''unable to reach any cluster member, when trying to remove member'') | Some _ \<Rightarrow> ret ()))"

definition isTLSEnabled :: "EtcdProcessMember \<Rightarrow> bool" where
  "isTLSEnabled member = (list_ex (\<lambda>u. HasPrefix u ''https://'') (ClientURLs member) \<or> list_ex (\<lambda>u. HasPrefix u ''https://'') (PeerURLs member))"

text \<open>The members as the first reachable peer lists them; none when no peer can be reached.\<close>

definition listFrom :: "'w ctlEnv \<Rightarrow> etcdClusterPeerInfo \<Rightarrow> ('w ctlWorld, EtcdProcessMember list option) prog" where
  "listFrom E p = (case (NodeConfiguration (info p), InfoState (info p)) of
       (Some node, Some st) \<Rightarrow>
         (let clientUrls = activeUrls node (Some st) in
          if clientUrls = [] then ret None
          else (case clientFor E clientUrls of
              Inl _ \<Rightarrow> ret None
            | Inr svc \<Rightarrow> bind (attempt (inSystem (ListMembers svc))) (\<lambda>r. case r of Inl _ \<Rightarrow> ret None | Inr ms \<Rightarrow> ret (Some ms))))
     | _ \<Rightarrow> ret None)"

definition memberTableOf :: "EtcdProcessMember list \<Rightarrow> ('w ctlWorld, memberTable) prog" where
  "memberTableOf ms = (if list_ex (\<lambda>m. MemberID m = '''') ms then crash ''etcd member did not have ID''
     else ret (fold (\<lambda>m. put (MemberID m) m) ms []))"

definition checkHealth :: "'w ctlEnv \<Rightarrow> etcdClusterState \<Rightarrow> string \<times> EtcdProcessMember \<Rightarrow> ('w ctlWorld, memberTable) prog" where
  "checkHealth E cs = (\<lambda>(memberId, member). bind (newEtcdClient E cs member) (\<lambda>c. case c of
       Inl _ \<Rightarrow> ret []
     | Inr svc \<Rightarrow> bind (attempt (inSystem (ListMembers svc))) (\<lambda>r. case r of Inl _ \<Rightarrow> ret [] | Inr _ \<Rightarrow> ret [(memberId, member)])))"

definition updateClusterState :: "'w ctlEnv \<Rightarrow> PeerInfo list \<Rightarrow> ('w ctlWorld, etcdClusterState) prog" where
  "updateClusterState E ps =
     bind (collect (\<lambda>p. bind (rewrap (Wrapf ''error from GetInfo from peer'') (inSystem (callGetInfo E (InfoId p)))) (\<lambda>i.
         ret (InfoId p, \<lparr>clusterPeer = p, info = i\<rparr>))) ps) (\<lambda>infos.
     let table = fold (\<lambda>(i, p). put i p) infos [] in
     bind (rangeOver E table) (\<lambda>order.
     bind (forReturn order (\<lambda>(_, p). listFrom E p)) (\<lambda>found.
     bind (case found of None \<Rightarrow> ret [] | Some ms \<Rightarrow> memberTableOf ms) (\<lambda>memberTable.
     let cs = \<lparr>members = memberTable, clusterPeers = table, healthyMembers = []\<rparr> in
     bind (rangeOver E memberTable) (\<lambda>ms.
     bind (collect (checkHealth E cs) ms) (\<lambda>healthy.
       ret (cs\<lparr>healthyMembers := concat healthy\<rparr>)))))))"

end
