(* ===== verification/Controller.thy ===== *)
theory Controller
  imports ClusterState
begin

text \<open>
  The controller (\<open>pkg/controller\<close>): requests, control store, backups, creation of a cluster, growing and shrinking,
  reconfiguration, restore and upgrade, and the control loop that chooses between them in every iteration. A function that returns
  a progress flag with an error is modelled by the error; the flag only decides whether the loop sleeps before the next iteration.
\<close>

section \<open>Requests\<close>

definition quorumSize :: "int \<Rightarrow> int" where
  "quorumSize desiredMemberCount = (if 0 \<le> desiredMemberCount then desiredMemberCount div 2 else - ((- desiredMemberCount) div 2)) + 1"

definition buildHeader :: "('w ctlWorld, CommonRequestHeader) prog" where
  "buildHeader = bind (gets ctl) (\<lambda>m. case leadershipOf m of
     None \<Rightarrow> crash ''nil pointer dereference''
   | Some l \<Rightarrow> ret \<lparr>HeaderToken = leaderToken l, HeaderCluster = ctlClusterName m\<rparr>)"

definition rpcUpdateEndpoints :: "'w ctlEnv \<Rightarrow> MemberMapInfo list \<Rightarrow> etcdClusterPeerInfo \<Rightarrow> ('w ctlWorld, unit) prog" where
  "rpcUpdateEndpoints E mm p = noted (EndpointsSent (PeerIdOf p) mm) (callUpdateEndpoints E (PeerIdOf p) mm)"

definition rpcJoinCluster :: "'w ctlEnv \<Rightarrow> JoinClusterRequest \<Rightarrow> etcdClusterPeerInfo \<Rightarrow> ('w ctlWorld, unit) prog" where
  "rpcJoinCluster E r p = noted (JoinSent (PeerIdOf p) r) (callJoinCluster E (PeerIdOf p) r)"

definition rpcReconfigure :: "'w ctlEnv \<Rightarrow> ReconfigureRequest \<Rightarrow> etcdClusterPeerInfo \<Rightarrow> ('w ctlWorld, unit) prog" where
  "rpcReconfigure E r p = noted (ReconfigureSent (PeerIdOf p) r) (callReconfigure E (PeerIdOf p) r)"

definition rpcStopEtcd :: "'w ctlEnv \<Rightarrow> CommonRequestHeader option \<Rightarrow> etcdClusterPeerInfo \<Rightarrow> ('w ctlWorld, unit) prog" where
  "rpcStopEtcd E h p = noted (StopSent (PeerIdOf p) h) (callStopEtcd E (PeerIdOf p) h)"

definition rpcDoBackup :: "'w ctlEnv \<Rightarrow> DoBackupRequest \<Rightarrow> etcdClusterPeerInfo \<Rightarrow> ('w ctlWorld, string) prog" where
  "rpcDoBackup E r p = noted (BackupSent (PeerIdOf p) r) (callDoBackup E (PeerIdOf p) r)"

definition rpcDoRestore :: "'w ctlEnv \<Rightarrow> DoRestoreRequest \<Rightarrow> etcdClusterPeerInfo \<Rightarrow> ('w ctlWorld, unit) prog" where
  "rpcDoRestore E r p = noted (RestoreSent (PeerIdOf p) r) (callDoRestore E (PeerIdOf p) r)"

section \<open>The control store\<close>

definition refreshControlStore :: "'w ctlEnv \<Rightarrow> duration \<Rightarrow> ('w ctlWorld, unit) prog" where
  "refreshControlStore E ttl = bind (nowC E) (\<lambda>now. bind (gets ctl) (\<lambda>m.
     if ttl \<noteq> 0 \<and> timeBefore now (timeAdd (controlLastRead m) ttl) then ret ()
     else bind (inSystem (storeList E)) (\<lambda>cmds. bind (inSystem (storeGetSpec E)) (\<lambda>spec.
       updCtl (\<lambda>m. m\<lparr>controlCommands := cmds, controlLastRead := now, controlClusterSpec := spec\<rparr>)))))"

definition getRestoreBackupCommand :: "EtcdController \<Rightarrow> vfsCommand option" where
  "getRestoreBackupCommand m = List.find (\<lambda>c. CommandRestore (cmdData c) \<noteq> None) (controlCommands m)"

definition removeCommand :: "'w ctlEnv \<Rightarrow> vfsCommand \<Rightarrow> ('w ctlWorld, unit) prog" where
  "removeCommand E c = bind (attempt (noted (CommandRemoved c) (storeRemove E c))) (\<lambda>r.
     seq (updCtl (\<lambda>m. m\<lparr>controlCommands := [], controlLastRead := 0\<rparr>)) (lift r))"

definition writeClusterSpec :: "'w ctlEnv \<Rightarrow> ClusterSpec \<Rightarrow> ('w ctlWorld, unit) prog" where
  "writeClusterSpec E spec = noted (SpecSet spec) (storeSetSpec E spec)"

section \<open>Backups and the member map\<close>

definition backupOn :: "'w ctlEnv \<Rightarrow> ClusterSpec \<Rightarrow> etcdClusterState \<Rightarrow> EtcdProcessMember \<Rightarrow> ('w ctlWorld, string option) prog" where
  "backupOn E spec cs member = bind (FindPeer E cs member) (\<lambda>p. case p of
     None \<Rightarrow> ret None
   | Some p \<Rightarrow> bind buildHeader (\<lambda>h.
       bind (attempt (rpcDoBackup E \<lparr>BackupHeader = Some h, BackupStorage = backupSpec E,
           BackupReqInfo = Some \<lparr>BackupVersion = '''', BackupTimestamp = 0, BackupSpec = Some spec\<rparr>\<rparr> p)) (\<lambda>r. case r of
         Inl _ \<Rightarrow> ret None
       | Inr name \<Rightarrow> ret (Some name))))"

definition doClusterBackup :: "'w ctlEnv \<Rightarrow> ClusterSpec \<Rightarrow> etcdClusterState \<Rightarrow> ('w ctlWorld, string) prog" where
  "doClusterBackup E spec cs = bind (rangeOver E (healthyMembers cs)) (\<lambda>ms.
     bind (forReturn ms (\<lambda>(_, member). backupOn E spec cs member))
       (\<lambda>r. case r of None \<Rightarrow> fail (Errorf ''no peer was able to perform a backup'') | Some name \<Rightarrow> ret name))"

definition maybeBackup :: "'w ctlEnv \<Rightarrow> ClusterSpec \<Rightarrow> etcdClusterState \<Rightarrow> ('w ctlWorld, unit) prog" where
  "maybeBackup E spec cs = bind (nowC E) (\<lambda>now. bind (gets ctl) (\<lambda>m.
     if backupInterval m < timeSub now (lastBackup m)
     then bind (doClusterBackup E spec cs) (\<lambda>_.
       seq (updCtl (\<lambda>m. m\<lparr>lastBackup := now\<rparr>)) (bind (attempt (inSystem (backupMaintenance E))) (\<lambda>_. ret ())))
     else ret ()))"

definition memberMapInfo :: "EtcdController \<Rightarrow> string \<Rightarrow> PeerInfo \<Rightarrow> MemberMapInfo" where
  "memberMapInfo m name p = \<lparr>MapName = name, MapDns = (if dnsSuffix m \<noteq> '''' then name @ withDot (dnsSuffix m) else ''''),
     MapAddresses = Endpoints p\<rparr>"

definition buildMemberMap :: "'w ctlEnv \<Rightarrow> etcdClusterState \<Rightarrow> ('w ctlWorld, MemberMapInfo list) prog" where
  "buildMemberMap E cs = bind (rangeOver E (clusterPeers cs)) (\<lambda>ps. gets (\<lambda>w.
     concat (map (\<lambda>(_, p). case (InfoState (info p), NodeConfiguration (info p)) of
         (Some _, Some node) \<Rightarrow> [memberMapInfo (ctl w) (Name node) (clusterPeer p)]
       | _ \<Rightarrow> []) ps)))"

text \<open>The result is the number of peers that could not be reached.\<close>

definition broadcastMemberMap :: "'w ctlEnv \<Rightarrow> etcdClusterState \<Rightarrow> MemberMapInfo list \<Rightarrow> ('w ctlWorld, nat) prog" where
  "broadcastMemberMap E cs mm = bind (rangeOver E (clusterPeers cs)) (\<lambda>ps.
     bind (collect (\<lambda>(_, p). attempt (rpcUpdateEndpoints E mm p)) ps) (\<lambda>rs. ret (length (filter isl rs))))"

section \<open>Creating a cluster\<close>

definition clusterNode :: "bool \<Rightarrow> EtcdNode \<Rightarrow> EtcdNode" where
  "clusterNode disableTLS node =
     (if disableTLS then node\<lparr>PeerUrls := RewriteScheme (PeerUrls node) ''https://'' ''http://'',
        ClientUrls := RewriteScheme (ClientUrls node) ''https://'' ''http://'', TlsEnabled := False\<rparr>
      else node\<lparr>PeerUrls := RewriteScheme (PeerUrls node) ''http://'' ''https://'',
        ClientUrls := RewriteScheme (ClientUrls node) ''http://'' ''https://'', TlsEnabled := True\<rparr>)"

fun propose :: "int \<Rightarrow> 'p list \<Rightarrow> 'p list \<Rightarrow> 'p list" where
  "propose desired acc [] = acc"
| "propose desired acc (p # ps) = (let acc' = acc @ [p] in if int (length acc') = desired then acc' else propose desired acc' ps)"

definition proposedNode :: "etcdClusterPeerInfo \<Rightarrow> ('w ctlWorld, EtcdNode \<times> MemberMapInfo) prog" where
  "proposedNode p = (case NodeConfiguration (info p) of
     None \<Rightarrow> crash ''nil pointer dereference''
   | Some node \<Rightarrow> gets (\<lambda>w. (clusterNode (disableEtcdTLS (ctl w)) node, memberMapInfo (ctl w) (Name node) (clusterPeer p))))"

definition stopRunning :: "'w ctlEnv \<Rightarrow> etcdClusterState \<Rightarrow> ('w ctlWorld, unit) prog" where
  "stopRunning E cs = bind (rangeOver E (clusterPeers cs)) (\<lambda>ps. forM ps (\<lambda>(_, p).
     if InfoState (info p) \<noteq> None
     then bind buildHeader (\<lambda>h. rewrap (Wrapf ''error stopping etcd peer'') (rpcStopEtcd E (Some h) p))
     else ret ()))"

definition joinAll :: "'w ctlEnv \<Rightarrow> Phase \<Rightarrow> string \<Rightarrow> string \<Rightarrow> EtcdNode list \<Rightarrow> etcdClusterPeerInfo list \<Rightarrow> ('w ctlWorld, unit) prog" where
  "joinAll E ph token version nodes ps = forM ps (\<lambda>p. bind buildHeader (\<lambda>h.
     rewrap (Wrapf ''error from JoinClusterRequest'')
       (rpcJoinCluster E \<lparr>JoinHeader = Some h, JoinPhase = ph, JoinToken = token, JoinNodes = nodes, JoinVersion = version\<rparr> p)))"

definition randomToken :: "'w ctlEnv \<Rightarrow> ('w ctlWorld, string) prog" where
  "randomToken E = bind tickC (\<lambda>n. case tokenAt E n of None \<Rightarrow> crash ''error generating random token'' | Some t \<Rightarrow> ret t)"

definition startProposal :: "'w ctlEnv \<Rightarrow> etcdClusterState \<Rightarrow> ClusterSpec \<Rightarrow> string \<Rightarrow> etcdClusterPeerInfo list \<Rightarrow> ('w ctlWorld, bool) prog" where
  "startProposal E cs spec token proposal =
     bind (collect proposedNode proposal) (\<lambda>nodes.
     seq (stopRunning E cs)
     (bind (broadcastMemberMap E cs (map snd nodes)) (\<lambda>errors.
       if errors \<noteq> 0 then fail (Errorf ''unable to broadcast member map'')
       else seq (joinAll E PHASE_PREPARE token (SpecVersion spec) (map fst nodes) proposal)
         (seq (joinAll E PHASE_INITIAL_CLUSTER token (SpecVersion spec) (map fst nodes) proposal)
           (seq (writeClusterSpec E spec) (ret True))))))"

definition createNewCluster :: "'w ctlEnv \<Rightarrow> etcdClusterState \<Rightarrow> ClusterSpec \<Rightarrow> ('w ctlWorld, bool) prog" where
  "createNewCluster E cs spec =
     (let desired = MemberCount spec; n = int (length (clusterPeers cs)) in
      if n < quorumSize desired then ret False
      else if n < desired \<and> quorumSize n \<noteq> quorumSize desired then ret False
      else bind (randomToken E) (\<lambda>token. bind (rangeOver E (clusterPeers cs)) (\<lambda>ps.
        let proposal = propose desired [] (map snd ps) in
        if int (length proposal) < desired \<and> quorumSize (int (length proposal)) < quorumSize desired
        then crash ''Need to add dummy peers to force quorum size''
        else startProposal E cs spec token proposal)))"

section \<open>Growing and shrinking\<close>

definition clustered :: "etcdClusterPeerInfo \<Rightarrow> bool" where
  "clustered p = (case InfoState (info p) of Some st \<Rightarrow> Cluster st \<noteq> None | None \<Rightarrow> False)"

definition idlePeers :: "'w ctlEnv \<Rightarrow> etcdClusterState \<Rightarrow> ('w ctlWorld, etcdClusterPeerInfo list) prog" where
  "idlePeers E cs = bind (rangeOver E (clusterPeers cs)) (\<lambda>ps. ret (filter (\<lambda>p. \<not> clustered p) (map snd ps)))"

text \<open>The token and version of some peer that is part of a cluster; the last one met.\<close>

definition tokenOfPeers :: "etcdClusterPeerInfo list \<Rightarrow> string \<times> string" where
  "tokenOfPeers ps = fold (\<lambda>p found. case InfoState (info p) of
       None \<Rightarrow> found
     | Some st \<Rightarrow> (case Cluster st of
         None \<Rightarrow> found
       | Some c \<Rightarrow> if ClusterToken c \<noteq> '''' then (ClusterToken c, StateVersion st) else found)) ps ('''', '''')"

definition memberNode :: "EtcdProcessMember \<Rightarrow> EtcdNode" where
  "memberNode m = \<lparr>Name = MemberName m, PeerUrls = PeerURLs m, ClientUrls = ClientURLs m, QuarantinedClientUrls = [], TlsEnabled = isTLSEnabled m\<rparr>"

definition joinPeer :: "'w ctlEnv \<Rightarrow> etcdClusterState \<Rightarrow> etcdClusterPeerInfo \<Rightarrow> string \<Rightarrow> string \<Rightarrow> EtcdNode \<Rightarrow> EtcdNode list \<Rightarrow> ('w ctlWorld, bool) prog" where
  "joinPeer E cs p token version node nodes =
     seq (joinAll E PHASE_PREPARE token version nodes [p])
     (bind (attempt (etcdAddMember E cs node)) (\<lambda>r. case r of
        Inl e \<Rightarrow> bind buildHeader (\<lambda>h.
          bind (attempt (rpcJoinCluster E \<lparr>JoinHeader = Some h, JoinPhase = PHASE_CANCEL_PREPARE, JoinToken = token, JoinNodes = [], JoinVersion = ''''\<rparr> p))
            (\<lambda>_. fail (Wrapf ''error adding peer to cluster'' e)))
      | Inr _ \<Rightarrow> seq (joinAll E PHASE_JOIN_EXISTING token version nodes [p]) (ret True)))"

definition addPeer :: "'w ctlEnv \<Rightarrow> etcdClusterState \<Rightarrow> etcdClusterPeerInfo \<Rightarrow> ('w ctlWorld, bool) prog" where
  "addPeer E cs p =
     bind (rangeOver E (clusterPeers cs)) (\<lambda>ps.
     case tokenOfPeers (map snd ps) of (token, version) \<Rightarrow>
       if token = '''' then fail (Errorf ''unable to determine cluster token'')
       else bind (rangeOver E (members cs)) (\<lambda>ms.
         case NodeConfiguration (info p) of
           None \<Rightarrow> crash ''nil pointer dereference''
         | Some node \<Rightarrow> bind (gets ctl) (\<lambda>m.
             joinPeer E cs p token version node (map (memberNode \<circ> snd) ms @ [clusterNode (disableEtcdTLS m) node]))))"

definition addNodeToCluster :: "'w ctlEnv \<Rightarrow> ClusterSpec \<Rightarrow> etcdClusterState \<Rightarrow> ('w ctlWorld, bool) prog" where
  "addNodeToCluster E spec cs =
     (if int (length (healthyMembers cs)) < quorumSize (int (length (members cs)))
      then fail (Errorf ''can't expand cluster - don't have quorum'')
      else bind (rangeOver E (clusterPeers cs)) (\<lambda>ps.
        if members cs \<noteq> [] \<and> list_ex (\<lambda>(_, p). clustered p \<and> NodeConfiguration (info p) = None) ps
        then crash ''nil pointer dereference''
        else let idle = filter (\<lambda>p. \<not> clustered p) (map snd ps) in
          if idle = [] then ret False
          else seq (if members cs \<noteq> [] then bind (rewrap (Wrapf ''failed to backup (before adding peer)'') (doClusterBackup E spec cs)) (\<lambda>_. ret ()) else ret ())
            (bind tickC (\<lambda>n. addPeer E cs (idle ! (randIntn E n (length idle) mod length idle))))))"

definition removeUnhealthyDeadline :: duration where
  "removeUnhealthyDeadline = Minute"

text \<open>The first unhealthy member in the order of the range that may go: one that was unhealthy long enough, or any when shrinking.\<close>

fun pickVictim :: "bool \<Rightarrow> time \<Rightarrow> (string \<times> time) list \<Rightarrow> memberTable \<Rightarrow> memberTable \<Rightarrow> ('w ctlWorld, EtcdProcessMember option) prog" where
  "pickVictim removeHealthy now seen healthy [] = ret None"
| "pickVictim removeHealthy now seen healthy ((memberId, member) # ms) =
     (if map_of healthy memberId \<noteq> None then pickVictim removeHealthy now seen healthy ms
      else if removeHealthy then ret (Some member)
      else (case map_of seen memberId of
          None \<Rightarrow> crash ''peerState unexpectedly nil''
        | Some lastHealthy \<Rightarrow>
            if timeSub now lastHealthy < removeUnhealthyDeadline then pickVictim removeHealthy now seen healthy ms
            else ret (Some member)))"

definition chooseVictim :: "'w ctlEnv \<Rightarrow> etcdClusterState \<Rightarrow> bool \<Rightarrow> ('w ctlWorld, EtcdProcessMember option) prog" where
  "chooseVictim E cs removeHealthy = bind (nowC E) (\<lambda>now. bind (gets ctl) (\<lambda>m.
     bind (if length (healthyMembers cs) < length (members cs)
           then bind (rangeOver E (members cs)) (pickVictim removeHealthy now (peerState m) (healthyMembers cs)) else ret None) (\<lambda>victim.
       case victim of
         Some v \<Rightarrow> ret (Some v)
       | None \<Rightarrow> if \<not> removeHealthy then ret None
           else bind (rangeOver E (members cs)) (\<lambda>ms. case ms of
               [] \<Rightarrow> fail (Errorf ''unable to pick a member to remove'')
             | (_, v) # _ \<Rightarrow> ret (Some v)))))"

definition removeNodeFromCluster :: "'w ctlEnv \<Rightarrow> ClusterSpec \<Rightarrow> etcdClusterState \<Rightarrow> bool \<Rightarrow> ('w ctlWorld, bool) prog" where
  "removeNodeFromCluster E spec cs removeHealthy = bind (chooseVictim E cs removeHealthy) (\<lambda>victim. case victim of
     None \<Rightarrow> ret False
   | Some v \<Rightarrow> bind (rewrap (Wrapf ''failed to backup (before adding peer)'') (doClusterBackup E spec cs)) (\<lambda>_.
       seq (rewrap (Wrapf ''failed to remove member'') (etcdRemoveMember E cs v)) (ret True)))"

section \<open>Reconfiguring\<close>

definition updateQuarantine :: "'w ctlEnv \<Rightarrow> etcdClusterState \<Rightarrow> bool \<Rightarrow> ('w ctlWorld, bool) prog" where
  "updateQuarantine E cs quarantined = bind (rangeOver E (clusterPeers cs)) (\<lambda>ps.
     bind (collect (\<lambda>(pid, p). bind (FindMember E cs pid) (\<lambda>member. case member of
         None \<Rightarrow> ret False
       | Some _ \<Rightarrow> bind buildHeader (\<lambda>h. seq (rewrap (Wrapf ''error reconfiguring peer'')
           (rpcReconfigure E \<lparr>ReconfHeader = Some h, SetEtcdVersion = '''', ReconfQuarantined = quarantined, EnableTls = False\<rparr> p)) (ret True)))) ps)
       (\<lambda>changed. ret (list_ex (\<lambda>b. b) changed)))"

definition updatePeerURLs :: "'w ctlEnv \<Rightarrow> PeerId \<Rightarrow> EtcdNode \<Rightarrow> EtcdState \<Rightarrow> string list \<Rightarrow> ('w ctlWorld, bool) prog" where
  "updatePeerURLs E pid node st setPeerURLs =
     (if setPeerURLs = [] then ret False
      else bind (rewrap (Wrapf ''unable to reach peer'') (lift (clientFor E (activeUrls node (Some st))))) (\<lambda>svc.
        bind (rewrap (Wrapf ''error listing members on peer'') (inSystem (ListMembers svc))) (\<lambda>ms.
          case filter (\<lambda>m. MemberName m = pid) ms of
            [] \<Rightarrow> fail (Errorf ''peer had no member in cluster, can't reconfigure peerUrls'')
          | m # rest \<Rightarrow> (let member = last (m # rest) in
              seq (rewrap (Wrapf ''error reconfiguring peer with peerUrls'')
                (noted (PeerURLsSet (MemberID member) setPeerURLs) (SetPeerURLs svc member setPeerURLs))) (ret True)))))"

definition enableTLS :: "'w ctlEnv \<Rightarrow> etcdClusterPeerInfo \<Rightarrow> EtcdState \<Rightarrow> ('w ctlWorld, bool option) prog" where
  "enableTLS E p st = bind buildHeader (\<lambda>h. seq (rewrap (Wrapf ''error reconfiguring peer'')
     (rpcReconfigure E \<lparr>ReconfHeader = Some h, SetEtcdVersion = '''', ReconfQuarantined = Quarantined st, EnableTls = True\<rparr> p)) (ret (Some True)))"

text \<open>One peer of \<open>reconcileTLS\<close>; \<open>Some\<close> is the value the loop returns with, \<open>None\<close> goes to the next peer.\<close>

definition reconcilePeer :: "'w ctlEnv \<Rightarrow> etcdClusterState \<Rightarrow> PeerId \<times> etcdClusterPeerInfo \<Rightarrow> ('w ctlWorld, bool option) prog" where
  "reconcilePeer E cs = (\<lambda>(pid, p). case (NodeConfiguration (info p), InfoState (info p)) of
       (Some conf, Some st) \<Rightarrow> (case Cluster st of
         None \<Rightarrow> ret None
       | Some cluster \<Rightarrow> (case filter (\<lambda>n. Name n = Name conf) (Nodes cluster) of
           [] \<Rightarrow> ret None
         | n # ns \<Rightarrow> bind (FindMember E cs pid) (\<lambda>member. case member of
             None \<Rightarrow> ret None
           | Some member \<Rightarrow>
               (let expected = sortStrings (RewriteScheme (PeerUrls conf) ''http://'' ''https://'');
                    actual = sortStrings (PeerURLs member) in
                bind (if actual \<noteq> expected then updatePeerURLs E pid conf st expected else ret False) (\<lambda>changed.
                  if changed then ret (Some True)
                  else if \<not> TlsEnabled (last (n # ns)) then enableTLS E p st
                  else ret None)))))
     | _ \<Rightarrow> ret None)"

definition reconcileTLS :: "'w ctlEnv \<Rightarrow> etcdClusterState \<Rightarrow> ('w ctlWorld, bool) prog" where
  "reconcileTLS E cs = bind (gets ctl) (\<lambda>m.
     if disableEtcdTLS m then ret False
     else bind (rangeOver E (clusterPeers cs)) (\<lambda>ps. bind (forReturn ps (reconcilePeer E cs)) (\<lambda>r.
       case r of Some changed \<Rightarrow> ret changed | None \<Rightarrow> ret False)))"

section \<open>Restoring and upgrading\<close>

definition restoreBackupAndLiftQuarantine :: "'w ctlEnv \<Rightarrow> ClusterSpec \<Rightarrow> etcdClusterState \<Rightarrow> vfsCommand \<Rightarrow> ('w ctlWorld, bool) prog" where
  "restoreBackupAndLiftQuarantine E spec cs c =
     (case CommandRestore (cmdData c) of
        None \<Rightarrow> fail (Errorf ''RestoreBackup not set'')
      | Some rb \<Rightarrow>
          if RestoreBackup rb = '''' then fail (Errorf ''RestoreBackup not set'')
          else bind (rewrap (Wrapf ''error reading backup info'') (inSystem (backupInfo E (RestoreBackup rb)))) (\<lambda>i.
            if BackupVersion i = '''' then fail (Errorf ''etcd version not found'')
            else bind buildHeader (\<lambda>h. bind (rangeOver E (clusterPeers cs)) (\<lambda>ps.
              bind (collect (\<lambda>(pid, p). bind (FindHealthyMember E cs pid) (\<lambda>m. ret (if m = None then [] else [p]))) ps) (\<lambda>found.
              case concat found of
                [] \<Rightarrow> fail (Errorf ''unable to find peer on which to run restore operation'')
              | q # qs \<Rightarrow>
                  seq (rewrap (Wrapf ''error restoring backup on peer'')
                    (rpcDoRestore E \<lparr>RestoreHeader = Some h, RestoreStorage = backupSpec E, BackupName = RestoreBackup rb\<rparr> (last (q # qs))))
                  (seq (writeClusterSpec E spec) (seq (removeCommand E c) (ret True))))))))"

definition prepareForUpgrade :: "'w ctlEnv \<Rightarrow> ClusterSpec \<Rightarrow> etcdClusterState \<Rightarrow> ('w ctlWorld, (string \<times> etcdClusterPeerInfo) list) prog" where
  "prepareForUpgrade E spec cs = bind (rangeOver E (members cs)) (\<lambda>ms.
     bind (collect (\<lambda>(memberId, member). bind (rangeOver E (clusterPeers cs)) (\<lambda>ps.
         case filter (\<lambda>p. map_option Name (NodeConfiguration (info p)) = Some (MemberName member)) (map snd ps) of
           [] \<Rightarrow> fail (Errorf ''unable to find peer'')
         | q # qs \<Rightarrow> ret (memberId, last (q # qs)))) ms) (\<lambda>memberToPeer.
       if length (healthyMembers cs) \<noteq> length (members cs)
       then fail (Errorf ''cannot upgrade/downgrade cluster when not all members are healthy'')
       else if int (length (members cs)) \<noteq> MemberCount spec
       then fail (Errorf ''cannot upgrade/downgrade cluster when cluster is not at full member count'')
       else ret memberToPeer))"

text \<open>The wait for the command to be visible may take any number of rounds; \<open>fuel\<close> bounds them.\<close>

fun awaitCommand :: "nat \<Rightarrow> 'w ctlEnv \<Rightarrow> ('w ctlWorld, unit) prog" where
  "awaitCommand 0 E = crash ''out of fuel''"
| "awaitCommand (Suc fuel) E = seq (rewrap (Wrapf ''error refreshing commands'') (refreshControlStore E 0))
     (bind (gets ctl) (\<lambda>m. if getRestoreBackupCommand m \<noteq> None then ret () else awaitCommand fuel E))"

definition stopMembers :: "'w ctlEnv \<Rightarrow> etcdClusterState \<Rightarrow> (string \<times> etcdClusterPeerInfo) list \<Rightarrow> ('w ctlWorld, unit) prog" where
  "stopMembers E cs memberToPeer = bind (rangeOver E (members cs)) (\<lambda>ms. forM ms (\<lambda>(memberId, _).
     case map_of memberToPeer memberId of
       None \<Rightarrow> crash ''peer unexpectedly not found - logic error''
     | Some p \<Rightarrow> bind buildHeader (\<lambda>h. rewrap (Wrapf ''error stopping etcd peer'') (rpcStopEtcd E (Some h) p))))"

definition scheduleRestore :: "nat \<Rightarrow> 'w ctlEnv \<Rightarrow> ClusterSpec \<Rightarrow> string \<Rightarrow> ('w ctlWorld, unit) prog" where
  "scheduleRestore fuel E spec name =
     (let c = \<lparr>CommandTimestamp = 0, CommandRestore = Some \<lparr>RestoreSpec = Some spec, RestoreBackup = name\<rparr>\<rparr> in
      seq (rewrap (Wrapf ''error adding restore command'') (noted (CommandAdded c) (storeAdd E c))) (awaitCommand fuel E))"

definition stopForUpgrade :: "nat \<Rightarrow> 'w ctlEnv \<Rightarrow> ClusterSpec \<Rightarrow> etcdClusterState \<Rightarrow> ('w ctlWorld, bool) prog" where
  "stopForUpgrade fuel E spec cs =
     bind (prepareForUpgrade E spec cs) (\<lambda>memberToPeer.
     bind (rewrap (Wrapf ''error doing backup before upgrade/downgrade'') (doClusterBackup E spec cs)) (\<lambda>_.
     bind (updateQuarantine E cs True) (\<lambda>_.
     bind (doClusterBackup E spec cs) (\<lambda>name.
     seq (scheduleRestore fuel E spec name) (seq (stopMembers E cs memberToPeer) (ret True))))))"

definition upgradeMember :: "'w ctlEnv \<Rightarrow> ClusterSpec \<Rightarrow> etcdClusterPeerInfo \<Rightarrow> EtcdState \<Rightarrow> ('w ctlWorld, bool option) prog" where
  "upgradeMember E spec p st = bind buildHeader (\<lambda>h. seq (rewrap (Wrapf ''error reconfiguring etcd peer'')
     (rpcReconfigure E \<lparr>ReconfHeader = Some h, SetEtcdVersion = SpecVersion spec, ReconfQuarantined = Quarantined st, EnableTls = False\<rparr> p)) (ret (Some True)))"

definition upgradeInPlace :: "'w ctlEnv \<Rightarrow> ClusterSpec \<Rightarrow> etcdClusterState \<Rightarrow> ('w ctlWorld, bool) prog" where
  "upgradeInPlace E spec cs =
     bind (prepareForUpgrade E spec cs) (\<lambda>memberToPeer.
     bind (rangeOver E (members cs)) (\<lambda>ms.
     seq (forM ms (\<lambda>(memberId, _). case map_of memberToPeer memberId of
         None \<Rightarrow> crash ''peer unexpectedly not found - logic error''
       | Some p \<Rightarrow> if InfoState (info p) = None then fail (Errorf ''cannot upgrade; insufficient info for peer'') else ret ()))
     (bind (doClusterBackup E spec cs) (\<lambda>_.
      bind (rangeOver E (members cs)) (\<lambda>ms'.
      bind (forReturn ms' (\<lambda>(memberId, _). case map_of memberToPeer memberId of
         None \<Rightarrow> crash ''peer unexpectedly not found - logic error''
       | Some p \<Rightarrow> (case InfoState (info p) of
           None \<Rightarrow> crash ''nil pointer dereference''
         | Some st \<Rightarrow> if StateVersion st = SpecVersion spec then ret None else upgradeMember E spec p st)))
       (\<lambda>r. case r of Some b \<Rightarrow> ret b | None \<Rightarrow> ret False))))))"

section \<open>The control loop\<close>

definition releaseLeaderLock :: "'w ctlEnv \<Rightarrow> ('w ctlWorld, unit) prog" where
  "releaseLeaderLock E = bind (gets ctl) (\<lambda>m. case leaderLockGuard m of
     None \<Rightarrow> ret ()
   | Some g \<Rightarrow> seq (rewrap (Wrapf ''failed to release leader lock guard'') (inSystem (releaseLock E g)))
       (updCtl (\<lambda>m. m\<lparr>leaderLockGuard := None\<rparr>)))"

definition takeLeaderLock :: "'w ctlEnv \<Rightarrow> ('w ctlWorld, bool) prog" where
  "takeLeaderLock E = bind (gets ctl) (\<lambda>m.
     if hasLeaderLock m \<and> leaderLockGuard m = None
     then bind (rewrap (Wrapf ''error acquiring leader lock'') (inSystem (acquireLock E (myPeerId E)))) (\<lambda>g. case g of
         None \<Rightarrow> ret False
       | Some g \<Rightarrow> seq (updCtl (\<lambda>m. m\<lparr>leaderLockGuard := Some g\<rparr>)) (ret True))
     else ret True)"

definition takeLeadership :: "'w ctlEnv \<Rightarrow> ('w ctlWorld, unit) prog" where
  "takeLeadership E =
     bind (rewrap (Wrapf ''error during LeaderNotification'') (inSystem (becomeLeader E))) (\<lambda>(acked, token).
       seq (rewrap (Wrapf ''error refreshing control store after leadership change'') (refreshControlStore E 0))
         (updCtl (\<lambda>m. m\<lparr>leadershipOf := Some \<lparr>leaderToken = token, ackedPeers = acked\<rparr>, peerState := []\<rparr>)))"

definition noteHealth :: "'w ctlEnv \<Rightarrow> etcdClusterState \<Rightarrow> ('w ctlWorld, unit) prog" where
  "noteHealth E cs = bind (nowC E) (\<lambda>now. updCtl (\<lambda>m. m\<lparr>peerState :=
     fold (\<lambda>(memberId, _) ps. if map_of ps memberId = None \<or> map_of (healthyMembers cs) memberId \<noteq> None then put memberId now ps else ps)
       (members cs) (peerState m)\<rparr>))"

definition announceMembers :: "'w ctlEnv \<Rightarrow> etcdClusterState \<Rightarrow> ('w ctlWorld, unit) prog" where
  "announceMembers E cs = bind (buildMemberMap E cs) (\<lambda>mm. bind (broadcastMemberMap E cs mm) (\<lambda>_. ret ()))"

definition verifyEtcdVersion :: "'w ctlEnv \<Rightarrow> ClusterSpec \<Rightarrow> ('w ctlWorld, unit) prog" where
  "verifyEtcdVersion E spec = (case BindirForEtcdVersion (ctlOs E) (SpecVersion spec) ''etcd'' of
     Inr _ \<Rightarrow> ret ()
   | Inl _ \<Rightarrow> fail (Errorf ''can't act as leader for unknown etcd version''))"

definition quarantinedPeer :: "etcdClusterPeerInfo \<Rightarrow> bool" where
  "quarantinedPeer p = (clustered p \<and> (case InfoState (info p) of Some st \<Rightarrow> Quarantined st | None \<Rightarrow> False))"

definition mismatched :: "ClusterSpec \<Rightarrow> etcdClusterPeerInfo \<Rightarrow> bool" where
  "mismatched spec p = (case InfoState (info p) of None \<Rightarrow> False | Some st \<Rightarrow> StateVersion st \<noteq> SpecVersion spec)"

definition upgradableInPlace :: "ClusterSpec \<Rightarrow> etcdClusterPeerInfo \<Rightarrow> bool" where
  "upgradableInPlace spec p = (case InfoState (info p) of None \<Rightarrow> True | Some st \<Rightarrow> UpgradeInPlaceSupported (StateVersion st) (SpecVersion spec))"

text \<open>The steps of an iteration once the node is an acknowledged leader with \<open>acked\<close> peers, in the order of the code.\<close>

definition newClusterStep :: "'w ctlEnv \<Rightarrow> int \<Rightarrow> ClusterSpec \<Rightarrow> etcdClusterState \<Rightarrow> ('w ctlWorld, bool) prog" where
  "newClusterStep E acked spec cs =
     seq (verifyEtcdVersion E spec)
     (if acked < quorumSize (MemberCount spec) then ret False
      else bind (createNewCluster E cs spec) (\<lambda>created.
        seq (if created then noted CreatedMarked (storeMark E) else ret ()) (ret True)))"

definition restoreStep :: "'w ctlEnv \<Rightarrow> int \<Rightarrow> ClusterSpec \<Rightarrow> etcdClusterState \<Rightarrow> vfsCommand \<Rightarrow> ('w ctlWorld, bool) prog" where
  "restoreStep E acked spec cs c =
     seq (verifyEtcdVersion E spec)
     (case CommandRestore (cmdData c) of
        None \<Rightarrow> fail (Errorf ''RestoreBackup was not set'')
      | Some rb \<Rightarrow> (case RestoreSpec rb of
          None \<Rightarrow> fail (Errorf ''RestoreBackup was not set'')
        | Some target \<Rightarrow>
            if acked < quorumSize (MemberCount spec) then ret False
            else bind (createNewCluster E cs target) (\<lambda>_. restoreBackupAndLiftQuarantine E target cs c)))"

definition upgradeStep :: "nat \<Rightarrow> 'w ctlEnv \<Rightarrow> int \<Rightarrow> ClusterSpec \<Rightarrow> etcdClusterState \<Rightarrow> ('w ctlWorld, bool) prog" where
  "upgradeStep fuel E acked spec cs =
     (let mismatch = filter (mismatched spec) (map snd (clusterPeers cs)) in
      if mismatch = [] then ret False
      else if acked < quorumSize (MemberCount spec) then ret False
      else if list_all (upgradableInPlace spec) mismatch then upgradeInPlace E spec cs else stopForUpgrade fuel E spec cs)"

definition repairStep :: "'w ctlEnv \<Rightarrow> int \<Rightarrow> ClusterSpec \<Rightarrow> etcdClusterState \<Rightarrow> ('w ctlWorld, bool) prog \<Rightarrow> ('w ctlWorld, bool) prog" where
  "repairStep E acked spec cs continue =
     (if length (healthyMembers cs) < length (members cs)
      then bind (idlePeers E cs) (\<lambda>idle.
        if idle = [] \<or> length (members cs) \<le> 2 \<or> int (length (members cs)) \<le> MemberCount spec \<or> acked < quorumSize (MemberCount spec)
        then continue else removeNodeFromCluster E spec cs False)
      else continue)"

definition resizeStep :: "'w ctlEnv \<Rightarrow> int \<Rightarrow> ClusterSpec \<Rightarrow> etcdClusterState \<Rightarrow> ('w ctlWorld, bool) prog \<Rightarrow> ('w ctlWorld, bool) prog" where
  "resizeStep E acked spec cs continue =
     (let n = int (length (members cs)); configured = int (length (filter clustered (map snd (clusterPeers cs)))) in
      if n < MemberCount spec then
        (if n = 0 then bind (attempt (refreshControlStore E 0)) (\<lambda>_. fail (Errorf ''etcd has 0 members registered; must issue restore-backup command to proceed''))
         else if quorumSize n \<le> acked then addNodeToCluster E spec cs else ret False)
      else if n = 0 then ret False
      else if MemberCount spec < configured then
        (if quorumSize configured \<le> acked then removeNodeFromCluster E spec cs True else ret False)
      else repairStep E acked spec cs continue)"

definition quarantineStep :: "'w ctlEnv \<Rightarrow> int \<Rightarrow> ClusterSpec \<Rightarrow> etcdClusterState \<Rightarrow> ('w ctlWorld, bool) prog \<Rightarrow> ('w ctlWorld, bool) prog" where
  "quarantineStep E acked spec cs continue =
     (let ps = map snd (clusterPeers cs) in
      if list_ex quarantinedPeer ps then
        (if quorumSize (MemberCount spec) \<le> int (length (healthyMembers cs)) \<and> \<not> list_ex (mismatched spec) ps
         then (if quorumSize (MemberCount spec) \<le> acked then updateQuarantine E cs False else ret False)
         else if list_ex (\<lambda>p. clustered p \<and> \<not> quarantinedPeer p) ps then updateQuarantine E cs True
         else continue)
      else continue)"

definition steadyStep :: "nat \<Rightarrow> 'w ctlEnv \<Rightarrow> int \<Rightarrow> ClusterSpec \<Rightarrow> etcdClusterState \<Rightarrow> ('w ctlWorld, bool) prog" where
  "steadyStep fuel E acked spec cs =
     seq (if members cs \<noteq> [] then bind (attempt (maybeBackup E spec cs)) (\<lambda>_. ret ()) else ret ())
     (seq (verifyEtcdVersion E spec)
       (quarantineStep E acked spec cs (resizeStep E acked spec cs
         (bind (reconcileTLS E cs) (\<lambda>changed. if changed then ret True else upgradeStep fuel E acked spec cs)))))"

definition reconcile :: "nat \<Rightarrow> 'w ctlEnv \<Rightarrow> int \<Rightarrow> etcdClusterState \<Rightarrow> ('w ctlWorld, bool) prog" where
  "reconcile fuel E acked cs = bind (gets ctl) (\<lambda>m. case controlClusterSpec m of
     None \<Rightarrow> ret False
   | Some spec \<Rightarrow> (case getRestoreBackupCommand m of
       Some c \<Rightarrow> restoreStep E acked spec cs c
     | None \<Rightarrow> steadyStep fuel E acked spec cs))"

definition lead :: "nat \<Rightarrow> 'w ctlEnv \<Rightarrow> PeerInfo list \<Rightarrow> ('w ctlWorld, bool) prog" where
  "lead fuel E ps =
     bind (rewrap (Wrapf ''error building cluster state'') (updateClusterState E ps)) (\<lambda>cs.
     seq (noteHealth E cs)
     (seq (announceMembers E cs)
     (bind (gets ctl) (\<lambda>m.
      seq (rewrap (Wrapf ''error refreshing commands'') (refreshControlStore E (controlRefreshInterval m)))
      (bind (rewrap (Wrapf ''error checking control store'') (inSystem (storeIsNew E))) (\<lambda>isNew.
        if isNew
        then seq (rewrap (Wrapf ''error refreshing control store'') (refreshControlStore E 0))
          (bind (gets ctl) (\<lambda>m. case controlClusterSpec m of
             Some spec \<Rightarrow> newClusterStep E (int (length ps)) spec cs
           | None \<Rightarrow> reconcile fuel E (int (length ps)) cs))
        else reconcile fuel E (int (length ps)) cs))))))"

definition run :: "nat \<Rightarrow> 'w ctlEnv \<Rightarrow> ('w ctlWorld, bool) prog" where
  "run fuel E =
     bind (inSystem (peersOf E)) (\<lambda>infos.
     let ps = sort_key InfoId infos in
     if myPeerId E \<notin> set (map InfoId ps) then fail (Errorf ''cannot find self in list of peers'')
     else if InfoId (hd ps) \<noteq> myPeerId E then seq (releaseLeaderLock E) (ret False)
     else bind (takeLeaderLock E) (\<lambda>locked.
       if \<not> locked then ret False
       else bind (gets ctl) (\<lambda>m. case leadershipOf m of
         None \<Rightarrow> seq (takeLeadership E) (ret False)
       | Some l \<Rightarrow>
           seq (rewrap (Wrapf ''error during AssertLeadership'') (inSystem (assertLeadership E (leaderToken l))))
           (if list_all (\<lambda>p. InfoId p \<in> set (ackedPeers l)) ps then lead fuel E ps
            else seq (updCtl (\<lambda>m. m\<lparr>leadershipOf := None\<rparr>)) (ret False)))))"

text \<open>
  \<open>Run\<close> repeats iterations until its context ends, here after \<open>n\<close> of them, and then gives the lock up. \<open>clientConfig\<close> is the result of
  building a TLS configuration for the etcd client, when there is a certificate authority.
\<close>

fun RunController :: "nat \<Rightarrow> nat \<Rightarrow> 'w ctlEnv \<Rightarrow> ('w ctlWorld, unit) prog" where
  "RunController 0 fuel E = bind (attempt (releaseLeaderLock E)) (\<lambda>_. ret ())"
| "RunController (Suc n) fuel E = bind (attempt (run fuel E)) (\<lambda>_. RunController n fuel E)"

definition NewEtcdController :: "bool \<Rightarrow> duration \<Rightarrow> duration \<Rightarrow> string \<Rightarrow> string \<Rightarrow> goerr option \<Rightarrow> bool \<Rightarrow> goerr + EtcdController" where
  "NewEtcdController leaderLock backupEvery refreshEvery name dnsSuffixOf clientConfig disableTLS =
     (if name = '''' then Inl (Errorf ''ClusterName is required'')
      else case clientConfig of
        Some e \<Rightarrow> Inl e
      | None \<Rightarrow> Inr \<lparr>ctlClusterName = name, dnsSuffix = dnsSuffixOf, controlRefreshInterval = refreshEvery, backupInterval = backupEvery,
          hasLeaderLock = leaderLock, leaderLockGuard = None, leadershipOf = None, peerState = [], lastBackup = 0, controlCommands = [],
          controlLastRead = 0, controlClusterSpec = None, disableEtcdTLS = disableTLS\<rparr>)"

end
