(* ===== verification/ControllerSafety.thy ===== *)
theory ControllerSafety
  imports Controller
begin

text \<open>
  What the controller issues. A judgement relates a program to the requests it may issue given those before it in the
  same iteration; every operation and step of the control loop is shown to issue requests in the order of the protocol, with the
  header of its leadership. The quorum checks are shown with the same judgement for other classes of requests.
\<close>

section \<open>Reasoning about what is issued\<close>

text \<open>
  \<open>okFrom A S as\<close>: the actions \<open>as\<close> come one after the other with each of them allowed by \<open>A\<close> after the set of actions
  issued before, starting with \<open>S\<close>. \<open>acts A k S p T\<close>: with the leadership and cluster name \<open>k\<close>, the program keeps these and the lock, issues
  allowed actions only, and if it returns, then \<open>T\<close> holds of its value and of the actions issued by then.
\<close>

fun okFrom :: "(action set \<Rightarrow> action \<Rightarrow> bool) \<Rightarrow> action set \<Rightarrow> action list \<Rightarrow> bool" where
  "okFrom A S [] = True"
| "okFrom A S (a # as) = (A S a \<and> okFrom A (insert a S) as)"

lemma okFrom_append: "okFrom A S (as @ bs) \<longleftrightarrow> okFrom A S as \<and> okFrom A (S \<union> set as) bs"
  by (induction as arbitrary: S) simp_all

lemma okFrom_nth: "okFrom A S (pre @ a # post) \<Longrightarrow> A (S \<union> set pre) a"
  by (simp add: okFrom_append)

type_synonym office = "leadershipState option \<times> string \<times> nat option"

definition officeOf :: "'w ctlWorld \<Rightarrow> office" where
  "officeOf w = (leadershipOf (ctl w), ctlClusterName (ctl w), leaderLockGuard (ctl w))"

definition acts :: "(action set \<Rightarrow> action \<Rightarrow> bool) \<Rightarrow> office \<Rightarrow> action set \<Rightarrow> ('w ctlWorld, 'a) prog \<Rightarrow> ('a \<Rightarrow> action set \<Rightarrow> bool) \<Rightarrow> bool" where
  "acts A k S p T \<longleftrightarrow> (\<forall>w r w'. officeOf w = k \<longrightarrow> p w = (r, w') \<longrightarrow> officeOf w' = k \<and>
     (\<exists>d. history w' = history w @ d \<and> okFrom A S d \<and> (\<forall>x. r = Ret x \<longrightarrow> T x (S \<union> set d))))"

lemma actsI:
  "(\<And>w r w'. officeOf w = k \<Longrightarrow> p w = (r, w') \<Longrightarrow> officeOf w' = k \<and>
     (\<exists>d. history w' = history w @ d \<and> okFrom A S d \<and> (\<forall>x. r = Ret x \<longrightarrow> T x (S \<union> set d)))) \<Longrightarrow> acts A k S p T"
  unfolding acts_def by blast

lemma actsD:
  "acts A k S p T \<Longrightarrow> officeOf w = k \<Longrightarrow> p w = (r, w') \<Longrightarrow> officeOf w' = k \<and>
     (\<exists>d. history w' = history w @ d \<and> okFrom A S d \<and> (\<forall>x. r = Ret x \<longrightarrow> T x (S \<union> set d)))"
  unfolding acts_def by blast

lemma acts_weaken:
  assumes "acts A k S p T'" and "\<And>x S'. S \<subseteq> S' \<Longrightarrow> T' x S' \<Longrightarrow> T x S'"
  shows "acts A k S p T"
proof (rule actsI)
  fix w r w' assume "officeOf w = k" "p w = (r, w')"
  from actsD [OF assms(1) this] obtain d where "officeOf w' = k" "history w' = history w @ d" "okFrom A S d" "\<forall>x. r = Ret x \<longrightarrow> T' x (S \<union> set d)" by blast
  then show "officeOf w' = k \<and> (\<exists>d. history w' = history w @ d \<and> okFrom A S d \<and> (\<forall>x. r = Ret x \<longrightarrow> T x (S \<union> set d)))"
    using assms(2) [of "S \<union> set d"] by (intro conjI exI [of _ d]) auto
qed

lemma acts_ret: "T x S \<Longrightarrow> acts A k S (ret x) T"
  by (rule actsI) (auto simp: ret_def)

lemma acts_stop: "acts A k S (fail e) T" "acts A k S (crash m) T"
  by (rule actsI, auto simp: fail_def crash_def)+

lemma acts_gets: "(\<And>w. officeOf w = k \<Longrightarrow> T (f w) S) \<Longrightarrow> acts A k S (gets f) T"
  by (rule actsI) (auto simp: gets_def)

lemma acts_bind:
  assumes p: "acts A k S p T'" and f: "\<And>x S'. S \<subseteq> S' \<Longrightarrow> T' x S' \<Longrightarrow> acts A k S' (f x) T"
  shows "acts A k S (bind p f) T"
proof (rule actsI)
  fix w r w' assume w: "officeOf w = k" and run: "bind p f w = (r, w')"
  obtain q u where u: "p w = (q, u)" by (cases "p w")
  obtain d where d: "officeOf u = k" "history u = history w @ d" "okFrom A S d" "\<And>x. q = Ret x \<Longrightarrow> T' x (S \<union> set d)"
    using actsD [OF p w u] by blast
  show "officeOf w' = k \<and> (\<exists>d. history w' = history w @ d \<and> okFrom A S d \<and> (\<forall>x. r = Ret x \<longrightarrow> T x (S \<union> set d)))"
  proof (cases q)
    case (Ret x)
    then have "f x u = (r, w')" using run u by (simp add: bind_def)
    from actsD [OF f [OF Un_upper1 d(4) [OF Ret]] d(1) this] obtain d' where "officeOf w' = k" "history w' = history u @ d'" "okFrom A (S \<union> set d) d'" "\<And>x. r = Ret x \<Longrightarrow> T x (S \<union> set d \<union> set d')" by blast
    then show ?thesis using d by (intro conjI exI [of _ "d @ d'"]) (auto simp: okFrom_append Un_assoc)
  qed (use run u d in \<open>auto simp: bind_def\<close>)
qed

lemma acts_seq: "acts A k S p (\<lambda>_. T') \<Longrightarrow> (\<And>S'. S \<subseteq> S' \<Longrightarrow> T' S' \<Longrightarrow> acts A k S' q T) \<Longrightarrow> acts A k S (seq p q) T"
  unfolding seq_def by (rule acts_bind)

lemma acts_attempt:
  assumes "acts A k S p T'" and "\<And>x S'. S \<subseteq> S' \<Longrightarrow> T' x S' \<Longrightarrow> T (Inr x) S'" and "\<And>e S'. S \<subseteq> S' \<Longrightarrow> T (Inl e) S'"
  shows "acts A k S (attempt p) T"
proof (rule actsI)
  fix w r w' assume w: "officeOf w = k" and run: "attempt p w = (r, w')"
  obtain q where u: "p w = (q, w')" and r: "r = (case q of Ret x \<Rightarrow> Ret (Inr x) | Err e \<Rightarrow> Ret (Inl e) | Crash m \<Rightarrow> Crash m)"
    using run by (cases "p w") (auto simp: attempt_def split: outcome.splits)
  obtain d where "officeOf w' = k" "history w' = history w @ d" "okFrom A S d" "\<And>x. q = Ret x \<Longrightarrow> T' x (S \<union> set d)"
    using actsD [OF assms(1) w u] by blast
  then show "officeOf w' = k \<and> (\<exists>d. history w' = history w @ d \<and> okFrom A S d \<and> (\<forall>x. r = Ret x \<longrightarrow> T x (S \<union> set d)))"
    using assms(2,3) r by (intro conjI exI [of _ d]) (auto split: outcome.splits)
qed

lemma acts_rewrap:
  assumes "acts A k S p T"
  shows "acts A k S (rewrap g p) T"
proof (rule actsI)
  fix w r w' assume w: "officeOf w = k" and run: "rewrap g p w = (r, w')"
  obtain q where u: "p w = (q, w')" and r: "\<And>x. r = Ret x \<Longrightarrow> q = Ret x"
    using run by (cases "p w") (auto simp: rewrap_def split: outcome.splits)
  show "officeOf w' = k \<and> (\<exists>d. history w' = history w @ d \<and> okFrom A S d \<and> (\<forall>x. r = Ret x \<longrightarrow> T x (S \<union> set d)))"
    using actsD [OF assms w u] r by blast
qed

lemma acts_forM:
  assumes "I S" and "\<And>x S'. x \<in> set xs \<Longrightarrow> S \<subseteq> S' \<Longrightarrow> I S' \<Longrightarrow> acts A k S' (f x) (\<lambda>_. I)" and "\<And>S'. S \<subseteq> S' \<Longrightarrow> I S' \<Longrightarrow> T () S'"
  shows "acts A k S (forM xs f) T"
  using assms
proof (induction xs arbitrary: S)
  case (Cons x xs)
  show ?case
    unfolding forM.simps
  proof (rule acts_seq [where T' = I])
    show "acts A k S (f x) (\<lambda>_. I)" using Cons.prems by simp
    fix S' assume S': "S \<subseteq> S'" "I S'"
    then show "acts A k S' (forM xs f) T" using Cons.prems by (intro Cons.IH) auto
  qed
qed (simp add: acts_ret)

lemma acts_forReturn:
  assumes "\<And>x S'. x \<in> set xs \<Longrightarrow> S \<subseteq> S' \<Longrightarrow> acts A k S' (f x) T" and "\<And>S'. S \<subseteq> S' \<Longrightarrow> T None S'"
  shows "acts A k S (forReturn xs f) T"
  using assms
proof (induction xs arbitrary: S)
  case (Cons x xs)
  show ?case
    unfolding forReturn.simps
  proof (rule acts_bind)
    show "acts A k S (f x) T" using Cons.prems by simp
    fix r S' assume S': "S \<subseteq> S'" "T r S'"
    have "acts A k S' (forReturn xs f) T" using Cons.prems S' by (intro Cons.IH) auto
    then show "acts A k S' (case r of Some r \<Rightarrow> ret (Some r) | None \<Rightarrow> forReturn xs f) T"
      using S' by (auto split: option.split intro: acts_ret)
  qed
qed (simp add: acts_ret)

lemma acts_collect:
  assumes "\<And>x S'. x \<in> set xs \<Longrightarrow> S \<subseteq> S' \<Longrightarrow> acts A k S' (f x) (\<lambda>y _. P x y)"
    and "\<And>ys S'. S \<subseteq> S' \<Longrightarrow> list_all2 P xs ys \<Longrightarrow> T ys S'"
  shows "acts A k S (collect f xs) T"
proof -
  have "acts A k S (collect f xs) (\<lambda>ys _. list_all2 P xs ys)"
    using assms(1)
  proof (induction xs arbitrary: S)
    case (Cons x xs)
    have rest: "acts A k S' (collect f xs) (\<lambda>ys _. list_all2 P xs ys)" if "S \<subseteq> S'" for S'
      using Cons.prems that by (intro Cons.IH) auto
    show ?case
      unfolding collect.simps
      by (rule acts_bind [where T' = "\<lambda>y _. P x y"], use Cons.prems in simp,
          rule acts_bind [where T' = "\<lambda>ys _. list_all2 P xs ys"], use rest in simp, simp add: acts_ret)
  qed (simp add: acts_ret)
  then show ?thesis by (rule acts_weaken) (use assms(2) in blast)
qed

text \<open>Steps that issue nothing, and the one that does.\<close>

lemma acts_inSystem: "(\<And>x. T x S) \<Longrightarrow> acts A k S (inSystem p) T"
  by (rule actsI) (auto simp: inSystem_def officeOf_def split: prod.splits)

lemma acts_tickC: "(\<And>n. T n S) \<Longrightarrow> acts A k S tickC T"
  by (rule actsI) (auto simp: tickC_def officeOf_def)

lemma acts_nowC: "(\<And>t. T t S) \<Longrightarrow> acts A k S (nowC E) T"
  unfolding nowC_def by (rule acts_bind [OF acts_tickC [where T = "\<lambda>_ S'. S' = S"]]) (auto intro: acts_ret)

lemma acts_rangeOver: "(\<And>xs. mset xs = mset m \<Longrightarrow> T xs S) \<Longrightarrow> acts A k S (rangeOver E m) T"
  unfolding rangeOver_def by (rule acts_bind [OF acts_tickC [where T = "\<lambda>_ S'. S' = S"]]) (auto intro: acts_ret)

lemma acts_updCtl:
  "(\<And>m. leadershipOf (f m) = leadershipOf m \<and> ctlClusterName (f m) = ctlClusterName m \<and> leaderLockGuard (f m) = leaderLockGuard m) \<Longrightarrow>
   T () S \<Longrightarrow> acts A k S (updCtl f) T"
  by (rule actsI) (auto simp: updCtl_def modify_def officeOf_def)

lemma acts_noted:
  assumes "\<And>ok. A S (act ok)" and "\<And>x. T x (insert (act True) S)"
  shows "acts A k S (noted act p) T"
proof (rule actsI)
  fix w r w' assume w: "officeOf w = k" and run: "noted act p w = (r, w')"
  obtain q u where "p (system w) = (q, u)" by (cases "p (system w)")
  then have r: "r = q" and w': "w' = w\<lparr>system := u, history := history w @ [act (case r of Ret _ \<Rightarrow> True | _ \<Rightarrow> False)]\<rparr>"
    using run by (auto simp: noted_def inSystem_def)
  show "officeOf w' = k \<and> (\<exists>d. history w' = history w @ d \<and> okFrom A S d \<and> (\<forall>x. r = Ret x \<longrightarrow> T x (S \<union> set d)))"
    using w assms unfolding w' by (auto simp: officeOf_def intro!: exI [of _ "[act (case r of Ret _ \<Rightarrow> True | _ \<Rightarrow> False)]"])
qed

definition officeHeader :: "office \<Rightarrow> CommonRequestHeader" where
  "officeHeader k = (case k of (l, name, _) \<Rightarrow> \<lparr>HeaderToken = (case l of Some l \<Rightarrow> leaderToken l | None \<Rightarrow> ''''), HeaderCluster = name\<rparr>)"

lemma acts_buildHeader: "T (officeHeader k) S \<Longrightarrow> acts A k S buildHeader T"
  by (rule actsI) (auto simp: buildHeader_def bind_def gets_def ret_def crash_def officeOf_def officeHeader_def split: option.splits)

section \<open>The protocol of an iteration\<close>

text \<open>
  Every request carries the header of the office the controller acts in. A member is added after a successful backup and
  after a successful preparation, and removed after a successful backup; a version is set after a successful backup. A peer is told to found a cluster
  or to join one only after it was prepared with the same token and nodes, and to join only after a member was added. The control
  store is told of a restore or of a created cluster last.
\<close>

definition backedUp :: "action set \<Rightarrow> bool" where
  "backedUp S \<longleftrightarrow> (\<exists>p r. BackupSent p r True \<in> S)"

definition preparedFor :: "action set \<Rightarrow> PeerId \<Rightarrow> JoinClusterRequest \<Rightarrow> bool" where
  "preparedFor S p r \<longleftrightarrow> JoinSent p (r\<lparr>JoinPhase := PHASE_PREPARE\<rparr>) True \<in> S"

fun carries :: "CommonRequestHeader \<Rightarrow> action \<Rightarrow> bool" where
  "carries h (JoinSent _ r _) = (JoinHeader r = Some h)"
| "carries h (ReconfigureSent _ r _) = (ReconfHeader r = Some h)"
| "carries h (StopSent _ h' _) = (h' = Some h)"
| "carries h (BackupSent _ r _) = (BackupHeader r = Some h)"
| "carries h (RestoreSent _ r _) = (RestoreHeader r = Some h)"
| "carries h _ = True"

fun protocol :: "action set \<Rightarrow> action \<Rightarrow> bool" where
  "protocol S (MemberAdded _ _) = (backedUp S \<and> (\<exists>p r. JoinPhase r = PHASE_PREPARE \<and> JoinSent p r True \<in> S))"
| "protocol S (MemberRemoved _ _) = backedUp S"
| "protocol S (ReconfigureSent _ r _) = (SetEtcdVersion r \<noteq> '''' \<longrightarrow> backedUp S)"
| "protocol S (JoinSent p r _) = ((JoinPhase r = PHASE_INITIAL_CLUSTER \<longrightarrow> preparedFor S p r) \<and>
     (JoinPhase r = PHASE_JOIN_EXISTING \<longrightarrow> preparedFor S p r \<and> (\<exists>urls. MemberAdded urls True \<in> S)))"
| "protocol S (CommandAdded _ _) = backedUp S"
| "protocol S (CommandRemoved _ _) = ((\<exists>p r. RestoreSent p r True \<in> S) \<and> (\<exists>spec. SpecSet spec True \<in> S))"
| "protocol S (CreatedMarked _) = (\<exists>spec. SpecSet spec True \<in> S)"
| "protocol S _ = True"

definition permitted :: "office \<Rightarrow> action set \<Rightarrow> action \<Rightarrow> bool" where
  "permitted k S a \<longleftrightarrow> carries (officeHeader k) a \<and> protocol S a"

lemma backedUp_mono: "backedUp S \<Longrightarrow> S \<subseteq> S' \<Longrightarrow> backedUp S'"
  by (auto simp: backedUp_def)

lemma preparedFor_mono: "preparedFor S p r \<Longrightarrow> S \<subseteq> S' \<Longrightarrow> preparedFor S' p r"
  by (auto simp: preparedFor_def)

text \<open>The common case: only the issued actions matter.\<close>

abbreviation does :: "(action set \<Rightarrow> action \<Rightarrow> bool) \<Rightarrow> office \<Rightarrow> action set \<Rightarrow> ('w ctlWorld, 'a) prog \<Rightarrow> bool" where
  "does A k S p \<equiv> acts A k S p (\<lambda>_ _. True)"

abbreviation issues :: "office \<Rightarrow> action set \<Rightarrow> ('w ctlWorld, 'a) prog \<Rightarrow> bool" where
  "issues k \<equiv> does (permitted k) k"

lemma does_bind: "does A k S p \<Longrightarrow> (\<And>x S'. S \<subseteq> S' \<Longrightarrow> does A k S' (f x)) \<Longrightarrow> does A k S (bind p f)"
  by (rule acts_bind) auto

lemma does_seq: "does A k S p \<Longrightarrow> (\<And>S'. S \<subseteq> S' \<Longrightarrow> does A k S' q) \<Longrightarrow> does A k S (seq p q)"
  by (rule acts_seq) auto

lemma does_attempt: "does A k S p \<Longrightarrow> does A k S (attempt p)"
  by (rule acts_attempt) auto

lemma does_forM: "(\<And>x S'. x \<in> set xs \<Longrightarrow> S \<subseteq> S' \<Longrightarrow> does A k S' (f x)) \<Longrightarrow> does A k S (forM xs f)"
  by (rule acts_forM [where I = "\<lambda>_. True"]) auto

lemma does_forReturn: "(\<And>x S'. x \<in> set xs \<Longrightarrow> S \<subseteq> S' \<Longrightarrow> does A k S' (f x)) \<Longrightarrow> does A k S (forReturn xs f)"
  by (rule acts_forReturn) auto

lemma does_collect: "(\<And>x S'. x \<in> set xs \<Longrightarrow> S \<subseteq> S' \<Longrightarrow> does A k S' (f x)) \<Longrightarrow> does A k S (collect f xs)"
  by (rule acts_collect [where P = "\<lambda>_ _. True"]) auto

lemma does_header: "(\<And>S'. S \<subseteq> S' \<Longrightarrow> does A k S' (f (officeHeader k))) \<Longrightarrow> does A k S (bind buildHeader f)"
  by (rule acts_bind [OF acts_buildHeader [where T = "\<lambda>h _. h = officeHeader k"]]) auto

lemma does_if: "(b \<Longrightarrow> does A k S p) \<Longrightarrow> (\<not> b \<Longrightarrow> does A k S q) \<Longrightarrow> does A k S (if b then p else q)"
  by simp

lemma does_lift: "does A k S (lift r)"
  by (auto simp: lift_def acts_stop acts_ret split: sum.split)

lemmas does_intros = does_header does_bind does_seq does_attempt does_forM does_forReturn does_collect does_if does_lift
  acts_rewrap acts_ret acts_stop acts_gets acts_inSystem acts_tickC acts_nowC acts_rangeOver acts_updCtl

lemma quiet_parts:
  "does A k S (FindMember E cs i)" "does A k S (FindHealthyMember E cs i)" "does A k S (FindPeer E cs m)" "does A k S (newEtcdClient E cs m)"
  "does A k S (refreshControlStore E ttl)" "does A k S (buildMemberMap E cs)" "does A k S (idlePeers E cs)" "does A k S (randomToken E)"
  "does A k S (memberTableOf ms)" "does A k S (noteHealth E cs)" "does A k S (verifyEtcdVersion E spec)" "does A k S (proposedNode p)"
  unfolding FindMember_def FindHealthyMember_def FindPeer_def newEtcdClient_def refreshControlStore_def buildMemberMap_def idlePeers_def
    randomToken_def memberTableOf_def noteHealth_def verifyEtcdVersion_def proposedNode_def Let_def
  by (auto intro!: does_intros split: option.split sum.split)

lemma updateClusterState_quiet: "does A k S (updateClusterState E ps)"
  unfolding updateClusterState_def listFrom_def checkHealth_def Let_def
  by (auto intro!: does_intros quiet_parts split: option.split sum.split prod.split)

lemma broadcast_issues: "issues k S (broadcastMemberMap E cs mm)"
  unfolding broadcastMemberMap_def rpcUpdateEndpoints_def
  by (auto intro!: does_intros acts_noted simp: permitted_def)

definition gained :: "(action set \<Rightarrow> bool) \<Rightarrow> 'a option \<Rightarrow> action set \<Rightarrow> bool" where
  "gained P y S \<longleftrightarrow> (y \<noteq> None \<longrightarrow> P S)"

lemma gained_simps [simp]: "gained P None S" "gained P (Some x) S = P S"
  by (simp_all add: gained_def)

lemma backupOn_acts: "acts (permitted k) k S (backupOn E spec cs member) (gained backedUp)"
proof -
  have sent: "acts (permitted k) k S' (attempt (rpcDoBackup E r p)) (\<lambda>y S''. y = Inl (projl y) \<or> backedUp S'')"
    if "BackupHeader r = Some (officeHeader k)" for S' r p
    unfolding rpcDoBackup_def
    by (rule acts_attempt [OF acts_noted [where T = "\<lambda>_. backedUp"]]) (auto simp: permitted_def that backedUp_def)
  show ?thesis
    unfolding backupOn_def
    by (rule acts_bind [OF quiet_parts(3)])
       (auto split: option.split sum.split intro!: acts_ret acts_bind [OF acts_buildHeader [where T = "\<lambda>h _. h = officeHeader k"]] acts_bind [OF sent])
qed

lemma doClusterBackup_acts: "acts (permitted k) k S (doClusterBackup E spec cs) (\<lambda>_. backedUp)"
proof -
  have all: "acts (permitted k) k S' (forReturn ms (\<lambda>(_, member). backupOn E spec cs member)) (gained backedUp)" for ms S'
    by (rule acts_forReturn) (auto intro!: backupOn_acts)
  show ?thesis
    unfolding doClusterBackup_def
    by (intro acts_bind [OF acts_rangeOver [where T = "\<lambda>_ _. True"]] acts_bind [OF all]) (auto split: option.split intro!: acts_ret acts_stop)
qed

lemma viaMember_acts:
  assumes "\<And>S' ok. S \<subseteq> S' \<Longrightarrow> permitted k S' (act ok)"
  shows "acts (permitted k) k S (viaMember E cs act request member) (gained (\<lambda>S'. act True \<in> S'))"
proof -
  have "acts (permitted k) k S' (attempt (noted act (request svc))) (\<lambda>y S''. y = Inl (projl y) \<or> act True \<in> S'')" if "S \<subseteq> S'" for S' svc
    by (rule acts_attempt [OF acts_noted [where T = "\<lambda>_ S. act True \<in> S"]]) (use assms that in auto)
  then show ?thesis
    unfolding viaMember_def
    by (intro acts_bind [OF quiet_parts(4)]) (auto split: sum.split intro!: acts_ret acts_bind)
qed

lemma memberChange_acts:
  assumes "backedUp S"
  shows "acts (permitted k) k S (etcdRemoveMember E cs v) (\<lambda>_ _. True)"
    and "\<exists>p r. JoinPhase r = PHASE_PREPARE \<and> JoinSent p r True \<in> S \<Longrightarrow>
      acts (permitted k) k S (etcdAddMember E cs node) (\<lambda>_ S'. \<exists>urls. MemberAdded urls True \<in> S')"
proof -
  have all: "acts (permitted k) k S' (forReturn ms (\<lambda>(_, member). viaMember E cs act request member)) (gained (\<lambda>S'. act True \<in> S'))"
    if "S \<subseteq> S'" "\<And>S' ok. S \<subseteq> S' \<Longrightarrow> permitted k S' (act ok)" for ms S' act request
    by (rule acts_forReturn) (use that in \<open>auto intro!: viaMember_acts\<close>)
  have "permitted k S' (MemberRemoved i ok)" if "S \<subseteq> S'" for S' i ok using backedUp_mono [OF assms that] by (simp add: permitted_def)
  then show "acts (permitted k) k S (etcdRemoveMember E cs v) (\<lambda>_ _. True)"
    unfolding etcdRemoveMember_def
    by (intro acts_bind [OF acts_rangeOver [where T = "\<lambda>_ _. True"]] acts_bind [OF all]) (auto split: option.split intro!: acts_ret acts_stop)
  assume "\<exists>p r. JoinPhase r = PHASE_PREPARE \<and> JoinSent p r True \<in> S"
  then have "permitted k S' (MemberAdded urls ok)" if "S \<subseteq> S'" for S' urls ok
    using backedUp_mono [OF assms that] that by (auto simp: permitted_def)
  then show "acts (permitted k) k S (etcdAddMember E cs node) (\<lambda>_ S'. \<exists>urls. MemberAdded urls True \<in> S')"
    unfolding etcdAddMember_def
    by (intro acts_bind [OF acts_rangeOver [where T = "\<lambda>_ _. True"]] acts_bind [OF all]) (auto split: option.split intro!: acts_ret acts_stop)
qed

section \<open>The operations\<close>

lemma acts_forM_all:
  assumes "\<And>x S'. x \<in> set xs \<Longrightarrow> S \<subseteq> S' \<Longrightarrow> acts A k S' (f x) (\<lambda>_ S''. g x \<in> S'')"
    and "\<And>S'. S \<subseteq> S' \<Longrightarrow> \<forall>x \<in> set xs. g x \<in> S' \<Longrightarrow> T () S'"
  shows "acts A k S (forM xs f) T"
  using assms
proof (induction xs arbitrary: S)
  case (Cons x xs)
  show ?case
    unfolding forM.simps
  proof (rule acts_seq)
    show "acts A k S (f x) (\<lambda>_ S''. g x \<in> S'')" using Cons.prems(1) by simp
    fix S' assume S': "S \<subseteq> S'" "g x \<in> S'"
    show "acts A k S' (forM xs f) T"
    proof (rule Cons.IH)
      fix y S'' assume "y \<in> set xs" "S' \<subseteq> S''"
      then show "acts A k S'' (f y) (\<lambda>_ S''. g y \<in> S'')" using Cons.prems(1) [of y S''] S' by auto
    next
      fix S'' assume "S' \<subseteq> S''" "\<forall>x \<in> set xs. g x \<in> S''"
      then show "T () S''" using Cons.prems(2) [of S''] S' by auto
    qed
  qed
qed (simp add: acts_ret)

abbreviation joinRequest :: "office \<Rightarrow> Phase \<Rightarrow> string \<Rightarrow> string \<Rightarrow> EtcdNode list \<Rightarrow> JoinClusterRequest" where
  "joinRequest k ph token version nodes \<equiv>
     \<lparr>JoinHeader = Some (officeHeader k), JoinPhase = ph, JoinToken = token, JoinNodes = nodes, JoinVersion = version\<rparr>"

lemma joinAll_acts:
  assumes "\<And>p S' ok. p \<in> set ps \<Longrightarrow> S \<subseteq> S' \<Longrightarrow> protocol S' (JoinSent (PeerIdOf p) (joinRequest k ph token version nodes) ok)"
    and "\<And>S'. S \<subseteq> S' \<Longrightarrow> \<forall>p \<in> set ps. JoinSent (PeerIdOf p) (joinRequest k ph token version nodes) True \<in> S' \<Longrightarrow> T () S'"
  shows "acts (permitted k) k S (joinAll E ph token version nodes ps) T"
  unfolding joinAll_def rpcJoinCluster_def
proof (rule acts_forM_all [where g = "\<lambda>p. JoinSent (PeerIdOf p) (joinRequest k ph token version nodes) True"])
  fix p S' assume "p \<in> set ps" "S \<subseteq> S'"
  then have "permitted k S' (JoinSent (PeerIdOf p) (joinRequest k ph token version nodes) ok)" for ok
    using assms(1) by (simp only: permitted_def) simp
  then show "acts (permitted k) k S' (bind buildHeader (\<lambda>h. rewrap (Wrapf ''error from JoinClusterRequest'')
      (noted (JoinSent (PeerIdOf p) \<lparr>JoinHeader = Some h, JoinPhase = ph, JoinToken = token, JoinNodes = nodes, JoinVersion = version\<rparr>)
        (callJoinCluster E (PeerIdOf p) \<lparr>JoinHeader = Some h, JoinPhase = ph, JoinToken = token, JoinNodes = nodes, JoinVersion = version\<rparr>))))
      (\<lambda>_ S''. JoinSent (PeerIdOf p) (joinRequest k ph token version nodes) True \<in> S'')"
    by (auto intro!: acts_bind [OF acts_buildHeader [where T = "\<lambda>h S''. h = officeHeader k \<and> S'' = S'"]] acts_rewrap acts_noted)
qed (use assms(2) in blast)

lemma prepare_acts: "acts (permitted k) k S (joinAll E PHASE_PREPARE token version nodes ps)
    (\<lambda>_ S'. \<forall>p \<in> set ps. \<forall>ph. preparedFor S' (PeerIdOf p) (joinRequest k ph token version nodes))"
  by (rule joinAll_acts) (auto simp: preparedFor_def)

lemma stopRunning_issues: "issues k S (stopRunning E cs)"
  unfolding stopRunning_def rpcStopEtcd_def
  by (auto intro!: does_intros acts_noted simp: permitted_def)

lemma startProposal_acts: "acts (permitted k) k S (startProposal E cs spec token ps) (\<lambda>_ S'. \<exists>spec. SpecSet spec True \<in> S')"
proof -
  let ?join = "\<lambda>ph nodes. joinAll E ph token (SpecVersion spec) nodes ps"
  have found: "issues k S' (?join PHASE_INITIAL_CLUSTER nodes)"
    if "\<forall>p \<in> set ps. \<forall>ph. preparedFor S' (PeerIdOf p) (joinRequest k ph token (SpecVersion spec) nodes)" for S' nodes
    by (rule joinAll_acts) (use that in \<open>auto intro: preparedFor_mono\<close>)
  have spec: "acts (permitted k) k S' (seq (writeClusterSpec E spec) (ret True)) (\<lambda>_ S''. \<exists>spec. SpecSet spec True \<in> S'')" for S'
    unfolding writeClusterSpec_def
    by (rule acts_seq [OF acts_noted [where T = "\<lambda>_ S''. \<exists>spec. SpecSet spec True \<in> S''"]]) (auto simp: permitted_def intro: acts_ret)
  have "acts (permitted k) k S' (seq (?join PHASE_PREPARE nodes) (seq (?join PHASE_INITIAL_CLUSTER nodes) (seq (writeClusterSpec E spec) (ret True))))
      (\<lambda>_ S''. \<exists>spec. SpecSet spec True \<in> S'')" for S' nodes
    by (rule acts_seq [OF prepare_acts], rule acts_seq [OF found], assumption, rule spec)
  then show ?thesis
    unfolding startProposal_def
    by (intro acts_bind [OF does_collect [OF quiet_parts(12)]] acts_seq [where T' = "\<lambda>_. True", OF stopRunning_issues] acts_bind [OF broadcast_issues])
       (auto intro: acts_stop)
qed

abbreviation specKnown :: "action set \<Rightarrow> bool" where
  "specKnown S \<equiv> \<exists>spec. SpecSet spec True \<in> S"

lemma createNewCluster_acts: "acts (permitted k) k S (createNewCluster E cs spec) (\<lambda>created S'. created \<longrightarrow> specKnown S')"
proof -
  have start: "acts (permitted k) k S' (startProposal E cs spec token ps) (\<lambda>created S''. created \<longrightarrow> specKnown S'')" for S' token ps
    by (rule acts_weaken [OF startProposal_acts]) simp
  show ?thesis
    unfolding createNewCluster_def Let_def
    by (auto intro!: acts_ret acts_stop acts_bind [OF quiet_parts(8)] acts_bind [OF acts_rangeOver [where T = "\<lambda>_ _. True"]] start)
qed

lemma joinPeer_issues:
  assumes "backedUp S"
  shows "issues k S (joinPeer E cs p token version node nodes)"
proof -
  let ?add = "etcdAddMember E cs node"
  have add: "acts (permitted k) k S' (attempt ?add) (\<lambda>r S''. \<forall>u. r = Inr u \<longrightarrow> (\<exists>urls. MemberAdded urls True \<in> S''))"
    if "S \<subseteq> S'" "preparedFor S' (PeerIdOf p) (joinRequest k PHASE_JOIN_EXISTING token version nodes)" for S'
  proof -
    have "\<exists>q r. JoinPhase r = PHASE_PREPARE \<and> JoinSent q r True \<in> S'"
      using that(2) unfolding preparedFor_def
      by (intro exI [of _ "PeerIdOf p"] exI [of _ "(joinRequest k PHASE_JOIN_EXISTING token version nodes)\<lparr>JoinPhase := PHASE_PREPARE\<rparr>"]) simp
    from memberChange_acts(2) [OF backedUp_mono [OF assms that(1)] this] show ?thesis by (rule acts_attempt) auto
  qed
  have join: "issues k S' (joinAll E PHASE_JOIN_EXISTING token version nodes [p])"
    if "preparedFor S' (PeerIdOf p) (joinRequest k PHASE_JOIN_EXISTING token version nodes)" "\<exists>urls. MemberAdded urls True \<in> S'" for S'
    by (rule joinAll_acts) (use that in \<open>auto intro: preparedFor_mono\<close>)
  have cancel: "issues k S' (rpcJoinCluster E \<lparr>JoinHeader = Some (officeHeader k), JoinPhase = PHASE_CANCEL_PREPARE, JoinToken = token, JoinNodes = [], JoinVersion = ''''\<rparr> p)" for S'
    unfolding rpcJoinCluster_def by (rule acts_noted) (simp_all add: permitted_def)
  show ?thesis
    unfolding joinPeer_def
  proof (rule acts_seq [OF prepare_acts])
    fix S' assume S': "S \<subseteq> S'" "\<forall>q \<in> set [p]. \<forall>ph. preparedFor S' (PeerIdOf q) (joinRequest k ph token version nodes)"
    then have "preparedFor S'' (PeerIdOf p) (joinRequest k PHASE_JOIN_EXISTING token version nodes)" if "S' \<subseteq> S''" for S''
      using that by (auto intro: preparedFor_mono)
    note prep = this
    show "issues k S' (bind (attempt ?add) (\<lambda>r. case r of
        Inl e \<Rightarrow> bind buildHeader (\<lambda>h.
          bind (attempt (rpcJoinCluster E \<lparr>JoinHeader = Some h, JoinPhase = PHASE_CANCEL_PREPARE, JoinToken = token, JoinNodes = [], JoinVersion = ''''\<rparr> p))
            (\<lambda>_. fail (Wrapf ''error adding peer to cluster'' e)))
      | Inr _ \<Rightarrow> seq (joinAll E PHASE_JOIN_EXISTING token version nodes [p]) (ret True)))"
      by (rule acts_bind [OF add [OF S'(1) prep [OF subset_refl]]])
         (auto split: sum.split intro!: does_header does_bind does_attempt cancel acts_stop does_seq join prep acts_ret)
  qed
qed

lemma addNodeToCluster_issues: "members cs \<noteq> [] \<Longrightarrow> issues k S (addNodeToCluster E spec cs)"
proof -
  assume members: "members cs \<noteq> []"
  have add: "issues k S' (addPeer E cs p)" if "backedUp S'" for S' p
    unfolding addPeer_def
    by (auto intro!: does_bind acts_rangeOver acts_stop acts_gets joinPeer_issues split: prod.split option.split)
       (meson backedUp_mono that)
  have backup: "acts (permitted k) k S' (bind (rewrap g (doClusterBackup E spec cs)) (\<lambda>_. ret ())) (\<lambda>_. backedUp)" for S' g
    by (auto intro!: acts_bind [OF acts_rewrap [OF doClusterBackup_acts]] acts_ret)
  show ?thesis
    using members unfolding addNodeToCluster_def Let_def
    by (auto intro!: does_bind acts_rangeOver acts_stop acts_ret acts_tickC acts_seq [OF backup] add intro: backedUp_mono)
qed

lemma pickVictim_issues: "issues k S (pickVictim b now seen healthy ms)"
  by (induction b now seen healthy ms rule: pickVictim.induct) (auto intro!: acts_ret acts_stop split: option.split)

lemma chooseVictim_issues: "issues k S (chooseVictim E cs b)"
  unfolding chooseVictim_def
  by (auto intro!: does_intros pickVictim_issues split: option.split list.split)

lemma removeNodeFromCluster_issues: "issues k S (removeNodeFromCluster E spec cs b)"
  unfolding removeNodeFromCluster_def
  by (auto intro!: does_bind chooseVictim_issues acts_ret acts_bind [OF acts_rewrap [OF doClusterBackup_acts]] does_seq acts_rewrap memberChange_acts(1)
    split: option.split)

lemma reconfigure_issues:
  "SetEtcdVersion r \<noteq> '''' \<longrightarrow> backedUp S \<Longrightarrow> ReconfHeader r = Some (officeHeader k) \<Longrightarrow> issues k S (rpcReconfigure E r p)"
  unfolding rpcReconfigure_def by (rule acts_noted) (simp_all add: permitted_def)

lemma updateQuarantine_issues: "issues k S (updateQuarantine E cs q)"
  unfolding updateQuarantine_def
  by (auto intro!: does_intros reconfigure_issues quiet_parts split: option.split)

lemma reconcileTLS_issues: "issues k S (reconcileTLS E cs)"
  unfolding reconcileTLS_def reconcilePeer_def updatePeerURLs_def enableTLS_def Let_def
  by (auto intro!: does_intros reconfigure_issues quiet_parts acts_noted simp: permitted_def split: option.split list.split prod.split)

lemma restore_issues: "issues k S (restoreBackupAndLiftQuarantine E spec cs c)"
proof -
  have spec: "acts (permitted k) k S' (writeClusterSpec E spec) (\<lambda>_ S''. specKnown S'')" for S'
    unfolding writeClusterSpec_def by (rule acts_noted) (auto simp: permitted_def)
  have remove: "issues k S' (removeCommand E c)" if "\<exists>p r. RestoreSent p r True \<in> S'" "specKnown S'" for S'
    unfolding removeCommand_def
    by (auto intro!: does_bind does_attempt acts_noted does_seq acts_updCtl does_lift simp: permitted_def that)
  have sent: "acts (permitted k) k S' (rewrap g (rpcDoRestore E r p)) (\<lambda>_ S''. \<exists>p r. RestoreSent p r True \<in> S'')"
    if "RestoreHeader r = Some (officeHeader k)" for S' g r p
    unfolding rpcDoRestore_def by (rule acts_rewrap, rule acts_noted) (auto simp: permitted_def that)
  have "issues k S' (seq (rewrap g (rpcDoRestore E r p)) (seq (writeClusterSpec E spec) (seq (removeCommand E c) (ret True))))"
    if "RestoreHeader r = Some (officeHeader k)" for S' g r p
    by (rule acts_seq [OF sent [OF that]], rule acts_seq [OF spec], rule does_seq [OF remove]) (auto intro: acts_ret)
  then show ?thesis
    unfolding restoreBackupAndLiftQuarantine_def
    by (auto intro!: does_header does_bind does_collect quiet_parts acts_rewrap acts_inSystem acts_rangeOver acts_stop acts_ret split: option.split list.split)
qed

lemma prepareForUpgrade_issues: "issues k S (prepareForUpgrade E spec cs)"
  unfolding prepareForUpgrade_def
  by (auto intro!: does_intros split: list.split)

lemma awaitCommand_issues: "issues k S (awaitCommand fuel E)"
  by (induction fuel arbitrary: S) (auto intro!: does_seq does_bind acts_rewrap quiet_parts acts_gets acts_ret acts_stop)

lemma stopForUpgrade_issues: "issues k S (stopForUpgrade fuel E spec cs)"
proof -
  have schedule: "issues k S' (scheduleRestore fuel E spec name)" if "backedUp S'" for S' name
    unfolding scheduleRestore_def Let_def
    by (auto intro!: does_seq acts_rewrap acts_noted awaitCommand_issues simp: permitted_def that)
  have stop: "issues k S' (stopMembers E cs m)" for S' m
    unfolding stopMembers_def rpcStopEtcd_def
    by (auto intro!: does_intros acts_noted simp: permitted_def split: option.split)
  show ?thesis
    unfolding stopForUpgrade_def
    by (auto intro!: does_bind prepareForUpgrade_issues acts_rewrap acts_weaken [OF doClusterBackup_acts] updateQuarantine_issues
      acts_bind [OF doClusterBackup_acts] does_seq schedule stop acts_ret)
qed

lemma upgradeInPlace_issues: "issues k S (upgradeInPlace E spec cs)"
  unfolding upgradeInPlace_def upgradeMember_def
  by (auto intro!: does_header does_bind does_seq does_forM does_forReturn prepareForUpgrade_issues acts_rangeOver acts_ret acts_stop acts_rewrap
    acts_bind [OF doClusterBackup_acts] reconfigure_issues split: option.split) (meson backedUp_mono)

section \<open>The loop\<close>

lemma newClusterStep_issues: "issues k S (newClusterStep E acked spec cs)"
  unfolding newClusterStep_def
  by (auto intro!: does_seq quiet_parts acts_ret acts_bind [OF createNewCluster_acts] acts_noted simp: permitted_def) blast

lemma restoreStep_issues: "issues k S (restoreStep E acked spec cs c)"
  unfolding restoreStep_def
  by (auto intro!: does_seq quiet_parts acts_stop acts_ret acts_bind [OF createNewCluster_acts] restore_issues split: option.split)

lemma upgradeStep_issues: "issues k S (upgradeStep fuel E acked spec cs)"
  unfolding upgradeStep_def Let_def
  by (auto intro!: acts_ret upgradeInPlace_issues stopForUpgrade_issues)

lemma repairStep_issues: "(\<And>S'. S \<subseteq> S' \<Longrightarrow> issues k S' continue) \<Longrightarrow> issues k S (repairStep E acked spec cs continue)"
  unfolding repairStep_def by (auto intro!: does_bind quiet_parts removeNodeFromCluster_issues)

lemma resizeStep_issues: "(\<And>S'. S \<subseteq> S' \<Longrightarrow> issues k S' continue) \<Longrightarrow> issues k S (resizeStep E acked spec cs continue)"
  unfolding resizeStep_def Let_def
  by (auto intro!: does_bind does_attempt quiet_parts acts_stop acts_ret addNodeToCluster_issues removeNodeFromCluster_issues repairStep_issues)

lemma quarantineStep_issues: "(\<And>S'. S \<subseteq> S' \<Longrightarrow> issues k S' continue) \<Longrightarrow> issues k S (quarantineStep E acked spec cs continue)"
  unfolding quarantineStep_def Let_def by (auto intro!: updateQuarantine_issues acts_ret)

lemma maybeBackup_issues: "issues k S (maybeBackup E spec cs)"
  unfolding maybeBackup_def
  by (auto intro!: does_bind acts_nowC acts_gets acts_ret acts_bind [OF doClusterBackup_acts] does_seq acts_updCtl does_attempt acts_inSystem)

lemma steadyStep_issues: "issues k S (steadyStep fuel E acked spec cs)"
  unfolding steadyStep_def
  by (auto intro!: does_seq does_bind does_attempt maybeBackup_issues acts_ret quiet_parts quarantineStep_issues resizeStep_issues
    reconcileTLS_issues upgradeStep_issues)

lemma reconcile_issues: "issues k S (reconcile fuel E acked cs)"
  unfolding reconcile_def
  by (auto intro!: does_bind acts_gets acts_ret restoreStep_issues steadyStep_issues split: option.split)

lemma lead_issues: "issues k S (lead fuel E ps)"
  unfolding lead_def announceMembers_def
  by (auto intro!: does_bind does_seq acts_rewrap updateClusterState_quiet quiet_parts broadcast_issues acts_gets acts_ret acts_inSystem
    newClusterStep_issues reconcile_issues split: option.split)

text \<open>An iteration issues nothing unless it reaches \<open>lead\<close>.\<close>

lemma wp_inSystem: "wp (inSystem p) Q w = wp p (\<lambda>r s. Q r (w\<lparr>system := s\<rparr>)) (system w)"
  by (simp add: inSystem_def wp_def split: prod.split)

lemma wp_inSystemI: "(\<And>r s. p (system w) = (r, s) \<Longrightarrow> Q r (w\<lparr>system := s\<rparr>)) \<Longrightarrow> wp (inSystem p) Q w"
  unfolding wp_inSystem by (rule wpI)

lemma releaseLeaderLock_history: "wp (releaseLeaderLock E) (\<lambda>_ w'. history w' = history w) w"
  by (auto simp: releaseLeaderLock_def updCtl_def wp_bind wp_seq wp_gets wp_ret wp_rewrap wp_modify intro!: wp_inSystemI split: option.split outcome.split)

lemma takeLeadership_history: "wp (takeLeadership E) (\<lambda>_ w'. history w' = history w) w"
  by (auto simp: takeLeadership_def refreshControlStore_def nowC_def tickC_def updCtl_def wp_bind wp_seq wp_gets wp_ret wp_rewrap wp_modify wp_if
    wp_def [of "\<lambda>w. (Ret (ctlTick w), w\<lparr>ctlTick := Suc (ctlTick w)\<rparr>)"]
    intro!: wp_inSystemI split: option.split outcome.split prod.split)

lemma takeLeaderLock_spec: "wp (takeLeaderLock E) (\<lambda>r w'. history w' = history w \<and> leadershipOf (ctl w') = leadershipOf (ctl w) \<and>
    ctlClusterName (ctl w') = ctlClusterName (ctl w) \<and> (r = Ret True \<and> hasLeaderLock (ctl w) \<longrightarrow> leaderLockGuard (ctl w') \<noteq> None)) w"
  by (auto simp: takeLeaderLock_def updCtl_def wp_bind wp_seq wp_gets wp_ret wp_rewrap wp_modify wp_if intro!: wp_inSystemI split: option.split outcome.split)

text \<open>\<open>leads E w w' l\<close>: the node has the lowest id of the peers it sees, all of them acknowledged its leadership \<open>l\<close>, and it has the lock if there is one.\<close>

definition leads :: "'w ctlEnv \<Rightarrow> 'w ctlWorld \<Rightarrow> 'w ctlWorld \<Rightarrow> leadershipState \<Rightarrow> bool" where
  "leads E w w' l \<longleftrightarrow> leadershipOf (ctl w) = Some l \<and>
     (\<exists>infos. fst (peersOf E (system w)) = Ret infos \<and> (\<forall>i \<in> set infos. InfoId i \<in> set (ackedPeers l) \<and> myPeerId E \<le> InfoId i) \<and> myPeerId E \<in> InfoId ` set infos) \<and>
     (hasLeaderLock (ctl w) \<longrightarrow> leaderLockGuard (ctl w') \<noteq> None)"

definition iteration :: "'w ctlEnv \<Rightarrow> 'w ctlWorld \<Rightarrow> 'w ctlWorld \<Rightarrow> bool" where
  "iteration E w w' \<longleftrightarrow> history w' = history w \<or>
     (\<exists>l d. leads E w w' l \<and> history w' = history w @ d \<and> okFrom (permitted (Some l, ctlClusterName (ctl w), leaderLockGuard (ctl w'))) {} d)"

lemma hd_sort_key_le: "x \<in> set xs \<Longrightarrow> f (hd (sort_key f xs)) \<le> (f x :: 'b :: linorder)"
proof -
  assume "x \<in> set xs"
  then obtain y ys where s: "sort_key f xs = y # ys" by (cases "sort_key f xs") (auto dest: arg_cong [of _ _ length])
  have "x \<in> set (y # ys)" using \<open>x \<in> set xs\<close> unfolding s [symmetric] by simp
  moreover have "sorted (map f (y # ys))" unfolding s [symmetric] by simp
  ultimately show ?thesis by (auto simp: s)
qed

lemma lead_iteration:
  assumes "leadershipOf (ctl w) = Some l" and "fst (peersOf E (system w)) = Ret infos" and "myPeerId E \<in> InfoId ` set infos"
    and "InfoId (hd (sort_key InfoId infos)) = myPeerId E" and "list_all (\<lambda>p. InfoId p \<in> set (ackedPeers l)) (sort_key InfoId infos)"
    and "history u = history w" "leadershipOf (ctl u) = Some l" "ctlClusterName (ctl u) = ctlClusterName (ctl w)"
    and "hasLeaderLock (ctl w) \<longrightarrow> leaderLockGuard (ctl u) \<noteq> None"
  shows "wp (lead fuel E ps) (\<lambda>_. iteration E w) u"
proof (rule wpI)
  fix r w' assume run: "lead fuel E ps u = (r, w')"
  have u: "officeOf u = (Some l, ctlClusterName (ctl w), leaderLockGuard (ctl u))" using assms(7,8) by (simp add: officeOf_def)
  from actsD [OF lead_issues u run] obtain d where d: "officeOf w' = officeOf u" "history w' = history u @ d"
      "okFrom (permitted (officeOf u)) {} d" unfolding u by blast
  have "InfoId i \<in> set (ackedPeers l) \<and> myPeerId E \<le> InfoId i" if "i \<in> set infos" for i
    using assms(4,5) hd_sort_key_le [of i infos InfoId] that by (auto simp: list_all_iff)
  then have "leads E w w' l" using assms(1-3,9) d(1) by (auto simp: leads_def officeOf_def)
  moreover have "okFrom (permitted (Some l, ctlClusterName (ctl w), leaderLockGuard (ctl w'))) {} d"
    using d(1,3) assms(7,8) by (simp add: officeOf_def)
  ultimately show "iteration E w w'" using d(2) assms(6) by (auto simp: iteration_def)
qed

lemma run_iteration: "wp (run fuel E) (\<lambda>_. iteration E w) w"
proof -
  have quiet: "iteration E w w'" if "history w' = history w" for w' using that by (simp add: iteration_def)
  have lock: "wp (takeLeaderLock E) Q u"
    if "\<And>r u'. history u' = history u \<Longrightarrow> leadershipOf (ctl u') = leadershipOf (ctl u) \<Longrightarrow> ctlClusterName (ctl u') = ctlClusterName (ctl u) \<Longrightarrow>
      (r = Ret True \<and> hasLeaderLock (ctl u) \<longrightarrow> leaderLockGuard (ctl u') \<noteq> None) \<Longrightarrow> Q r u'" for Q u
    by (rule wp_mono [OF takeLeaderLock_spec]) (use that in blast)
  have release: "wp (releaseLeaderLock E) Q u" if "\<And>r u'. history u' = history u \<Longrightarrow> Q r u'" for Q u
    by (rule wp_mono [OF releaseLeaderLock_history]) (use that in blast)
  have take: "wp (takeLeadership E) Q u" if "\<And>r u'. history u' = history u \<Longrightarrow> Q r u'" for Q u
    by (rule wp_mono [OF takeLeadership_history]) (use that in blast)
  show ?thesis
    unfolding run_def Let_def
    by (auto simp: wp_bind wp_seq wp_if wp_fail wp_ret wp_gets wp_rewrap wp_modify updCtl_def quiet
        intro!: wp_inSystemI lock release take lead_iteration split: outcome.split option.split)
qed

section \<open>Quorums\<close>

text \<open>
  \<open>drastic\<close>: starting, stopping or restoring a cluster, changing its members or version, and telling the control store so. Copying
  data away, quarantine and TLS are not.
\<close>

fun drastic :: "action \<Rightarrow> bool" where
  "drastic (JoinSent _ _ _) = True" | "drastic (StopSent _ _ _) = True" | "drastic (RestoreSent _ _ _) = True"
| "drastic (MemberAdded _ _) = True" | "drastic (MemberRemoved _ _) = True" | "drastic (SpecSet _ _) = True"
| "drastic (CreatedMarked _) = True" | "drastic (CommandAdded _ _) = True" | "drastic (CommandRemoved _ _) = True"
| "drastic (ReconfigureSent _ r _) = (SetEtcdVersion r \<noteq> '''')" | "drastic _ = False"

lemma quorumSize_le: "1 \<le> n \<Longrightarrow> quorumSize n \<le> n"
  by (simp add: quorumSize_def)

lemma quorum_pigeonhole: "0 \<le> n \<Longrightarrow> n < 2 * quorumSize n"
  by (simp add: quorumSize_def)

text \<open>Families of actions that may be issued in any order: what holds of the parts for one of them.\<close>

locale action_class =
  fixes ok :: "action \<Rightarrow> bool"
  assumes backup: "ok (BackupSent p r b)" and endpoints: "ok (EndpointsSent p mm b)" and peerURLs: "ok (PeerURLsSet i urls b)"
    and plainReconfigure: "SetEtcdVersion rc = '''' \<Longrightarrow> ok (ReconfigureSent p rc b)"
begin

lemma backup_does: "does (\<lambda>_. ok) k S (doClusterBackup E spec cs)"
  unfolding doClusterBackup_def backupOn_def rpcDoBackup_def
  by (auto intro!: does_intros quiet_parts acts_noted simp: backup split: option.split sum.split)

lemma maybeBackup_does: "does (\<lambda>_. ok) k S (maybeBackup E spec cs)"
  unfolding maybeBackup_def by (auto intro!: does_intros backup_does)

lemma quarantine_does: "does (\<lambda>_. ok) k S (updateQuarantine E cs q)"
  unfolding updateQuarantine_def rpcReconfigure_def
  by (auto intro!: does_intros quiet_parts acts_noted simp: plainReconfigure split: option.split)

lemma tls_does: "does (\<lambda>_. ok) k S (reconcileTLS E cs)"
  unfolding reconcileTLS_def reconcilePeer_def updatePeerURLs_def enableTLS_def rpcReconfigure_def Let_def
  by (auto intro!: does_intros quiet_parts acts_noted simp: plainReconfigure peerURLs split: option.split list.split prod.split)

lemma quarantineStep_does: "(\<And>S'. S \<subseteq> S' \<Longrightarrow> does (\<lambda>_. ok) k S' continue) \<Longrightarrow> does (\<lambda>_. ok) k S (quarantineStep E acked spec cs continue)"
  unfolding quarantineStep_def Let_def by (auto intro!: quarantine_does acts_ret)

lemma steadyStep_does:
  assumes "\<And>S continue. (\<And>S'. S \<subseteq> S' \<Longrightarrow> does (\<lambda>_. ok) k S' continue) \<Longrightarrow> does (\<lambda>_. ok) k S (resizeStep E acked spec cs continue)"
    and "\<And>S. does (\<lambda>_. ok) k S (upgradeStep fuel E acked spec cs)"
  shows "does (\<lambda>_. ok) k S (steadyStep fuel E acked spec cs)"
  unfolding steadyStep_def
  by (auto intro!: does_seq does_bind does_attempt maybeBackup_does acts_ret quiet_parts quarantineStep_does assms tls_does)

end

interpretation calm: action_class "\<lambda>a. \<not> drastic a"
  by unfold_locales simp_all

interpretation noRemoval: action_class "\<lambda>a. \<forall>i b. a \<noteq> MemberRemoved i b"
  by unfold_locales simp_all

lemma minority_reconcile:
  assumes spec: "1 \<le> MemberCount spec" "acked < quorumSize (MemberCount spec)" "acked < quorumSize (int (length (members cs)))"
    and peers: "int (length (clusterPeers cs)) \<le> acked" and w: "officeOf w = k" "controlClusterSpec (ctl w) = Some spec"
    and run: "reconcile fuel E acked cs w = (r, w')"
  shows "\<exists>d. history w' = history w @ d \<and> (\<forall>a \<in> set d. \<not> drastic a)"
proof -
  have "int (length (filter clustered (map snd (clusterPeers cs)))) \<le> int (length (clusterPeers cs))"
    by (metis length_filter_le length_map of_nat_le_iff)
  then have configured: "int (length (filter clustered (map snd (clusterPeers cs)))) \<le> MemberCount spec"
    using peers spec(1,2) quorumSize_le [OF spec(1)] by linarith
  have resize: "does (\<lambda>_ a. \<not> drastic a) k S (resizeStep E acked spec cs continue)" if "\<And>S'. S \<subseteq> S' \<Longrightarrow> does (\<lambda>_ a. \<not> drastic a) k S' continue" for S continue
    unfolding resizeStep_def repairStep_def Let_def
    by (use spec configured that in \<open>auto intro!: does_bind does_attempt quiet_parts acts_stop acts_ret\<close>)
  have upgrade: "does (\<lambda>_ a. \<not> drastic a) k S (upgradeStep fuel E acked spec cs)" for S
    unfolding upgradeStep_def Let_def using spec by (auto intro: acts_ret)
  have "does (\<lambda>_ a. \<not> drastic a) k {} (restoreStep E acked spec cs c)" for c
    unfolding restoreStep_def by (use spec in \<open>auto intro!: does_seq quiet_parts acts_stop acts_ret split: option.split\<close>)
  moreover have "does (\<lambda>_ a. \<not> drastic a) k {} (steadyStep fuel E acked spec cs)"
    by (rule calm.steadyStep_does [OF resize upgrade])
  ultimately obtain p where p: "does (\<lambda>_ a. \<not> drastic a) k {} p" "p w = (r, w')"
    using run w(2) by (cases "getRestoreBackupCommand (ctl w)") (auto simp: reconcile_def bind_def gets_def)
  have "\<forall>a \<in> set d. \<not> drastic a" if "okFrom (\<lambda>_ a. \<not> drastic a) S d" for S d using that by (induction d arbitrary: S) auto
  then show ?thesis using actsD [OF p(1) w(1) p(2)] by blast
qed

lemma full_size_reconcile:
  assumes size: "MemberCount spec = int (length (members cs))" "int (length (filter clustered (map snd (clusterPeers cs)))) \<le> MemberCount spec"
    and w: "officeOf w = k" and run: "steadyStep fuel E acked spec cs w = (r, w')"
  shows "\<exists>d. history w' = history w @ d \<and> (\<forall>i b. MemberRemoved i b \<notin> set d)"
proof -
  let ?A = "\<lambda>_ a. \<forall>i b. a \<noteq> MemberRemoved i b"
  have resize: "does ?A k S (resizeStep E acked spec cs continue)" if "\<And>S'. S \<subseteq> S' \<Longrightarrow> does ?A k S' continue" for S continue
    unfolding resizeStep_def repairStep_def Let_def
    by (use size that in \<open>auto intro!: does_bind quiet_parts acts_ret\<close>)
  have prepare: "does ?A k S (prepareForUpgrade E spec cs)" for S
    unfolding prepareForUpgrade_def by (auto intro!: does_intros split: list.split)
  have await: "does ?A k S (awaitCommand fuel E)" for S
    by (induction fuel arbitrary: S) (auto intro!: does_seq does_bind acts_rewrap quiet_parts acts_gets acts_ret acts_stop)
  have "does ?A k S (stopForUpgrade fuel E spec cs)" for S
    unfolding stopForUpgrade_def scheduleRestore_def stopMembers_def rpcStopEtcd_def Let_def
    by (auto intro!: does_intros prepare await noRemoval.backup_does noRemoval.quarantine_does acts_noted split: option.split)
  moreover have "does ?A k S (upgradeInPlace E spec cs)" for S
    unfolding upgradeInPlace_def upgradeMember_def rpcReconfigure_def
    by (auto intro!: does_intros prepare noRemoval.backup_does acts_noted split: option.split)
  ultimately have upgrade: "does ?A k S (upgradeStep fuel E acked spec cs)" for S
    unfolding upgradeStep_def Let_def by (auto intro: acts_ret)
  have "\<forall>i b. MemberRemoved i b \<notin> set d" if "okFrom ?A S d" for S d using that by (induction d arbitrary: S) auto
  then show ?thesis using actsD [OF noRemoval.steadyStep_does [OF resize upgrade, of "{}"] w run] by blast
qed

end
