(* ===== verification/ControllerProperties.thy ===== *)
theory ControllerProperties
  imports ControllerSafety
begin

text \<open>
  The properties of the controller: the order of requests, who may issue them, quorums, and the life of a controller over
  many iterations; with an example node that creates a cluster.
\<close>

section \<open>Properties\<close>

text \<open>
  C4. The order of an iteration. Whatever the environment answers, the requests of one iteration of the control loop come in the
  order of the protocol: members are changed and versions set only after a successful backup in the same iteration; a member is added only after some peer was prepared;
  a peer is told to found or join a cluster only after it was itself prepared with the same token and nodes; the
  control store learns of a created cluster or a done restore only after the new spec was written.
\<close>

theorem controller_follows_protocol:
  assumes "run fuel E w = (r, w')"
  shows "\<exists>d. history w' = history w @ d \<and> (\<forall>pre a post. d = pre @ a # post \<longrightarrow> protocol (set pre) a)"
proof -
  have "protocol (set pre) a" if "okFrom (permitted k) {} (pre @ a # post)" for k pre a post
    using okFrom_nth [OF that] by (simp add: permitted_def)
  then show ?thesis using wpD [OF run_iteration assms] by (auto simp: iteration_def)
qed

text \<open>
  C5. Only an acknowledged leader acts. If an iteration issues anything, then the node has the lowest id among the peers it sees,
  all of these acknowledged its leadership, it holds the leader lock if one is configured, and every request that has a
  header carries the token of this leadership and the name of its cluster.
\<close>

theorem only_acked_leader_acts:
  assumes "run fuel E w = (r, w')" and "history w' \<noteq> history w"
  shows "\<exists>l infos d. leadershipOf (ctl w) = Some l \<and> fst (peersOf E (system w)) = Ret infos \<and> myPeerId E \<in> InfoId ` set infos \<and>
    (\<forall>i \<in> set infos. InfoId i \<in> set (ackedPeers l) \<and> myPeerId E \<le> InfoId i) \<and> (hasLeaderLock (ctl w) \<longrightarrow> leaderLockGuard (ctl w') \<noteq> None) \<and>
    history w' = history w @ d \<and> (\<forall>a \<in> set d. carries \<lparr>HeaderToken = leaderToken l, HeaderCluster = ctlClusterName (ctl w)\<rparr> a)"
proof -
  have "\<forall>a \<in> set d. carries (officeHeader k) a" if "okFrom (permitted k) S d" for k S d
    using that by (induction d arbitrary: S) (auto simp: permitted_def)
  note carried = this
  obtain l d where l: "leads E w w' l" and d: "history w' = history w @ d"
      and ok: "okFrom (permitted (Some l, ctlClusterName (ctl w), leaderLockGuard (ctl w'))) {} d"
    using wpD [OF run_iteration assms(1)] assms(2) by (auto simp: iteration_def)
  obtain infos where "fst (peersOf E (system w)) = Ret infos" "myPeerId E \<in> InfoId ` set infos"
      "\<forall>i \<in> set infos. InfoId i \<in> set (ackedPeers l) \<and> myPeerId E \<le> InfoId i"
    using l unfolding leads_def by blast
  then show ?thesis
    using l d carried [OF ok] by (intro exI [of _ l] exI [of _ infos] exI [of _ d]) (simp add: leads_def officeHeader_def)
qed


text \<open>C28. Two quorums of the same peers have a peer in common.\<close>

theorem quorums_intersect:
  assumes "finite P" and "A \<subseteq> P" and "B \<subseteq> P" and "quorumSize (int (card P)) \<le> int (card A)" and "quorumSize (int (card P)) \<le> int (card B)"
  shows "A \<inter> B \<noteq> {}"
proof
  assume "A \<inter> B = {}"
  moreover have "finite A" "finite B" using assms(1-3) finite_subset by blast+
  ultimately have "card A + card B = card (A \<union> B)" by (simp add: card_Un_disjoint)
  also have "\<dots> \<le> card P" using assms(1-3) by (intro card_mono) auto
  finally show False using assms(4,5) quorum_pigeonhole [of "int (card P)"] by simp
qed

lemma propose_take: "propose desired acc ps = (if int (length acc) < desired then acc @ take (nat (desired - int (length acc))) ps else acc @ ps)"
proof (induction desired acc ps rule: propose.induct)
  case (2 desired acc p ps)
  show ?case
  proof (cases "int (length acc) < desired")
    case True
    then have "nat (desired - int (length acc)) = Suc (nat (desired - int (length (acc @ [p]))))" by simp
    then show ?thesis using 2 True by (cases "int (length (acc @ [p])) = desired") (simp_all add: Let_def)
  next
    case False
    then show ?thesis using 2 by (simp add: Let_def)
  qed
qed simp



lemma iteration_protocol: "wp (run fuel E) (\<lambda>_ w'. \<exists>d. history w' = history w @ d \<and> okFrom protocol {} d) w"
proof (rule wp_mono [OF run_iteration])
  fix w' assume "iteration E w w'"
  moreover have "okFrom protocol S d" if "okFrom (permitted k) S d" for k S d
    using that by (induction d arbitrary: S) (auto simp: permitted_def)
  ultimately show "\<exists>d. history w' = history w @ d \<and> okFrom protocol {} d" by (auto simp: iteration_def intro: exI [of _ "[]"])
qed

lemma release_frees:
  assumes "\<And>g s. fst (releaseLock E g s) = Ret ()"
  shows "wp (releaseLeaderLock E) (\<lambda>r w'. r = Ret () \<and> history w' = history w \<and> leaderLockGuard (ctl w') = None) w"
proof -
  have free: "wp (inSystem (releaseLock E g)) Q u" if "\<And>s. Q (Ret ()) (u\<lparr>system := s\<rparr>)" for g Q and u :: "'a ctlWorld"
  proof (rule wp_inSystemI)
    fix r s assume "releaseLock E g (system u) = (r, s)"
    then show "Q r (u\<lparr>system := s\<rparr>)" using assms [of g "system u"] that by simp
  qed
  show ?thesis
    by (auto simp: releaseLeaderLock_def wp_bind wp_gets wp_ret wp_seq wp_rewrap wp_modify updCtl_def intro!: free split: option.split)
qed

definition lived :: "'w ctlWorld \<Rightarrow> unit outcome \<Rightarrow> 'w ctlWorld \<Rightarrow> bool" where
  "lived w r w' \<longleftrightarrow> (\<exists>ds. history w' = history w @ concat ds \<and> (\<forall>d \<in> set ds. okFrom protocol {} d)) \<and>
     (r = Ret () \<longrightarrow> leaderLockGuard (ctl w') = None)"

lemma lived_more: "history u = history w @ d \<Longrightarrow> okFrom protocol {} d \<Longrightarrow> lived u r w' \<Longrightarrow> lived w r w'"
  unfolding lived_def by (metis append.assoc concat.simps(2) set_ConsD)

lemma RunController_lives:
  assumes "\<And>g s. fst (releaseLock E g s) = Ret ()"
  shows "wp (RunController n fuel E) (lived w) w"
proof (induction n arbitrary: w)
  case 0
  have "lived w (Ret ()) u" if "history u = history w" "leaderLockGuard (ctl u) = None" for u
    unfolding lived_def using that by (auto intro!: exI [of _ "[]"])
  then show ?case
    unfolding RunController.simps wp_bind wp_attempt by (intro wp_mono [OF release_frees [OF assms]]) (simp add: wp_ret)
next
  case (Suc n)
  show ?case
    unfolding RunController.simps wp_bind wp_attempt
  proof (rule wp_mono [OF iteration_protocol])
    fix r :: "bool outcome" and u :: "'a ctlWorld" assume "\<exists>d. history u = history w @ d \<and> okFrom protocol {} d"
    then obtain d where d: "history u = history w @ d" "okFrom protocol {} d" by blast
    have later: "wp (RunController n fuel E) (lived w) u" by (rule wp_mono [OF Suc.IH]) (rule lived_more [OF d])
    have crashed: "lived w (Crash m) u" for m unfolding lived_def using d by (auto intro!: exI [of _ "[d]"])
    show "case r of Ret x \<Rightarrow> (case Ret (Inr x) of Ret x \<Rightarrow> wp (RunController n fuel E) (lived w) u | Err e \<Rightarrow> lived w (Err e) u | Crash m \<Rightarrow> lived w (Crash m) u)
        | Err e \<Rightarrow> (case Ret (Inl e) of Ret x \<Rightarrow> wp (RunController n fuel E) (lived w) u | Err e \<Rightarrow> lived w (Err e) u | Crash m \<Rightarrow> lived w (Crash m) u)
        | Crash m \<Rightarrow> (case Crash m of Ret x \<Rightarrow> wp (RunController n fuel E) (lived w) u | Err e \<Rightarrow> lived w (Err e) u | Crash m \<Rightarrow> lived w (Crash m) u)"
      using later crashed by (simp split: outcome.split)
  qed
qed


section \<open>An example controller\<close>

text \<open>A single node that is leader and finds a control store with a spec and no cluster; the calls all succeed.\<close>

definition exampleSpec :: ClusterSpec where
  "exampleSpec = \<lparr>MemberCount = 1, SpecVersion = ''3.5.7''\<rparr>"

definition exampleCtlEnv :: "unit ctlEnv" where
  "exampleCtlEnv = \<lparr>myPeerId = ''a'', peersOf = ret [\<lparr>InfoId = ''a'', Endpoints = [''10.0.0.1'']\<rparr>], becomeLeader = ret ([''a''], ''lead''),
     assertLeadership = \<lambda>_. ret (), acquireLock = \<lambda>_. ret (Some 0), releaseLock = \<lambda>_. ret (), storeList = ret [], storeGetSpec = ret (Some exampleSpec),
     storeSetSpec = \<lambda>_. ret (), storeIsNew = ret True, storeMark = ret (), storeAdd = \<lambda>_. ret (), storeRemove = \<lambda>_. ret (), backupSpec = ''file:///b'',
     backupInfo = \<lambda>_. fail (Errorf ''not found''), backupMaintenance = ret (),
     callGetInfo = \<lambda>_. ret \<lparr>InfoClusterName = ''c'', NodeConfiguration = Some exampleNode, InfoState = None\<rparr>,
     callUpdateEndpoints = \<lambda>_ _. ret (), callJoinCluster = \<lambda>_ _. ret (), callReconfigure = \<lambda>_ _. ret (), callStopEtcd = \<lambda>_ _. ret (),
     callDoBackup = \<lambda>_ _. ret ''b1'', callDoRestore = \<lambda>_ _. ret (), clientFor = \<lambda>_. Inl (Errorf ''connection refused''), ctlNow = \<lambda>n. int n * Second,
     mapOrder = \<lambda>_. [], tokenAt = \<lambda>_. Some ''t'', randIntn = \<lambda>_ _. 0, ctlOs = exampleOs\<rparr>"

definition exampleCtl :: "unit ctlWorld" where
  "exampleCtl = \<lparr>ctl = \<lparr>ctlClusterName = ''c'', dnsSuffix = '''', controlRefreshInterval = 0, backupInterval = Hour, hasLeaderLock = True,
     leaderLockGuard = Some 0, leadershipOf = Some \<lparr>leaderToken = ''lead'', ackedPeers = [''a'']\<rparr>, peerState = [], lastBackup = 0, controlCommands = [],
     controlLastRead = 0, controlClusterSpec = None, disableEtcdTLS = False\<rparr>, history = [], ctlTick = 0, system = ()\<rparr>"

lemma example_run: "fst (run 0 exampleCtlEnv exampleCtl) = Ret True \<and> length (history (snd (run 0 exampleCtlEnv exampleCtl))) = 6 \<and>
    last (history (snd (run 0 exampleCtlEnv exampleCtl))) = CreatedMarked True"
  by code_simp

theorem controller_follows_protocol_witness:
  "last (history (snd (run 0 exampleCtlEnv exampleCtl))) = CreatedMarked True \<and>
   protocol (set (butlast (history (snd (run 0 exampleCtlEnv exampleCtl))))) (CreatedMarked True)"
proof -
  obtain r w' where run: "run 0 exampleCtlEnv exampleCtl = (r, w')" by (cases "run 0 exampleCtlEnv exampleCtl")
  have h: "length (history w') = 6" "last (history w') = CreatedMarked True" using example_run run by auto
  have "history exampleCtl = []" by (simp add: exampleCtl_def)
  with controller_follows_protocol [OF run] have "\<forall>pre a post. history w' = pre @ a # post \<longrightarrow> protocol (set pre) a" by simp
  moreover have "history w' = butlast (history w') @ CreatedMarked True # []" using h append_butlast_last_id [of "history w'"] by force
  ultimately have "protocol (set (butlast (history w'))) (CreatedMarked True)" by blast
  then show ?thesis using h(2) run by (simp del: protocol.simps)
qed

theorem only_acked_leader_acts_witness:
  "history (snd (run 0 exampleCtlEnv exampleCtl)) \<noteq> [] \<and>
   list_all (carries \<lparr>HeaderToken = ''lead'', HeaderCluster = ''c''\<rparr>) (history (snd (run 0 exampleCtlEnv exampleCtl)))"
proof -
  obtain r w' where run: "run 0 exampleCtlEnv exampleCtl = (r, w')" by (cases "run 0 exampleCtlEnv exampleCtl")
  have h: "history w' \<noteq> history exampleCtl" using example_run run by (auto simp: exampleCtl_def)
  from only_acked_leader_acts [OF run h] show ?thesis using h run by (auto simp: exampleCtl_def list_all_iff)
qed

definition exampleMembers :: etcdClusterState where
  "exampleMembers = (let m = \<lparr>MemberName = ''x'', PeerURLs = [], ClientURLs = [], memberVersion = ''3.x'', MemberID = ''1'', idv3 = 1\<rparr>
     in \<lparr>members = [(''1'', m), (''2'', m), (''3'', m)], clusterPeers = [], healthyMembers = []\<rparr>)"


theorem quorums_intersect_witness: "{1 :: nat, 2} \<inter> {2, 3} \<noteq> {}"
  by (rule quorums_intersect [of "{1, 2, 3 :: nat}"]) (simp_all add: quorumSize_def)




end
