(* ===== verification/AdmConfig.thy ===== *)
theory AdmConfig
  imports EtcdApi
begin

text \<open>
  The configuration of etcdadm (\<open>apis/config.go\<close>), the files generated from it (\<open>constants/constants.go\<close>, \<open>service/unit.go\<close>, \<open>service/etcdctl.go\<close>),
  the reading of an environment file (\<open>service/diff.go\<close>) and the pod of the kubelet (\<open>initsystem/kubelet/initsystem.go\<close>); with what etcd is
  told by both init systems.
\<close>

section \<open>URLs\<close>

text \<open>
  The URLs that are built here have a scheme and a host with a port. \<open>URL.String\<close> prints them without escaping, since the host is the text of an IP address.
  \<open>Hostname\<close> is \<open>URL.Hostname\<close>: the port after the last colon is dropped when it is valid, then brackets.
\<close>

record URL =
  Scheme :: string
  Host :: string

definition urlString :: "URL \<Rightarrow> string" where
  "urlString u = (if Scheme u \<noteq> '''' then Scheme u @ '':'' else '''') @ (if Host u \<noteq> '''' then ''//'' @ Host u else '''')"

definition Hostname :: "URL \<Rightarrow> string" where
  "Hostname u = (let h = Host u;
       h1 = (case LastIndexByte (CHR '':'') h of None \<Rightarrow> h | Some i \<Rightarrow> if list_all isDigit (drop (Suc i) h) then take i h else h)
     in if HasPrefix h1 ''['' \<and> HasSuffix h1 '']'' then butlast (tl h1) else h1)"

definition StringSlice :: "URL list \<Rightarrow> string list" where
  "StringSlice l = map urlString l"

definition URLListString :: "URL list \<Rightarrow> string" where
  "URLListString l = Join '','' (StringSlice l)"

section \<open>The configuration\<close>

record EtcdAdmConfig =
  Version :: string
  ReleaseURL :: string
  ImageRepository :: string
  CertificatesDir :: string
  PeerCertFile :: string
  PeerKeyFile :: string
  PeerTrustedCAFile :: string
  CertFile :: string
  KeyFile :: string
  TrustedCAFile :: string
  EtcdctlCertFile :: string
  EtcdctlKeyFile :: string
  AdmDataDir :: string
  InstallDir :: string
  CacheDir :: string
  PodSpecDir :: string
  BindAddr :: string
  UnitFile :: string
  EnvironmentFile :: string
  EtcdExecutable :: string
  EtcdctlExecutable :: string
  EtcdctlEnvFile :: string
  EtcdctlShellWrapper :: string
  EtcdDiskPriorities :: "string list"
  InitialAdvertisePeerURLs :: "URL list"
  ListenPeerURLs :: "URL list"
  AdvertiseClientURLs :: "URL list"
  ListenClientURLs :: "URL list"
  AdmListenMetricsURLs :: "URL list"
  LoopbackClientURL :: URL
  ServerCertSANs :: "string list"
  PeerCertSANs :: "string list"
  AdmName :: string
  InitialCluster :: string
  InitialClusterToken :: string
  InitialClusterState :: string
  GOMAXPROCS :: int
  Snapshot :: string
  SkipHashCheck :: bool
  Retry :: bool
  InitSystem :: string
  Logger :: string
  LogOutputs :: string
  EnableV2 :: string
  Endpoint :: string

text \<open>
  What the defaults are taken from: the host's name, processors and addresses (as texts; \<open>net.ParseIP\<close> gives the text that the address prints),
  a random UUID and the order of map ranges. The addresses may change between two calls.
\<close>

record hostInfo =
  hostname :: "goerr + string"
  numCPU :: int
  uuidV4 :: string
  hostParseIP :: "string \<Rightarrow> string option"
  resolveBindAddress :: "nat \<Rightarrow> goerr + string"
  interfaceAddrs :: "nat \<Rightarrow> goerr + string list"
  sanOrder :: "nat \<Rightarrow> nat list"

definition ensureValidExternalAddress :: "hostInfo \<Rightarrow> nat \<Rightarrow> string \<Rightarrow> goerr + string" where
  "ensureValidExternalAddress H n userAddr =
     (if userAddr = '''' \<or> userAddr = ''0.0.0.0''
      then (case resolveBindAddress H n of Inl e \<Rightarrow> Inl (Wrapf ''failed to find a default external address'' e) | Inr ip \<Rightarrow> Inr ip)
      else (case hostParseIP H userAddr of
          None \<Rightarrow> Inl (Errorf ''invalid bind address: invalid ip format'')
        | Some ip \<Rightarrow> (case interfaceAddrs H n of
            Inl e \<Rightarrow> Inl (Wrapf ''unable to list system unicast addresses to validate bind address'' e)
          | Inr addrs \<Rightarrow> if list_ex (\<lambda>a. a = ip) addrs then Inr ip
              else Inl (Errorf ''invalid bind address: not found in system interfaces''))))"

definition portURL :: "string \<Rightarrow> int \<Rightarrow> URL" where
  "portURL host port = \<lparr>Scheme = ''https'', Host = host @ '':'' @ Itoa port\<rparr>"

definition DefaultInitialAdvertisePeerURLs :: "hostInfo \<Rightarrow> EtcdAdmConfig \<Rightarrow> goerr + EtcdAdmConfig" where
  "DefaultInitialAdvertisePeerURLs H cfg = (case ensureValidExternalAddress H 0 (BindAddr cfg) of
     Inl e \<Rightarrow> Inl (Wrapf ''failed to set default InitialAdvertisePeerURLs'' e)
   | Inr ip \<Rightarrow> Inr (cfg\<lparr>InitialAdvertisePeerURLs := InitialAdvertisePeerURLs cfg @ [portURL ip 2380]\<rparr>))"

definition DefaultListenPeerURLs :: "EtcdAdmConfig \<Rightarrow> EtcdAdmConfig" where
  "DefaultListenPeerURLs cfg = cfg\<lparr>ListenPeerURLs := InitialAdvertisePeerURLs cfg\<rparr>"

definition DefaultPeerURLs :: "hostInfo \<Rightarrow> EtcdAdmConfig \<Rightarrow> goerr + EtcdAdmConfig" where
  "DefaultPeerURLs H cfg = (case DefaultInitialAdvertisePeerURLs H cfg of Inl e \<Rightarrow> Inl e | Inr c \<Rightarrow> Inr (DefaultListenPeerURLs c))"

definition DefaultLoopbackClientURL :: "EtcdAdmConfig \<Rightarrow> EtcdAdmConfig" where
  "DefaultLoopbackClientURL cfg = cfg\<lparr>LoopbackClientURL := portURL ''127.0.0.1'' 2379\<rparr>"

definition DefaultAdvertiseClientURLs :: "hostInfo \<Rightarrow> EtcdAdmConfig \<Rightarrow> goerr + EtcdAdmConfig" where
  "DefaultAdvertiseClientURLs H cfg = (case ensureValidExternalAddress H 1 (BindAddr cfg) of
     Inl e \<Rightarrow> Inl (Wrapf ''failed to set default AdvertiseClientURLs'' e)
   | Inr ip \<Rightarrow> Inr (cfg\<lparr>AdvertiseClientURLs := AdvertiseClientURLs cfg @ [portURL ip 2379]\<rparr>))"

definition DefaultListenClientURLs :: "EtcdAdmConfig \<Rightarrow> EtcdAdmConfig" where
  "DefaultListenClientURLs cfg = cfg\<lparr>ListenClientURLs := AdvertiseClientURLs cfg @ [LoopbackClientURL cfg]\<rparr>"

text \<open>The error of \<open>DefaultAdvertiseClientURLs\<close> is not looked at.\<close>

definition DefaultClientURLs :: "hostInfo \<Rightarrow> EtcdAdmConfig \<Rightarrow> EtcdAdmConfig" where
  "DefaultClientURLs H cfg = (let c = DefaultLoopbackClientURL cfg
     in DefaultListenClientURLs (case DefaultAdvertiseClientURLs H c of Inl e \<Rightarrow> c | Inr c' \<Rightarrow> c'))"

definition urlSANs :: "nat list \<Rightarrow> URL list \<Rightarrow> URL list \<Rightarrow> string list" where
  "urlSANs order us vs = go_range order (remdups (map Hostname us @ map Hostname vs))"

definition DefaultServerCertSANs :: "hostInfo \<Rightarrow> EtcdAdmConfig \<Rightarrow> EtcdAdmConfig" where
  "DefaultServerCertSANs H cfg = cfg\<lparr>ServerCertSANs :=
     ServerCertSANs cfg @ [AdmName cfg] @ urlSANs (sanOrder H 1) (AdvertiseClientURLs cfg) (ListenClientURLs cfg)\<rparr>"

definition DefaultPeerCertSANs :: "hostInfo \<Rightarrow> EtcdAdmConfig \<Rightarrow> EtcdAdmConfig" where
  "DefaultPeerCertSANs H cfg = cfg\<lparr>PeerCertSANs :=
     PeerCertSANs cfg @ [AdmName cfg] @ urlSANs (sanOrder H 0) (InitialAdvertisePeerURLs cfg) (ListenPeerURLs cfg)\<rparr>"

definition SetDefaults :: "EtcdAdmConfig \<Rightarrow> EtcdAdmConfig" where
  "SetDefaults cfg = cfg\<lparr>UnitFile := ''/etc/systemd/system/etcd.service'', EnvironmentFile := ''/etc/etcd/etcd.env'',
     EtcdctlEnvFile := ''/etc/etcd/etcdctl.env''\<rparr>"

definition setPaths :: "hostInfo \<Rightarrow> EtcdAdmConfig \<Rightarrow> EtcdAdmConfig" where
  "setPaths H cfg = (let certs = CertificatesDir cfg; inst = InstallDir cfg in
     cfg\<lparr>CacheDir := pathJoin [''/var/cache/etcdadm/'', ''etcd'', ''v'' @ Version cfg],
       EtcdExecutable := pathJoin [inst, ''etcd''], EtcdctlExecutable := pathJoin [inst, ''etcdctl''],
       EtcdctlShellWrapper := pathJoin [inst, ''etcdctl.sh''],
       PeerCertFile := pathJoin [certs, ''peer.crt''], PeerKeyFile := pathJoin [certs, ''peer.key''],
       PeerTrustedCAFile := pathJoin [certs, ''ca.crt''],
       CertFile := pathJoin [certs, ''server.crt''], KeyFile := pathJoin [certs, ''server.key''],
       TrustedCAFile := pathJoin [certs, ''ca.crt''],
       EtcdctlCertFile := pathJoin [certs, ''etcdctl-etcd-client.crt''], EtcdctlKeyFile := pathJoin [certs, ''etcdctl-etcd-client.key''],
       GOMAXPROCS := numCPU H\<rparr>)"

definition setDynamicDefaults :: "hostInfo \<Rightarrow> EtcdAdmConfig \<Rightarrow> goerr + EtcdAdmConfig" where
  "setDynamicDefaults H cfg =
     (case (if AdmName cfg \<noteq> '''' then Inr (AdmName cfg) else hostname H) of
        Inl e \<Rightarrow> Inl (Wrapf ''unable to use hostname as default name'' e)
      | Inr name \<Rightarrow> (case DefaultPeerURLs H (setPaths H (cfg\<lparr>AdmName := name\<rparr>)) of
          Inl e \<Rightarrow> Inl e
        | Inr c \<Rightarrow> Inr (DefaultServerCertSANs H (DefaultPeerCertSANs H (DefaultClientURLs H c)))))"

definition SetInitDynamicDefaults :: "hostInfo \<Rightarrow> EtcdAdmConfig \<Rightarrow> goerr + EtcdAdmConfig" where
  "SetInitDynamicDefaults H cfg = (case setDynamicDefaults H (cfg\<lparr>InitialClusterState := ''new''\<rparr>) of
     Inl e \<Rightarrow> Inl e
   | Inr c \<Rightarrow> Inr (c\<lparr>InitialClusterToken := take 8 (uuidV4 H),
       InitialCluster := AdmName c @ ''='' @ URLListString (InitialAdvertisePeerURLs c)\<rparr>))"

definition SetJoinDynamicDefaults :: "hostInfo \<Rightarrow> EtcdAdmConfig \<Rightarrow> goerr + EtcdAdmConfig" where
  "SetJoinDynamicDefaults H cfg = setDynamicDefaults H (cfg\<lparr>InitialClusterState := ''existing''\<rparr>)"

definition SetResetDynamicDefaults :: "hostInfo \<Rightarrow> EtcdAdmConfig \<Rightarrow> goerr + EtcdAdmConfig" where
  "SetResetDynamicDefaults H cfg = setDynamicDefaults H cfg"

section \<open>The files written from templates\<close>

text \<open>
  The templates are run by \<open>html/template\<close>, in its text context throughout, so every value passes the HTML escaper of that package.
\<close>

definition escapeChar :: "char \<Rightarrow> string" where
  "escapeChar c =
     (if c = CHR 0x00 then [CHR 0xEF, CHR 0xBF, CHR 0xBD] else if c = CHR 0x22 then ''&#34;'' else if c = CHR ''&'' then ''&amp;''
      else if c = CHR 0x27 then ''&#39;'' else if c = CHR ''+'' then ''&#43;'' else if c = CHR ''<'' then ''&lt;''
      else if c = CHR ''>'' then ''&gt;'' else [c])"

definition htmlEscape :: "string \<Rightarrow> string" where
  "htmlEscape s = concat (map escapeChar s)"

definition newline :: char where
  "newline = CHR 0x0A"

definition envVar :: "string \<Rightarrow> string \<Rightarrow> string" where
  "envVar k v = k @ ''='' @ htmlEscape v"

definition ifSet :: "string \<Rightarrow> string \<Rightarrow> string" where
  "ifSet k v = (if v \<noteq> '''' then envVar k v else '''')"

definition EnvFileTemplate :: "EtcdAdmConfig \<Rightarrow> string list" where
  "EnvFileTemplate cfg =
    [envVar ''ETCD_NAME'' (AdmName cfg),
     '''',
     ''# Initial cluster configuration'',
     envVar ''ETCD_INITIAL_CLUSTER'' (InitialCluster cfg),
     ifSet ''ETCD_INITIAL_CLUSTER_TOKEN'' (InitialClusterToken cfg),
     envVar ''ETCD_INITIAL_CLUSTER_STATE'' (InitialClusterState cfg),
     '''',
     ''# Peer configuration'',
     envVar ''ETCD_INITIAL_ADVERTISE_PEER_URLS'' (URLListString (InitialAdvertisePeerURLs cfg)),
     envVar ''ETCD_LISTEN_PEER_URLS'' (URLListString (ListenPeerURLs cfg)),
     '''',
     ''ETCD_CLIENT_CERT_AUTH=true'',
     envVar ''ETCD_PEER_CERT_FILE'' (PeerCertFile cfg),
     envVar ''ETCD_PEER_KEY_FILE'' (PeerKeyFile cfg),
     envVar ''ETCD_PEER_TRUSTED_CA_FILE'' (PeerTrustedCAFile cfg),
     '''',
     ''# Client/server configuration'',
     envVar ''ETCD_ADVERTISE_CLIENT_URLS'' (URLListString (AdvertiseClientURLs cfg)),
     envVar ''ETCD_LISTEN_CLIENT_URLS'' (URLListString (ListenClientURLs cfg)),
     '''',
     ''ETCD_PEER_CLIENT_CERT_AUTH=true'',
     envVar ''ETCD_CERT_FILE'' (CertFile cfg),
     envVar ''ETCD_KEY_FILE'' (KeyFile cfg),
     envVar ''ETCD_TRUSTED_CA_FILE'' (TrustedCAFile cfg),
     '''',
     ''# Other'',
     envVar ''ETCD_DATA_DIR'' (AdmDataDir cfg),
     ''ETCD_STRICT_RECONFIG_CHECK=true'',
     (if GOMAXPROCS cfg \<noteq> 0 then envVar ''GOMAXPROCS'' (Itoa (GOMAXPROCS cfg)) else ''''),
     ifSet ''ETCD_ENABLE_V2'' (EnableV2 cfg),
     '''',
     ''# Logging configuration'',
     ifSet ''ETCD_LOGGER'' (Logger cfg),
     ifSet ''ETCD_LOG_OUTPUTS'' (LogOutputs cfg),
     '''',
     ''# Profiling/metrics'',
     ifSet ''ETCD_LISTEN_METRICS_URLS'' (URLListString (AdmListenMetricsURLs cfg))]"

definition BuildEnvironment :: "EtcdAdmConfig \<Rightarrow> string" where
  "BuildEnvironment cfg = Join [newline] (EnvFileTemplate cfg @ [''''])"

definition UnitFileTemplate :: "EtcdAdmConfig \<Rightarrow> string" where
  "UnitFileTemplate cfg = Join [newline] (
    [''[Unit]'', ''Description=etcd'', ''Documentation=https://github.com/coreos/etcd'', ''Conflicts=etcd-member.service'',
     ''Conflicts=etcd2.service'', '''', ''[Service]'', ''EnvironmentFile='' @ htmlEscape (EnvironmentFile cfg),
     ''ExecStart='' @ htmlEscape (EtcdExecutable cfg), '''', ''Type=notify'', ''TimeoutStartSec=0'', ''Restart=on-failure'', ''RestartSec=5s'',
     '''', ''LimitNOFILE=65536''] @ map htmlEscape (EtcdDiskPriorities cfg) @
    [''MemoryLow=200M'', '''', ''[Install]'', ''WantedBy=multi-user.target'', ''''])"

definition EtcdctlEnvFileTemplate :: "EtcdAdmConfig \<Rightarrow> string" where
  "EtcdctlEnvFileTemplate cfg = Join [newline]
    [''export ETCDCTL_API=3'', '''', ''export ETCDCTL_CACERT='' @ htmlEscape (TrustedCAFile cfg),
     ''export ETCDCTL_CERT='' @ htmlEscape (EtcdctlCertFile cfg), ''export ETCDCTL_KEY='' @ htmlEscape (EtcdctlKeyFile cfg), '''',
     ''export ETCDCTL_DIAL_TIMEOUT=3s'', '''']"

definition quote :: string where
  "quote = [CHR 0x22]"

definition EtcdctlShellWrapperTemplate :: "EtcdAdmConfig \<Rightarrow> string" where
  "EtcdctlShellWrapperTemplate cfg = (let env = htmlEscape (EtcdctlEnvFile cfg) in Join [newline]
    [''#!/usr/bin/env sh'',
     ''if ! [ -r '' @ quote @ env @ quote @ '' ]; then'',
     CHR 0x09 # ''echo '' @ quote @ ''Unable to read the etcdctl environment file '' @ [CHR 0x27] @ env @ [CHR 0x27] @
       ''. The file must exist, and this wrapper must be run as root.'' @ quote,
     CHR 0x09 # ''exit 1'', ''fi'', ''. '' @ quote @ env @ quote,
     quote @ htmlEscape (EtcdctlExecutable cfg) @ quote @ '' '' @ quote @ ''$@'' @ quote, ''''])"

section \<open>Reading an environment\<close>

text \<open>
  \<open>bufio.Scanner\<close> with the line splitter: the text between newlines, without a carriage return at its end and without an empty last line;
  a line that does not fit the buffer of 64 KiB is an error.
\<close>

definition dropCR :: "string \<Rightarrow> string" where
  "dropCR l = (if l \<noteq> '''' \<and> last l = CHR 0x0D then butlast l else l)"

definition scanLines :: "string \<Rightarrow> string list \<times> goerr option" where
  "scanLines t = (let ls = Split newline t; ls' = (if last ls = '''' then butlast ls else ls); fits = (\<lambda>l. length l < 65536)
     in (map dropCR (takeWhile fits ls'), if list_all fits ls' then None else Some (Errorf ''bufio.Scanner: token too long'')))"

definition parseLine :: "string \<Rightarrow> (string \<times> string) option" where
  "parseLine l =
     (if HasPrefix l ''#'' then None else if TrimSpace l = '''' then None
      else (case Cut (CHR ''='') l of (k, v) \<Rightarrow> Some (TrimSpace k, case v of None \<Rightarrow> '''' | Some v \<Rightarrow> TrimSpace v)))"

definition setAll :: "(string \<times> string) list \<Rightarrow> (string \<times> string) list" where
  "setAll kvs = fold (\<lambda>(k, v). put k v) kvs []"

definition makeEnvironment :: "string \<Rightarrow> goerr + (string \<times> string) list" where
  "makeEnvironment t = (case scanLines t of (ls, None) \<Rightarrow> Inr (setAll (List.map_filter parseLine ls)) | (_, Some e) \<Rightarrow> Inl e)"

text \<open>The difference of two environments, as pairs of the desired and the last used value; the token may differ.\<close>

definition diffEnvironment :: "(string \<times> string) list \<Rightarrow> (string \<times> string) list \<Rightarrow> (string \<times> string \<times> string) list" where
  "diffEnvironment d lu = List.map_filter (\<lambda>(k, v). let u = (case map_of lu k of None \<Rightarrow> '''' | Some u \<Rightarrow> u)
     in if v = u \<or> k = ''ETCD_INITIAL_CLUSTER_TOKEN'' then None else Some (k, v, u)) d"

section \<open>The pod of the kubelet\<close>

record containerEnv =
  EnvName :: string
  EnvValue :: string

record volumeMount =
  MountName :: string
  MountPath :: string

record podVolume =
  VolumeName :: string
  HostPath :: string
  HostPathType :: string

record podContainer =
  ContainerName :: string
  Privileged :: bool
  Requests :: "(string \<times> string) list"
  Image :: string
  ContainerCommand :: "string list"
  ContainerEnv :: "containerEnv list"
  VolumeMounts :: "volumeMount list"

record pod =
  APIVersion :: string
  PodKind :: string
  PodLabels :: "(string \<times> string) list"
  PodName :: string
  PodNamespace :: string
  Containers :: "podContainer list"
  HostNetwork :: bool
  PriorityClassName :: string
  Volumes :: "podVolume list"

fun podLines :: "(string \<times> string) list \<Rightarrow> string list \<Rightarrow> goerr + (string \<times> string) list" where
  "podLines env [] = Inr env"
| "podLines env (l # ls) = (let line = TrimSpace l in
     if line = '''' \<or> HasPrefix line ''#'' then podLines env ls
     else (case Cut (CHR ''='') line of (k, None) \<Rightarrow> Inl (Errorf ''cannot parse environment line'') | (k, Some v) \<Rightarrow> podLines (put k v env) ls))"

definition podEnvironment :: "EtcdAdmConfig \<Rightarrow> goerr + (string \<times> string) list" where
  "podEnvironment cfg = podLines [] (Split newline (BuildEnvironment cfg))"

definition buildPod :: "nat list \<Rightarrow> string \<Rightarrow> EtcdAdmConfig \<Rightarrow> goerr + pod" where
  "buildPod order name cfg = (case podEnvironment cfg of Inl e \<Rightarrow> Inl e | Inr env \<Rightarrow>
     (let vars = sort_key EnvName (map (\<lambda>(k, v). \<lparr>EnvName = k, EnvValue = v\<rparr>) (go_range order env));
          volumes = [\<lparr>VolumeName = ''varlogetcd'', HostPath = ''/var/log/'' @ name @ ''.log'', HostPathType = ''FileOrCreate''\<rparr>,
            \<lparr>VolumeName = ''pki'', HostPath = CertificatesDir cfg, HostPathType = ''Directory''\<rparr>,
            \<lparr>VolumeName = ''data'', HostPath = AdmDataDir cfg, HostPathType = ''Directory''\<rparr>];
          c = \<lparr>ContainerName = ''etcd'', Privileged = True, Requests = [(''cpu'', ''100m''), (''memory'', ''100Mi'')],
            Image = ImageRepository cfg @ '':v'' @ Version cfg, ContainerCommand = [''etcd''], ContainerEnv = vars,
            VolumeMounts = [\<lparr>MountName = ''varlogetcd'', MountPath = ''/var/log/etcd.log''\<rparr>,
              \<lparr>MountName = ''pki'', MountPath = CertificatesDir cfg\<rparr>, \<lparr>MountName = ''data'', MountPath = AdmDataDir cfg\<rparr>]\<rparr>
      in Inr \<lparr>APIVersion = ''v1'', PodKind = ''Pod'', PodLabels = [(''k8s-app'', name)], PodName = name, PodNamespace = ''kube-system'',
           Containers = [c], HostNetwork = True, PriorityClassName = ''system-cluster-critical'', Volumes = volumes\<rparr>))"

section \<open>What etcd is told\<close>

text \<open>The variables of a configuration, with their values as they are meant.\<close>

definition optional :: "string \<Rightarrow> string \<Rightarrow> (string \<times> string) list" where
  "optional k v = (if v = '''' then [] else [(k, v)])"

definition settings :: "EtcdAdmConfig \<Rightarrow> (string \<times> string) list" where
  "settings cfg =
    [(''ETCD_NAME'', AdmName cfg), (''ETCD_INITIAL_CLUSTER'', InitialCluster cfg)] @ optional ''ETCD_INITIAL_CLUSTER_TOKEN'' (InitialClusterToken cfg) @
    [(''ETCD_INITIAL_CLUSTER_STATE'', InitialClusterState cfg),
     (''ETCD_INITIAL_ADVERTISE_PEER_URLS'', URLListString (InitialAdvertisePeerURLs cfg)), (''ETCD_LISTEN_PEER_URLS'', URLListString (ListenPeerURLs cfg)),
     (''ETCD_CLIENT_CERT_AUTH'', ''true''), (''ETCD_PEER_CERT_FILE'', PeerCertFile cfg), (''ETCD_PEER_KEY_FILE'', PeerKeyFile cfg),
     (''ETCD_PEER_TRUSTED_CA_FILE'', PeerTrustedCAFile cfg), (''ETCD_ADVERTISE_CLIENT_URLS'', URLListString (AdvertiseClientURLs cfg)),
     (''ETCD_LISTEN_CLIENT_URLS'', URLListString (ListenClientURLs cfg)), (''ETCD_PEER_CLIENT_CERT_AUTH'', ''true''),
     (''ETCD_CERT_FILE'', CertFile cfg), (''ETCD_KEY_FILE'', KeyFile cfg), (''ETCD_TRUSTED_CA_FILE'', TrustedCAFile cfg),
     (''ETCD_DATA_DIR'', AdmDataDir cfg), (''ETCD_STRICT_RECONFIG_CHECK'', ''true'')] @
    optional ''GOMAXPROCS'' (if GOMAXPROCS cfg = 0 then '''' else Itoa (GOMAXPROCS cfg)) @ optional ''ETCD_ENABLE_V2'' (EnableV2 cfg) @
    optional ''ETCD_LOGGER'' (Logger cfg) @ optional ''ETCD_LOG_OUTPUTS'' (LogOutputs cfg) @
    optional ''ETCD_LISTEN_METRICS_URLS'' (URLListString (AdmListenMetricsURLs cfg))"

text \<open>A value that fits on a line: no newline, no white space around it, and not too long when escaped.\<close>

definition lineValue :: "string \<Rightarrow> bool" where
  "lineValue v \<longleftrightarrow> newline \<notin> set v \<and> TrimSpace v = v \<and> length (htmlEscape v) \<le> 65000"

text \<open>The characters that the escaper replaces.\<close>

definition special :: "char \<Rightarrow> bool" where
  "special c \<longleftrightarrow> c \<in> {CHR 0x00, CHR 0x22, CHR ''&'', CHR 0x27, CHR ''+'', CHR ''<'', CHR ''>''}"

lemma escapeChar_plain: "\<not> special c \<Longrightarrow> escapeChar c = [c]"
  by (simp add: special_def escapeChar_def)

lemma escapeChar_longer: "special c \<Longrightarrow> 1 < length (escapeChar c)"
  by (auto simp: special_def escapeChar_def)

lemma length_htmlEscape: "length s \<le> length (htmlEscape s) \<and> (length (htmlEscape s) = length s \<longleftrightarrow> list_all (\<lambda>c. \<not> special c) s)"
proof (induction s)
  case (Cons c s)
  then show ?case using escapeChar_longer [of c] escapeChar_plain [of c] by (cases "special c") (auto simp: htmlEscape_def)
qed (simp add: htmlEscape_def)

lemma htmlEscape_id_iff: "htmlEscape s = s \<longleftrightarrow> list_all (\<lambda>c. \<not> special c) s"
proof
  assume "list_all (\<lambda>c. \<not> special c) s"
  then show "htmlEscape s = s" by (induction s) (simp_all add: htmlEscape_def escapeChar_plain)
qed (metis length_htmlEscape)

lemma escapeChar_ends: "\<not> isSpace c \<Longrightarrow> \<not> isSpace (hd (escapeChar c)) \<and> \<not> isSpace (last (escapeChar c))" "escapeChar c \<noteq> []"
  by (auto simp: escapeChar_def isSpace_def)

lemma escapeChar_newline: "newline \<in> set (escapeChar c) \<longleftrightarrow> c = newline"
  by (auto simp: escapeChar_def newline_def)

lemma newline_htmlEscape [simp]: "newline \<in> set (htmlEscape s) \<longleftrightarrow> newline \<in> set s"
  by (auto simp: htmlEscape_def escapeChar_newline)

lemma htmlEscape_Nil [simp]: "htmlEscape s = [] \<longleftrightarrow> s = []"
  by (simp add: htmlEscape_def escapeChar_ends(2))

lemma TrimSpace_ends: "TrimSpace s = s \<Longrightarrow> s = [] \<or> \<not> isSpace (hd s) \<and> \<not> isSpace (last s)"
proof (cases s)
  case (Cons x xs)
  assume t: "TrimSpace s = s"
  let ?d = "dropWhile isSpace s"
  have len: "length (dropWhile isSpace ys) \<le> length ys" for ys by (rule length_dropWhile_le)
  have "length (dropWhile isSpace (rev ?d)) = length s" using arg_cong [OF t, of length] by (simp add: TrimSpace_def)
  then have "length ?d = length s" using len [of "rev ?d"] len [of s] by simp
  then have d: "?d = s" by (metis append_eq_append_conv append_Nil takeWhile_dropWhile_id)
  with t have "dropWhile isSpace (rev s) = rev s" by (metis TrimSpace_def rev_rev_ident)
  then have "\<not> isSpace (hd (rev s))" using Cons by (metis hd_dropWhile rev_is_Nil_conv list.distinct(1))
  moreover have "\<not> isSpace (hd s)" using d Cons by (metis hd_dropWhile list.distinct(1))
  ultimately show ?thesis by (simp add: hd_rev)
qed simp

lemma htmlEscape_trimmed: "TrimSpace s = s \<Longrightarrow> TrimSpace (htmlEscape s) = htmlEscape s"
proof (rule TrimSpace_id)
  assume "TrimSpace s = s"
  from TrimSpace_ends [OF this] show "htmlEscape s = [] \<or> \<not> isSpace (hd (htmlEscape s)) \<and> \<not> isSpace (last (htmlEscape s))"
  proof
    assume e: "\<not> isSpace (hd s) \<and> \<not> isSpace (last s)"
    show ?thesis
    proof (cases s)
      case (Cons x xs)
      have "htmlEscape s = escapeChar (hd s) @ htmlEscape (tl s)" by (simp add: Cons htmlEscape_def)
      moreover have "htmlEscape s = htmlEscape (butlast s) @ escapeChar (last s)"
        by (metis Cons append_butlast_last_id concat.simps concat_append htmlEscape_def list.distinct(1) list.simps(8,9) map_append append_Nil2)
      ultimately show ?thesis using e escapeChar_ends [of "hd s"] escapeChar_ends [of "last s"] by (metis hd_append2 last_appendR)
    qed (simp add: htmlEscape_def)
  qed (simp add: htmlEscape_def)
qed

subsection \<open>Lines\<close>

text \<open>A name of a variable: not empty, no white space, equals sign or newline, and not a comment.\<close>

definition varName :: "string \<Rightarrow> bool" where
  "varName k \<longleftrightarrow> k \<noteq> '''' \<and> hd k \<noteq> CHR ''#'' \<and> list_all (\<lambda>c. \<not> isSpace c \<and> c \<noteq> CHR ''='') k \<and> length k \<le> 100"

lemma isSpace_newline: "isSpace newline" "\<not> isSpace (CHR ''='')" "\<not> isSpace (CHR ''#'')"
  by (simp_all add: isSpace_def newline_def)

lemma varName_trimmed: "varName k \<Longrightarrow> TrimSpace k = k"
  by (rule TrimSpace_id) (auto simp: varName_def list_all_iff)

definition varLine :: "string \<Rightarrow> string \<Rightarrow> string \<Rightarrow> bool" where
  "varLine l k v \<longleftrightarrow> l = k @ ''='' @ v \<and> varName k \<and> TrimSpace v = v \<and> newline \<notin> set v \<and> length v \<le> 65000"

lemma varLine_trimmed:
  assumes "varLine l k v"
  shows "TrimSpace l = l" and "dropCR l = l"
proof -
  have k: "k \<noteq> ''''" "\<not> isSpace (hd k)" "hd l = hd k" using assms by (auto simp: varLine_def varName_def list_all_iff)
  have "\<not> isSpace (last l)" using assms TrimSpace_ends [of v] by (auto simp: varLine_def isSpace_newline)
  then show "TrimSpace l = l" "dropCR l = l" using k by (auto intro!: TrimSpace_id simp: dropCR_def isSpace_def)
qed

lemma varLine_parse: "varLine l k v \<Longrightarrow> parseLine l = Some (k, v)"
proof -
  assume l: "varLine l k v"
  then have c: "Cut (CHR ''='') l = (k, Some v)" by (auto simp: varLine_def varName_def list_all_iff intro!: Cut_append)
  have "\<not> HasPrefix l ''#''" using l by (cases k) (auto simp: varLine_def varName_def HasPrefix_def)
  moreover have "TrimSpace l \<noteq> ''''" "TrimSpace k = k" "TrimSpace v = v"
    using l by (simp_all only: varLine_trimmed(1) [OF l]) (auto simp: varLine_def varName_trimmed)
  ultimately show ?thesis by (simp add: parseLine_def c)
qed

lemma varLine_no_newline: "varLine l k v \<Longrightarrow> newline \<notin> set l" and varLine_fits: "varLine l k v \<Longrightarrow> length l < 65536"
  using isSpace_newline by (auto simp: varLine_def varName_def list_all_iff newline_def)

lemma envVar_line: "varName k \<Longrightarrow> lineValue v \<Longrightarrow> varLine (envVar k v) k (htmlEscape v)"
  by (simp add: varLine_def lineValue_def envVar_def htmlEscape_trimmed)

text \<open>\<open>lineOf l kv\<close>: the line sets nothing, or the variable \<open>kv\<close>.\<close>

definition lineOf :: "string \<Rightarrow> (string \<times> string) option \<Rightarrow> bool" where
  "lineOf l kv = (case kv of None \<Rightarrow> l = '''' \<or> HasPrefix l ''#'' \<and> newline \<notin> set l \<and> dropCR l = l \<and> TrimSpace l = l \<and> length l < 65536
     | Some (k, v) \<Rightarrow> varLine l k v)"

lemma lineOf_props:
  assumes "lineOf l kv"
  shows "newline \<notin> set l" "dropCR l = l" "TrimSpace l = l" "length l < 65536" "parseLine l = kv"
proof -
  have "newline \<notin> set l \<and> dropCR l = l \<and> TrimSpace l = l \<and> length l < 65536 \<and> parseLine l = kv"
  proof (cases kv)
    case None
    moreover have "dropCR '''' = ''''" "TrimSpace '''' = ''''" by (simp_all add: dropCR_def TrimSpace_def)
    ultimately show ?thesis using assms by (auto simp: lineOf_def parseLine_def)
  next
    case (Some p)
    then show ?thesis
      using assms by (cases p) (simp add: lineOf_def varLine_no_newline varLine_trimmed varLine_fits varLine_parse)
  qed
  then show "newline \<notin> set l" "dropCR l = l" "TrimSpace l = l" "length l < 65536" "parseLine l = kv" by simp_all
qed

lemma ifSet_line: "varName k \<Longrightarrow> lineValue v \<Longrightarrow> lineOf (ifSet k v) (if v = '''' then None else Some (k, htmlEscape v))"
  by (simp add: ifSet_def lineOf_def envVar_line)

lemma map_of_setAll: "map_of (setAll kvs) = map_of (rev kvs)"
proof -
  have "map_of (fold (\<lambda>(k, v). put k v) kvs m) = map_of m ++ map_of (rev kvs)" for m
    by (induction kvs arbitrary: m) (auto simp: map_add_def fun_eq_iff split: option.split)
  then show ?thesis by (simp add: setAll_def)
qed

lemma distinct_map_of_rev: "distinct (map fst kvs) \<Longrightarrow> map_of (rev kvs) = map_of kvs"
proof (rule map_of_eqI)
  assume d: "distinct (map fst kvs)"
  show "\<forall>k \<in> set (map fst (rev kvs)). map_of (rev kvs) k = map_of kvs k"
  proof
    fix k assume "k \<in> set (map fst (rev kvs))"
    then obtain v where v: "(k, v) \<in> set kvs" by auto
    then have "map_of kvs k = Some v" "map_of (rev kvs) k = Some v" using d by (auto intro!: map_of_is_SomeI simp: rev_map [symmetric])
    then show "map_of (rev kvs) k = map_of kvs k" by simp
  qed
qed simp

lemma map_of_setAll_distinct: "distinct (map fst kvs) \<Longrightarrow> map_of (setAll kvs) = map_of kvs"
  by (simp add: map_of_setAll distinct_map_of_rev)

lemma podLines_lineOf: "list_all2 lineOf ls kvs \<Longrightarrow> podLines env ls = Inr (fold (\<lambda>(k, v). put k v) (List.map_filter (\<lambda>x. x) kvs) env)"
proof (induction arbitrary: env rule: list_all2_induct)
  case (Cons l ls kv kvs)
  note l = lineOf_props [OF Cons.hyps(1)]
  show ?case
  proof (cases kv)
    case None
    with Cons.hyps(1) l(3) show ?thesis by (auto simp: lineOf_def Let_def Cons.IH map_filter_simps)
  next
    case (Some p)
    obtain k v where p: "p = (k, v)" by (cases p)
    have v: "varLine l k v" using Cons.hyps(1) by (simp add: lineOf_def Some p)
    then have "Cut (CHR ''='') l = (k, Some v)" by (auto simp: varLine_def varName_def list_all_iff intro!: Cut_append)
    moreover have "l \<noteq> ''''" "\<not> HasPrefix l ''#''" using v by (cases k; auto simp: varLine_def varName_def HasPrefix_def)+
    ultimately show ?thesis using l(3) by (simp add: Let_def Cons.IH map_filter_simps Some p)
  qed
qed (simp add: map_filter_simps)

lemma scanLines_lines:
  assumes "list_all2 lineOf ls kvs"
  shows "scanLines (Join [newline] (ls @ [''''])) = (ls, None)"
proof -
  have all: "list_all (\<lambda>l. newline \<notin> set l \<and> dropCR l = l \<and> length l < 65536) ls"
    using assms by (induction rule: list_all2_induct) (simp_all add: lineOf_props)
  then have "Split newline (Join [newline] (ls @ [''''])) = ls @ ['''']" by (intro Split_Join) (auto simp: list_all_iff)
  moreover have "takeWhile (\<lambda>l. length l < 65536) ls = ls" using all unfolding takeWhile_eq_all_conv by (simp add: list_all_iff)
  moreover have "map dropCR ls = ls" using all by (simp add: list_all_iff map_idI)
  ultimately show ?thesis using all by (simp add: scanLines_def Let_def list_all_iff del: takeWhile_eq_all_conv)
qed

lemma makeEnvironment_lines:
  assumes "list_all2 lineOf ls kvs"
  shows "makeEnvironment (Join [newline] (ls @ [''''])) = Inr (setAll (List.map_filter (\<lambda>x. x) kvs))"
proof -
  have "List.map_filter parseLine ls = List.map_filter (\<lambda>x. x) kvs"
    using assms by (induction rule: list_all2_induct) (auto simp: map_filter_simps lineOf_props(5) split: option.split)
  then show ?thesis by (simp add: makeEnvironment_def scanLines_lines [OF assms])
qed

subsection \<open>The environment of a configuration\<close>

definition lineVars :: "EtcdAdmConfig \<Rightarrow> (string \<times> string) option list" where
  "lineVars cfg = (let var = (\<lambda>k v. Some (k, htmlEscape v)); opt = (\<lambda>k v. if v = '''' then None else Some (k, htmlEscape v)) in
    [var ''ETCD_NAME'' (AdmName cfg), None, None, var ''ETCD_INITIAL_CLUSTER'' (InitialCluster cfg),
     opt ''ETCD_INITIAL_CLUSTER_TOKEN'' (InitialClusterToken cfg), var ''ETCD_INITIAL_CLUSTER_STATE'' (InitialClusterState cfg), None, None,
     var ''ETCD_INITIAL_ADVERTISE_PEER_URLS'' (URLListString (InitialAdvertisePeerURLs cfg)), var ''ETCD_LISTEN_PEER_URLS'' (URLListString (ListenPeerURLs cfg)),
     None, Some (''ETCD_CLIENT_CERT_AUTH'', ''true''), var ''ETCD_PEER_CERT_FILE'' (PeerCertFile cfg), var ''ETCD_PEER_KEY_FILE'' (PeerKeyFile cfg),
     var ''ETCD_PEER_TRUSTED_CA_FILE'' (PeerTrustedCAFile cfg), None, None,
     var ''ETCD_ADVERTISE_CLIENT_URLS'' (URLListString (AdvertiseClientURLs cfg)), var ''ETCD_LISTEN_CLIENT_URLS'' (URLListString (ListenClientURLs cfg)),
     None, Some (''ETCD_PEER_CLIENT_CERT_AUTH'', ''true''), var ''ETCD_CERT_FILE'' (CertFile cfg), var ''ETCD_KEY_FILE'' (KeyFile cfg),
     var ''ETCD_TRUSTED_CA_FILE'' (TrustedCAFile cfg), None, None, var ''ETCD_DATA_DIR'' (AdmDataDir cfg), Some (''ETCD_STRICT_RECONFIG_CHECK'', ''true''),
     (if GOMAXPROCS cfg \<noteq> 0 then var ''GOMAXPROCS'' (Itoa (GOMAXPROCS cfg)) else None), opt ''ETCD_ENABLE_V2'' (EnableV2 cfg), None, None,
     opt ''ETCD_LOGGER'' (Logger cfg), opt ''ETCD_LOG_OUTPUTS'' (LogOutputs cfg), None, None,
     opt ''ETCD_LISTEN_METRICS_URLS'' (URLListString (AdmListenMetricsURLs cfg))])"

lemma Itoa_not_Nil: "Itoa n \<noteq> []"
  by (simp add: Itoa_def)

lemma lineVars_settings: "List.map_filter (\<lambda>x. x) (lineVars cfg) = map (\<lambda>(k, v). (k, htmlEscape v)) (settings cfg)"
proof -
  have e: "htmlEscape ''true'' = ''true''" by (simp add: htmlEscape_id_iff special_def)
  show ?thesis by (simp add: lineVars_def settings_def optional_def Let_def map_filter_simps Itoa_not_Nil e)
qed

lemma settings_distinct: "distinct (map fst (settings cfg))"
  by (simp add: settings_def optional_def)

definition fitting :: "EtcdAdmConfig \<Rightarrow> bool" where
  "fitting cfg \<longleftrightarrow> list_all (\<lambda>(k, v). lineValue v) (settings cfg)"

lemma lineOf_varI: "varName k \<Longrightarrow> lineValue v \<Longrightarrow> lineOf (envVar k v) (Some (k, htmlEscape v))"
  by (simp add: lineOf_def envVar_line)

lemma lineOf_static: "lineOf '''' None" "lineOf ''# Initial cluster configuration'' None" "lineOf ''# Peer configuration'' None"
    "lineOf ''# Client/server configuration'' None" "lineOf ''# Other'' None" "lineOf ''# Logging configuration'' None" "lineOf ''# Profiling/metrics'' None"
    "lineOf ''ETCD_CLIENT_CERT_AUTH=true'' (Some (''ETCD_CLIENT_CERT_AUTH'', ''true''))"
    "lineOf ''ETCD_PEER_CLIENT_CERT_AUTH=true'' (Some (''ETCD_PEER_CLIENT_CERT_AUTH'', ''true''))"
    "lineOf ''ETCD_STRICT_RECONFIG_CHECK=true'' (Some (''ETCD_STRICT_RECONFIG_CHECK'', ''true''))"
  by (simp_all add: lineOf_def varLine_def varName_def isSpace_def newline_def TrimSpace_def dropCR_def HasPrefix_def)

lemma varNames: "varName ''ETCD_NAME''" "varName ''ETCD_INITIAL_CLUSTER''" "varName ''ETCD_INITIAL_CLUSTER_TOKEN''" "varName ''ETCD_INITIAL_CLUSTER_STATE''"
    "varName ''ETCD_INITIAL_ADVERTISE_PEER_URLS''" "varName ''ETCD_LISTEN_PEER_URLS''" "varName ''ETCD_PEER_CERT_FILE''" "varName ''ETCD_PEER_KEY_FILE''"
    "varName ''ETCD_PEER_TRUSTED_CA_FILE''" "varName ''ETCD_ADVERTISE_CLIENT_URLS''" "varName ''ETCD_LISTEN_CLIENT_URLS''" "varName ''ETCD_CERT_FILE''"
    "varName ''ETCD_KEY_FILE''" "varName ''ETCD_TRUSTED_CA_FILE''" "varName ''ETCD_DATA_DIR''" "varName ''GOMAXPROCS''" "varName ''ETCD_ENABLE_V2''"
    "varName ''ETCD_LOGGER''" "varName ''ETCD_LOG_OUTPUTS''" "varName ''ETCD_LISTEN_METRICS_URLS''"
  by (simp_all add: varName_def isSpace_def)

lemma lineValue_Nil: "lineValue ''''"
  by (simp add: lineValue_def TrimSpace_def htmlEscape_def)

lemma template_lines:
  assumes "fitting cfg"
  shows "list_all2 lineOf (EnvFileTemplate cfg) (lineVars cfg)"
proof -
  have fit: "lineValue (AdmName cfg)" "lineValue (InitialCluster cfg)" "lineValue (InitialClusterToken cfg)" "lineValue (InitialClusterState cfg)"
    "lineValue (URLListString (InitialAdvertisePeerURLs cfg))" "lineValue (URLListString (ListenPeerURLs cfg))" "lineValue (PeerCertFile cfg)"
    "lineValue (PeerKeyFile cfg)" "lineValue (PeerTrustedCAFile cfg)" "lineValue (URLListString (AdvertiseClientURLs cfg))"
    "lineValue (URLListString (ListenClientURLs cfg))" "lineValue (CertFile cfg)" "lineValue (KeyFile cfg)" "lineValue (TrustedCAFile cfg)"
    "lineValue (AdmDataDir cfg)" "GOMAXPROCS cfg \<noteq> 0 \<Longrightarrow> lineValue (Itoa (GOMAXPROCS cfg))" "lineValue (EnableV2 cfg)" "lineValue (Logger cfg)"
    "lineValue (LogOutputs cfg)" "lineValue (URLListString (AdmListenMetricsURLs cfg))"
    using assms lineValue_Nil by (auto simp: fitting_def settings_def optional_def Itoa_not_Nil split: if_splits)
  have gmp: "lineOf (if GOMAXPROCS cfg \<noteq> 0 then envVar ''GOMAXPROCS'' (Itoa (GOMAXPROCS cfg)) else '''')
      (if GOMAXPROCS cfg \<noteq> 0 then Some (''GOMAXPROCS'', htmlEscape (Itoa (GOMAXPROCS cfg))) else None)"
    using fit(16) by (simp add: lineOf_static lineOf_varI varNames)
  show ?thesis
    unfolding EnvFileTemplate_def lineVars_def Let_def list_all2_Cons list_all2_Nil
    by (intro conjI TrueI refl gmp lineOf_static lineOf_varI ifSet_line varNames fit)
qed

lemma environment_read:
  assumes "fitting cfg"
  shows "makeEnvironment (BuildEnvironment cfg) = Inr (setAll (map (\<lambda>(k, v). (k, htmlEscape v)) (settings cfg)))"
    and "podEnvironment cfg = Inr (setAll (map (\<lambda>(k, v). (k, htmlEscape v)) (settings cfg)))"
proof -
  note ls = template_lines [OF assms]
  then show "makeEnvironment (BuildEnvironment cfg) = Inr (setAll (map (\<lambda>(k, v). (k, htmlEscape v)) (settings cfg)))"
    by (simp add: BuildEnvironment_def makeEnvironment_lines lineVars_settings)
  have "list_all (\<lambda>l. newline \<notin> set l) (EnvFileTemplate cfg)" using ls by (induction rule: list_all2_induct) (simp_all add: lineOf_props(1))
  then have split: "Split newline (BuildEnvironment cfg) = EnvFileTemplate cfg @ ['''']"
    unfolding BuildEnvironment_def by (intro Split_Join) (auto simp: list_all_iff)
  have last: "list_all2 lineOf (EnvFileTemplate cfg @ ['''']) (lineVars cfg @ [None])" using ls by (intro list_all2_appendI) (simp_all add: lineOf_static)
  have "List.map_filter (\<lambda>x. x) (lineVars cfg @ [None]) = List.map_filter (\<lambda>x. x) (lineVars cfg)" by (simp add: List.map_filter_def)
  then show "podEnvironment cfg = Inr (setAll (map (\<lambda>(k, v). (k, htmlEscape v)) (settings cfg)))"
    by (simp add: podEnvironment_def split podLines_lineOf [OF last] setAll_def lineVars_settings)
qed

lemma map_of_environment:
  "map_of (setAll (map (\<lambda>(k, v). (k, htmlEscape v)) (settings cfg))) k = map_option htmlEscape (map_of (settings cfg) k)"
proof -
  have "distinct (map fst (map (\<lambda>(k, v). (k, htmlEscape v)) (settings cfg)))" using settings_distinct by (simp add: case_prod_unfold comp_def)
  then show ?thesis by (simp add: map_of_setAll_distinct map_of_map)
qed


section \<open>An example\<close>

definition exampleHost :: hostInfo where
  "exampleHost = \<lparr>hostname = Inr ''node1'', numCPU = 4, uuidV4 = ''01234567-89ab'', hostParseIP = (\<lambda>s. if s \<in> {''10.0.0.1'', ''127.0.0.1''} then Some s else None),
     resolveBindAddress = (\<lambda>_. Inr ''10.0.0.1''), interfaceAddrs = (\<lambda>_. Inr [''127.0.0.1'', ''10.0.0.1'']), sanOrder = (\<lambda>_. [])\<rparr>"

definition exampleFlags :: EtcdAdmConfig where
  "exampleFlags = \<lparr>Version = ''3.5.7'', ReleaseURL = ''https://example.com'', ImageRepository = ''quay.io/coreos/etcd'', CertificatesDir = ''/etc/etcd/pki'',
     PeerCertFile = '''', PeerKeyFile = '''', PeerTrustedCAFile = '''', CertFile = '''', KeyFile = '''', TrustedCAFile = '''', EtcdctlCertFile = '''',
     EtcdctlKeyFile = '''', AdmDataDir = ''/var/lib/etcd'', InstallDir = ''/opt/bin/'', CacheDir = '''', PodSpecDir = ''/etc/kubernetes/manifests'', BindAddr = '''',
     UnitFile = '''', EnvironmentFile = '''', EtcdExecutable = '''', EtcdctlExecutable = '''', EtcdctlEnvFile = '''', EtcdctlShellWrapper = '''',
     EtcdDiskPriorities = [''Nice=-10''], InitialAdvertisePeerURLs = [], ListenPeerURLs = [], AdvertiseClientURLs = [], ListenClientURLs = [],
     AdmListenMetricsURLs = [], LoopbackClientURL = \<lparr>Scheme = '''', Host = ''''\<rparr>, ServerCertSANs = [], PeerCertSANs = [], AdmName = '''', InitialCluster = '''',
     InitialClusterToken = '''', InitialClusterState = '''', GOMAXPROCS = 0, Snapshot = '''', SkipHashCheck = False, Retry = True, InitSystem = ''systemd'',
     Logger = '''', LogOutputs = '''', EnableV2 = '''', Endpoint = ''''\<rparr>"

definition exampleConfig :: EtcdAdmConfig where
  "exampleConfig = exampleFlags\<lparr>AdmName := ''node1'', AdmDataDir := ''/var/lib/etcd+1''\<rparr>"

lemma exampleConfig_settings: "settings exampleConfig =
   [(''ETCD_NAME'', ''node1''), (''ETCD_INITIAL_CLUSTER'', ''''), (''ETCD_INITIAL_CLUSTER_STATE'', ''''), (''ETCD_INITIAL_ADVERTISE_PEER_URLS'', ''''),
    (''ETCD_LISTEN_PEER_URLS'', ''''), (''ETCD_CLIENT_CERT_AUTH'', ''true''), (''ETCD_PEER_CERT_FILE'', ''''), (''ETCD_PEER_KEY_FILE'', ''''),
    (''ETCD_PEER_TRUSTED_CA_FILE'', ''''), (''ETCD_ADVERTISE_CLIENT_URLS'', ''''), (''ETCD_LISTEN_CLIENT_URLS'', ''''),
    (''ETCD_PEER_CLIENT_CERT_AUTH'', ''true''), (''ETCD_CERT_FILE'', ''''), (''ETCD_KEY_FILE'', ''''), (''ETCD_TRUSTED_CA_FILE'', ''''),
    (''ETCD_DATA_DIR'', ''/var/lib/etcd+1''), (''ETCD_STRICT_RECONFIG_CHECK'', ''true'')]"
  by (simp add: settings_def optional_def exampleConfig_def exampleFlags_def URLListString_def StringSlice_def)

lemma example_fits: "fitting exampleConfig"
  by (simp add: fitting_def exampleConfig_settings lineValue_def TrimSpace_def isSpace_def htmlEscape_def escapeChar_def newline_def)


end
