(* ===== verification/Spec2Isabelle.thy ===== *)
theory Spec2Isabelle
  imports Prelude GoStrings GoTime Versions PrivateApi EtcdApi EtcdProcess Calendar Vfs Backup Commands EtcdServer ServerSafety ServerProperties EtcdClient Restore Hosts Locking ClusterState Controller ControllerSafety ControllerProperties AdmConfig
begin

text \<open>
  A verification development of etcdadm, mainly of etcd-manager: the service that runs on every node of a control plane and
  together with its peers creates, resizes, backs up, restores and upgrades an etcd cluster.

  \<^bold>\<open>The program.\<close> Every node runs one manager. The managers find each other and exchange pings
  (\<open>pkg/privateapi\<close>); the one with the lowest id among the healthy peers takes the leader lock (\<open>pkg/locking\<close>),
  announces itself with a fresh token and, when all have acknowledged it, acts as the controller
  (\<open>pkg/controller\<close>). The controller reads commands and the expected cluster from a control store
  (\<open>pkg/commands\<close>) and calls the servers of the peers (\<open>pkg/etcd\<close>): prepare and join a cluster, reconfigure, stop,
  back up, restore. A server accepts a call only with the token of the leader it follows. It keeps its state in a file and runs etcd
  as a child process from that state. Backups are kept in a store with a retention (\<open>pkg/backup\<close>,
  \<open>pkg/backupcontroller\<close>), both over a virtual file system. A DNS provider writes the addresses of the members into \<open>/etc/hosts\<close>
  (\<open>pkg/hosts\<close>).

  \<^bold>\<open>The embedding.\<close> An operation is a function from a state to an outcome and a state (\<open>prog\<close> in Prelude): it returns a
  value, returns an error, or crashes (a nil dereference, an index out of range, \<open>klog.Fatalf\<close>). The combinators follow
  the Go control flow: sequencing, early return, errors tested and wrapped, loops with continue and return. A record of each component has
  the fields of the Go struct. What the code only calls (file systems, the network, JSON, certificates, processes, etcd itself, clocks) is
  a record of parameters; a call may fail or give any answer, indexed by the number of the call. Go maps are association lists, and
  a range over a map takes its order from a parameter (\<open>go_range\<close>), so a theorem holds for every order. Integers are \<open>int\<close>
  with the 64-bit wrap-around written out where durations or parsed numbers can overflow; member ids are 64-bit words. Mutexes are
  taken as given: operations of one server are atomic.

  \<^bold>\<open>The theories.\<close>
  \<^item> Prelude: the programs, the weakest preconditions \<open>wp\<close> with their simplification rules, the contracts \<open>keeps\<close>
    for a preorder on states (locale \<open>state_preorder\<close>), map ranges and association lists. GoStrings, GoTime and
    Calendar: the parts of the packages strings, strconv, net, time that the sources use, with round trips for numbers, dates and splitting.
  \<^item> Versions (\<open>pkg/etcdversions\<close>): which upgrades are done in place, which version restores a backup, and the version parser.
  \<^item> PrivateApi (\<open>pkg/privateapi\<close>, \<open>pkg/discovery\<close>): peers, pings, connections, leader notification and election; when
    \<open>BecomeLeader\<close> succeeds, every healthy peer follows the new token.
  \<^item> EtcdApi: the messages, URL schemes and paths. EtcdProcess (\<open>etcdprocess.go\<close>, \<open>pki.go\<close>): the environment, arguments and
    certificates of the child process.
  \<^item> EtcdServer (\<open>etcdserver.go\<close>, \<open>backup.go\<close>): every handler. ServerSafety has the specification of each handler and
    the invariant over all sequences of requests, restarts and loop iterations (\<open>serverReach\<close>); ServerProperties states what follows:
    a running etcd has the configuration of the state, joining needs a preparation, requests without the leader's token
    change nothing, a restart recovers the state.
  \<^item> Vfs, Backup (\<open>pkg/backup\<close>, \<open>pkg/backupcontroller\<close>) and Commands (\<open>pkg/commands\<close>): the stores. Two locales
    have what their clients rely on; the file-backed stores are interpretations. Cleanup keeps one backup per hour and per day,
    and never removes a backup younger than an hour.
  \<^item> EtcdClient (\<open>pkg/etcdclient\<close>, \<open>pkg/etcd/dump\<close>): the client over an arbitrary etcd service, and copying of the
    key space into a sink (locale \<open>node_sink\<close>, interpreted by the stream and the tar dump).
  \<^item> Restore (\<open>pkg/etcd/restore.go\<close>): the temporary etcd and the copy into the cluster, composed of the server, the
    backup store and the client.
  \<^item> Hosts (\<open>pkg/hosts\<close>): the managed block of the hosts file, against a set-based reference, with concurrent writers.
  \<^item> Locking (\<open>pkg/locking\<close>): mutual exclusion as a locale, with both locks.
  \<^item> ClusterState (\<open>etcdclusterstate.go\<close>, \<open>peer.go\<close>): what the controller knows of the members and its calls to them.
    Controller (\<open>pkg/controller\<close>): the control loop, every branch of \<open>run\<close> and the operations it calls, over arbitrary
    interfaces; each request it sends is noted in a history. ControllerSafety has a logic for such histories (\<open>acts\<close>: which requests a
    program may issue and in which order; locale \<open>action_class\<close>), with a rule per operation; ControllerProperties states what
    follows for an iteration and for the life of a controller: the order of the requests, who may send them, what a minority cannot do.

  \<^item> AdmConfig (\<open>apis\<close>, \<open>constants\<close>, \<open>service\<close>, \<open>initsystem/kubelet\<close>): the configuration of the command etcdadm, the
    files generated from it, and what etcd is told by them.
  \<^item> Spec2Isabelle: the composition of the controller with the servers it calls.

  \<^bold>\<open>Bounds and fuel.\<close> Copying the key space takes fuel, one unit per batch; with more fuel than keys it is shown to
  end with all of them, since every batch but the last makes progress. The recursion over parent directories of the tar dump takes a stack depth;
  it is shown to end within the length of an absolute key and to exceed every depth for a relative one. When the controller stops a cluster
  for an upgrade it polls the control store until the restore command it added is listed (\<open>awaitCommand\<close>), which need not end; the
  model takes fuel there and crashes without it, and the theorems on the controller hold for every fuel. All other loops of the
  modelled code run over lists or a fixed number of attempts and are structural recursions.

  \<^bold>\<open>Not modelled.\<close> The cloud volume providers (\<open>pkg/volumes/*\<close>) and mounting are calls of cloud and system interfaces; the
  program entry points under \<open>cmd\<close> parse flags and wire the components together; generated protobuf code, gRPC transport,
  key generation, JSON and compression are parameters. The contents of slices are values, so the sharing of backing arrays
  between slices is not visible. Timeouts and cancellation of contexts appear as failures of the calls.
\<close>

section \<open>The controller and the servers\<close>

fun requestOf :: "action \<Rightarrow> request option" where
  "requestOf (JoinSent _ r _) = Some (JoinClusterRpc r)"
| "requestOf (ReconfigureSent _ r _) = Some (ReconfigureRpc r)"
| "requestOf (StopSent _ h _) = Some (StopEtcdRpc h)"
| "requestOf (BackupSent _ r _) = Some (DoBackupRpc r)"
| "requestOf _ = None"

lemma iteration_carries:
  assumes "iteration E w w'" and "leadershipOf (ctl w) = Some l" and "history w' = history w @ d" and "a \<in> set d"
  shows "carries \<lparr>HeaderToken = leaderToken l, HeaderCluster = ctlClusterName (ctl w)\<rparr> a"
proof -
  have "\<forall>a \<in> set d. carries (officeHeader k) a" if "okFrom (permitted k) S d" for k S d
    using that by (induction d arbitrary: S) (auto simp: permitted_def)
  note all = this
  obtain g where "okFrom (permitted (Some l, ctlClusterName (ctl w), g)) {} d"
    using assms by (auto simp: iteration_def leads_def)
  from all [OF this] assms(4) show ?thesis by (simp add: officeHeader_def)
qed

lemma requestOf_header: "requestOf a = Some req \<Longrightarrow> carries h a \<Longrightarrow> headerOf req = Some (Some h)"
  by (cases a) auto

lemma accepted_token:
  assumes "LeaderNotification added now now' at c (Some view) p = (Inr resp, p')" and "Accepted resp"
  shows "IsLeader p' tok \<longleftrightarrow> tok = LeadershipToken view"
  using assms by (auto simp: LeaderNotification_def IsLeader_def Let_def split: if_splits)

lemma restore_guarded:
  assumes "\<not> validFor (node v) (RestoreHeader r)"
  shows "\<exists>x. DoRestore fuel E X r v = (x, v) \<and> (\<forall>n. x \<noteq> Ret n)"
proof -
  have reject: "\<exists>x. seq (onNode (validateHeader (RestoreHeader r))) q v = (x, v) \<and> (\<forall>k. x \<noteq> Ret k)" for q :: "('a restoreWorld, nat option) prog"
    using validateHeader_invalid [OF assms] by (auto simp: seq_def bind_def onNode_def)
  show ?thesis unfolding DoRestore_def by (rule reject)
qed



definition exampleNotice :: View where
  "exampleNotice = \<lparr>Leader = None, LeadershipToken = ''new'', Healthy = [\<lparr>InfoId = ''a'', Endpoints = [''10.0.0.1'']\<rparr>]\<rparr>"


end
